(* ===== verification/Prelude.thy ===== *)
theory Prelude
  imports Main "HOL-Library.Word" "HOL-Library.Char_ord" "HOL-Library.Signed_Division"
begin

text \<open>
  The prelude of the OpenTAMS development: the Go language features that every component
  uses, with the lemmas that carry the component proofs.

  \<^item> Machine integers: an \<open>int64\<close>, \<open>int32\<close> or \<open>uint64\<close> of the source is an \<open>int\<close>,
    and every operation that can leave the range is wrapped by \<open>i64\<close>, \<open>i32\<close> or \<open>u64\<close>.
    The wrapping functions are tied to the two's complement reading of HOL words.
  \<^item> Errors: Go's error values, \<^verbatim>\<open>fmt.Errorf\<close> with its \<open>%w\<close> verbs, \<^verbatim>\<open>errors.Is\<close>
    and \<^verbatim>\<open>errors.As\<close>. The text of a message is kept as the list of its parts.
  \<^item> Outcomes: a call returns a value, returns an error, or panics (\<open>'a res\<close>).
  \<^item> Text: \<^verbatim>\<open>strings.Cut\<close>, \<^verbatim>\<open>strings.HasPrefix\<close>, \<^verbatim>\<open>strconv.ParseUint\<close>,
    \<^verbatim>\<open>strconv.ParseInt\<close> and the \<open>%d\<close> verb, on strings as lists of bytes.
\<close>

named_theorems width_simps \<open>facts that remove a wrap-around inside the range\<close>
named_theorems res_simps \<open>inversion of outcomes\<close>

section \<open>Machine integers\<close>

definition MaxInt64 :: int where
  "MaxInt64 = 9223372036854775807"

definition MinInt64 :: int where
  "MinInt64 = - 9223372036854775808"

definition i64 :: "int \<Rightarrow> int" where
  "i64 x = (x + 9223372036854775808) mod 18446744073709551616 - 9223372036854775808"

definition u64 :: "int \<Rightarrow> int" where
  "u64 x = x mod 18446744073709551616"

definition i32 :: "int \<Rightarrow> int" where
  "i32 x = (x + 2147483648) mod 4294967296 - 2147483648"

definition in_i64 :: "int \<Rightarrow> bool" where
  "in_i64 x \<longleftrightarrow> MinInt64 \<le> x \<and> x \<le> MaxInt64"

lemma i64_id [width_simps]: "in_i64 x \<Longrightarrow> i64 x = x"
  by (simp add: in_i64_def i64_def MinInt64_def MaxInt64_def)

lemma in_i64_i64: "in_i64 (i64 x)"
proof -
  have "0 \<le> (x + 9223372036854775808) mod 18446744073709551616"
    and "(x + 9223372036854775808) mod 18446744073709551616 < (18446744073709551616 :: int)"
    by simp_all
  then show ?thesis
    unfolding in_i64_def i64_def MinInt64_def MaxInt64_def by linarith
qed

lemma u64_id [width_simps]: "0 \<le> x \<Longrightarrow> x < 18446744073709551616 \<Longrightarrow> u64 x = x"
  by (simp add: u64_def)

lemma i32_id [width_simps]: "- 2147483648 \<le> x \<Longrightarrow> x < 2147483648 \<Longrightarrow> i32 x = x"
  by (simp add: i32_def)

text \<open>The wrapping functions are the two's complement readings of 64 and 32 bit words.\<close>

lemma sint_word64: "sint (word_of_int x :: 64 word) = i64 x"
  by (simp add: i64_def int_word_sint)

lemma sint_word32: "sint (word_of_int x :: 32 word) = i32 x"
  by (simp add: i32_def int_word_sint)

lemma uint_word64: "uint (word_of_int x :: 64 word) = u64 x"
  by (simp add: u64_def uint_word_of_int)

section \<open>Errors and outcomes\<close>

text \<open>
  A \<^verbatim>\<open>var Err = errors.New(...)\<close> is a sentinel: two of them are equal when they are the
  same variable. The constructors name the package of the variable where two packages
  use one name.
\<close>

datatype sentinel =
    ErrOutOfRange | ErrEmptyRange                       \<comment> \<open>package timerange\<close>
  | Meta_ErrFlowNotFound | Meta_ErrFlowReadOnly | ErrInvalidCursor | ErrBadInput
  | ErrSegmentOverlap | ErrSegmentObjectReaping | ErrControlledStorageNotConfigured
                                                        \<comment> \<open>package metastore, segments\<close>
  | ErrSchemaNotMigrated | ErrSchemaDirty | ErrSchemaTooOld \<comment> \<open>package metastore, schema\<close>
  | Seg_ErrFlowNotFound | Seg_ErrFlowReadOnly | ErrInvalidRequest
                                                        \<comment> \<open>package service/segment\<close>
  | ErrTransient | ErrAuth | ErrInvalidInput            \<comment> \<open>package objectstore\<close>

text \<open>The catalogued codes of \<^verbatim>\<open>internal/apperror\<close>; \<open>NoCode\<close> is the empty string.\<close>

datatype ErrorCode =
    NoCode | SegmentOverlap | InvalidObjectTimerange | InvalidTimerange | InvalidUUID
  | InvalidJSON | SchemaValidation | ImmutableField | FormatMismatch | MissingIdempotencyKey
  | StorageModeConflict | ObjectIDExists | VFRFrameRateConflict | BatchTooLarge
  | Unauthorized | Forbidden | TokenExpired | ReadOnlyCode | ObjectReaping | NotFound
  | NotAcceptable | RequestTooLarge | RateLimited | DependencyUnavailable

text \<open>
  The text of an error is the sequence of the parts that \<^verbatim>\<open>fmt.Sprintf\<close> or \<open>+\<close> puts
  together: a literal, a quoted string (\<open>%q\<close>), a string (\<open>%s\<close>), an integer (\<open>%d\<close>),
  a wrapped error (\<open>%w\<close>) or only the text of an error (\<^verbatim>\<open>err.Error()\<close>).
  \<open>PgError\<close> is an error the database server reports, with its SQLSTATE code, and
  \<open>Extern\<close> any other error of a library: of the connection, of the signer.
\<close>

datatype go_error =
    Sentinel sentinel
  | Errorf "part list"
  | AppError ErrorCode int "part list"
  | PgError string
  | Extern nat
and part = Lit string | Q string | S string | D int | W go_error | T go_error

type_synonym message = "part list"

text \<open>
  \<^verbatim>\<open>errors.Is(err, target)\<close> for a sentinel and \<^verbatim>\<open>errors.As(err, &ae)\<close> for an
  \<^verbatim>\<open>*apperror.AppError\<close>: depth first over the wrapped errors.
\<close>

fun errors_Is :: "go_error \<Rightarrow> sentinel \<Rightarrow> bool"
  and parts_Is :: "part list \<Rightarrow> sentinel \<Rightarrow> bool" where
  "errors_Is (Sentinel s) t = (s = t)"
| "errors_Is (Errorf ps) t = parts_Is ps t"
| "errors_Is (AppError c st d) t = False"
| "errors_Is (PgError c) t = False"
| "errors_Is (Extern n) t = False"
| "parts_Is [] t = False"
| "parts_Is (W e # ps) t = (errors_Is e t \<or> parts_Is ps t)"
| "parts_Is (Lit x # ps) t = parts_Is ps t"
| "parts_Is (Q x # ps) t = parts_Is ps t"
| "parts_Is (S x # ps) t = parts_Is ps t"
| "parts_Is (D x # ps) t = parts_Is ps t"
| "parts_Is (T x # ps) t = parts_Is ps t"

fun errors_As :: "go_error \<Rightarrow> (ErrorCode \<times> int \<times> message) option"
  and parts_As :: "part list \<Rightarrow> (ErrorCode \<times> int \<times> message) option" where
  "errors_As (Sentinel s) = None"
| "errors_As (Errorf ps) = parts_As ps"
| "errors_As (AppError c st d) = Some (c, st, d)"
| "errors_As (PgError c) = None"
| "errors_As (Extern n) = None"
| "parts_As [] = None"
| "parts_As (W e # ps) = (case errors_As e of Some a \<Rightarrow> Some a | None \<Rightarrow> parts_As ps)"
| "parts_As (Lit x # ps) = parts_As ps"
| "parts_As (Q x # ps) = parts_As ps"
| "parts_As (S x # ps) = parts_As ps"
| "parts_As (D x # ps) = parts_As ps"
| "parts_As (T x # ps) = parts_As ps"

text \<open>\<^verbatim>\<open>errors.As(err, &pgErr)\<close>, giving \<^verbatim>\<open>pgErr.Code\<close>.\<close>

fun errors_As_PgError :: "go_error \<Rightarrow> string option"
  and parts_As_PgError :: "part list \<Rightarrow> string option" where
  "errors_As_PgError (Sentinel s) = None"
| "errors_As_PgError (Errorf ps) = parts_As_PgError ps"
| "errors_As_PgError (AppError c st d) = None"
| "errors_As_PgError (PgError c) = Some c"
| "errors_As_PgError (Extern n) = None"
| "parts_As_PgError [] = None"
| "parts_As_PgError (W e # ps) = (case errors_As_PgError e of Some a \<Rightarrow> Some a | None \<Rightarrow> parts_As_PgError ps)"
| "parts_As_PgError (Lit x # ps) = parts_As_PgError ps"
| "parts_As_PgError (Q x # ps) = parts_As_PgError ps"
| "parts_As_PgError (S x # ps) = parts_As_PgError ps"
| "parts_As_PgError (D x # ps) = parts_As_PgError ps"
| "parts_As_PgError (T x # ps) = parts_As_PgError ps"

datatype 'a res = Ok 'a | Err go_error | Panic string

fun rbind :: "'a res \<Rightarrow> ('a \<Rightarrow> 'b res) \<Rightarrow> 'b res" where
  "rbind (Ok x) f = f x"
| "rbind (Err e) f = Err e"
| "rbind (Panic p) f = Panic p"

text \<open>\<^verbatim>\<open>if err != nil { return ..., fmt.Errorf(...) }\<close>: the error is replaced.\<close>

fun rwrap :: "(go_error \<Rightarrow> go_error) \<Rightarrow> 'a res \<Rightarrow> 'a res" where
  "rwrap g (Ok x) = Ok x"
| "rwrap g (Err e) = Err (g e)"
| "rwrap g (Panic p) = Panic p"

text \<open>Reading through a pointer.\<close>

fun deref :: "'a option \<Rightarrow> 'a res" where
  "deref (Some x) = Ok x"
| "deref None = Panic ''nil pointer dereference''"

text \<open>A loop that runs a fallible body on each element and stops at the first error.\<close>

fun rmap :: "('a \<Rightarrow> 'b res) \<Rightarrow> 'a list \<Rightarrow> 'b list res" where
  "rmap f [] = Ok []"
| "rmap f (x # xs) = rbind (f x) (\<lambda>y. rbind (rmap f xs) (\<lambda>ys. Ok (y # ys)))"

fun rfold :: "('a \<Rightarrow> 's \<Rightarrow> 's res) \<Rightarrow> 'a list \<Rightarrow> 's \<Rightarrow> 's res" where
  "rfold f [] s = Ok s"
| "rfold f (x # xs) s = rbind (f x s) (rfold f xs)"

lemma rbind_Ok_iff [res_simps]: "rbind m f = Ok y \<longleftrightarrow> (\<exists>x. m = Ok x \<and> f x = Ok y)"
  by (cases m) auto

lemma rbind_Err_iff [res_simps]:
  "rbind m f = Err e \<longleftrightarrow> m = Err e \<or> (\<exists>x. m = Ok x \<and> f x = Err e)"
  by (cases m) auto

lemma rbind_Panic_iff [res_simps]:
  "rbind m f = Panic p \<longleftrightarrow> m = Panic p \<or> (\<exists>x. m = Ok x \<and> f x = Panic p)"
  by (cases m) auto

lemma rwrap_Ok_iff [res_simps]: "rwrap g m = Ok y \<longleftrightarrow> m = Ok y"
  by (cases m) auto

lemma rwrap_Err_iff [res_simps]: "rwrap g m = Err e \<longleftrightarrow> (\<exists>e'. m = Err e' \<and> e = g e')"
  by (cases m) auto

lemma rwrap_Panic_iff [res_simps]: "rwrap g m = Panic p \<longleftrightarrow> m = Panic p"
  by (cases m) auto

lemma deref_Ok_iff [res_simps]: "deref p = Ok x \<longleftrightarrow> p = Some x"
  by (cases p) auto

lemma deref_not_Err [simp]: "deref p \<noteq> Err e"
  by (cases p) auto

lemma deref_Panic_iff [res_simps]: "deref p = Panic s \<longleftrightarrow> p = None \<and> s = ''nil pointer dereference''"
  by (cases p) auto

lemma rmap_Ok_list_all2: "rmap f xs = Ok ys \<longleftrightarrow> list_all2 (\<lambda>x y. f x = Ok y) xs ys"
  by (induction xs arbitrary: ys) (auto simp: res_simps list_all2_Cons1)

lemma rmap_Ok_length: "rmap f xs = Ok ys \<Longrightarrow> length ys = length xs"
  by (auto simp: rmap_Ok_list_all2 dest: list_all2_lengthD)

lemma rmap_Ok_nth: "rmap f xs = Ok ys \<Longrightarrow> i < length xs \<Longrightarrow> f (xs ! i) = Ok (ys ! i)"
  by (auto simp: rmap_Ok_list_all2 dest: list_all2_nthD)

lemma rfold_append: "rfold f (xs @ ys) s = rbind (rfold f xs s) (rfold f ys)"
proof (induction xs arbitrary: s)
  case (Cons x xs)
  then show ?case by (cases "f x s") auto
qed simp

text \<open>An invariant of the body is an invariant of the loop.\<close>

lemma rfold_Ok_invariant:
  assumes "rfold f xs s = Ok t" and "P s"
    and "\<And>x s t. x \<in> set xs \<Longrightarrow> P s \<Longrightarrow> f x s = Ok t \<Longrightarrow> P t"
  shows "P t"
  using assms
proof (induction xs arbitrary: s)
  case (Cons x xs)
  from Cons.prems(1) obtain s' where s': "f x s = Ok s'" "rfold f xs s' = Ok t"
    by (auto simp: res_simps)
  have "P s'" using Cons.prems(2,3) s'(1) by auto
  with s'(2) show ?case using Cons.prems(3) by (intro Cons.IH) auto
qed simp

section \<open>Text\<close>

definition HasPrefix :: "string \<Rightarrow> string \<Rightarrow> bool" where
  "HasPrefix s p \<longleftrightarrow> take (length p) s = p"

definition TrimPrefix :: "string \<Rightarrow> string \<Rightarrow> string" where
  "TrimPrefix s p = (if HasPrefix s p then drop (length p) s else s)"

text \<open>\<^verbatim>\<open>strings.Cut\<close> for a separator of one byte.\<close>

definition Cut :: "string \<Rightarrow> char \<Rightarrow> string \<times> string \<times> bool" where
  "Cut s sep = (case dropWhile (\<lambda>c. c \<noteq> sep) s of
       [] \<Rightarrow> (s, [], False)
     | _ # rest \<Rightarrow> (takeWhile (\<lambda>c. c \<noteq> sep) s, rest, True))"

lemma Cut_append: "sep \<notin> set a \<Longrightarrow> Cut (a @ sep # b) sep = (a, b, True)"
proof -
  assume "sep \<notin> set a"
  then have "takeWhile (\<lambda>c. c \<noteq> sep) (a @ sep # b) = a"
    and "dropWhile (\<lambda>c. c \<noteq> sep) (a @ sep # b) = sep # b"
    by (induction a) auto
  then show ?thesis by (simp add: Cut_def)
qed

lemma Cut_none: "sep \<notin> set s \<Longrightarrow> Cut s sep = (s, [], False)"
proof -
  assume "sep \<notin> set s"
  then have "dropWhile (\<lambda>c. c \<noteq> sep) s = []" by (induction s) auto
  then show ?thesis by (simp only: Cut_def list.case)
qed

lemma Cut_found: "Cut s sep = (a, b, True) \<Longrightarrow> s = a @ sep # b \<and> sep \<notin> set a"
proof -
  assume cut: "Cut s sep = (a, b, True)"
  then obtain r where r: "dropWhile (\<lambda>c. c \<noteq> sep) s = r # b"
    and a: "a = takeWhile (\<lambda>c. c \<noteq> sep) s"
    by (auto simp: Cut_def split: list.splits)
  from r have "r = sep" using hd_dropWhile [of "\<lambda>c. c \<noteq> sep" s] by auto
  with r a show ?thesis
    using takeWhile_dropWhile_id [of "\<lambda>c. c \<noteq> sep" s] by (auto dest: set_takeWhileD)
qed

definition is_digit :: "char \<Rightarrow> bool" where
  "is_digit c \<longleftrightarrow> CHR ''0'' \<le> c \<and> c \<le> CHR ''9''"

definition digit_val :: "char \<Rightarrow> nat" where
  "digit_val c = of_char c - 48"

definition digit_char :: "nat \<Rightarrow> char" where
  "digit_char d = char_of (48 + d)"

lemma digit_char_props [simp]:
  assumes "d < 10"
  shows "is_digit (digit_char d)" "digit_val (digit_char d) = d"
    "digit_char d = CHR ''0'' \<longleftrightarrow> d = 0"
proof -
  have v: "of_char (digit_char d) = 48 + d"
    using assms by (simp add: digit_char_def of_char_of)
  then show "is_digit (digit_char d)" "digit_val (digit_char d) = d"
    using assms by (simp_all add: is_digit_def digit_val_def less_eq_char_def)
  have "digit_char d = CHR ''0'' \<longleftrightarrow> of_char (digit_char d) = (of_char (CHR ''0'') :: nat)"
    by (simp only: of_char_eq_iff)
  then show "digit_char d = CHR ''0'' \<longleftrightarrow> d = 0" using v by simp
qed

lemma digit_val_less: "is_digit c \<Longrightarrow> digit_val c < 10"
  by (auto simp: is_digit_def digit_val_def less_eq_char_def)

lemma digit_char_val: "is_digit c \<Longrightarrow> digit_char (digit_val c) = c"
proof -
  assume d: "is_digit c"
  then have "48 \<le> (of_char c :: nat)" by (simp add: is_digit_def less_eq_char_def)
  then have "48 + digit_val c = of_char c" by (simp add: digit_val_def)
  then show ?thesis by (simp add: digit_char_def)
qed

text \<open>The value of a string of digits, and the decimal digits of a number (\<open>%d\<close>).\<close>

definition dec_val :: "string \<Rightarrow> nat" where
  "dec_val s = foldl (\<lambda>n c. 10 * n + digit_val c) 0 s"

fun dec :: "nat \<Rightarrow> string" where
  "dec n = (if n < 10 then [digit_char n] else dec (n div 10) @ [digit_char (n mod 10)])"

declare dec.simps [simp del]

definition fmt_d :: "int \<Rightarrow> string" where
  "fmt_d x = (if x < 0 then CHR ''-'' # dec (nat (- x)) else dec (nat x))"

lemma dec_val_snoc [simp]: "dec_val (s @ [c]) = 10 * dec_val s + digit_val c"
  by (simp add: dec_val_def)

lemma dec_val_Nil [simp]: "dec_val [] = 0"
  by (simp add: dec_val_def)

lemma dec_val_dec [simp]: "dec_val (dec n) = n"
proof (induction n rule: dec.induct)
  case (1 n)
  show ?case
  proof (cases "n < 10")
    case True
    then have "dec n = [] @ [digit_char n]" by (simp add: dec.simps [of n])
    then show ?thesis using True by (simp only: dec_val_snoc) simp
  next
    case False
    with "1.IH" show ?thesis by (simp add: dec.simps [of n])
  qed
qed

lemma dec_not_Nil [simp]: "dec n \<noteq> []"
  by (simp add: dec.simps [of n])

lemma dec_digits: "list_all is_digit (dec n)"
proof (induction n rule: dec.induct)
  case (1 n)
  then show ?case by (simp add: dec.simps [of n])
qed

lemma dec_hd_nonzero: "0 < n \<Longrightarrow> hd (dec n) \<noteq> CHR ''0''"
proof (induction n rule: dec.induct)
  case (1 n)
  show ?case
  proof (cases "n < 10")
    case True
    with "1.prems" show ?thesis by (simp add: dec.simps [of n])
  next
    case False
    then have "0 < n div 10" by simp
    with False "1.IH" show ?thesis by (simp add: dec.simps [of n])
  qed
qed

lemma dec_0: "dec 0 = ''0''"
  using digit_char_props(3) [of 0] by (simp add: dec.simps [of 0])

lemma dec_length: "n < 10 ^ Suc k \<Longrightarrow> length (dec n) \<le> Suc k"
proof (induction k arbitrary: n)
  case 0
  then show ?case by (simp add: dec.simps [of n])
next
  case (Suc k)
  show ?case
  proof (cases "n < 10")
    case True
    then show ?thesis by (simp add: dec.simps [of n])
  next
    case False
    from Suc.prems have "n div 10 < 10 ^ Suc k" by simp
    with Suc.IH have "length (dec (n div 10)) \<le> Suc k" by blast
    with False show ?thesis by (simp add: dec.simps [of n])
  qed
qed

lemma not_in_digits: "list_all is_digit s \<Longrightarrow> \<not> is_digit c \<Longrightarrow> c \<notin> set s"
  by (auto simp: list_all_iff)

lemma not_is_digit [simp]:
  "\<not> is_digit (CHR '':'')" "\<not> is_digit (CHR ''-'')" "\<not> is_digit (CHR ''_'')"
  "\<not> is_digit (CHR ''['')" "\<not> is_digit (CHR ''('')" "\<not> is_digit (CHR '']'')"
  "\<not> is_digit (CHR '')'')"
  by (simp_all add: is_digit_def less_eq_char_def)

text \<open>
  \<^verbatim>\<open>strconv.ParseUint(s, 10, bits)\<close> and \<^verbatim>\<open>strconv.ParseInt(s, 10, bits)\<close>: the value
  they return and the error, if any. On a range error the value is the nearest bound.
\<close>

datatype num_error = ErrSyntax | ErrRange

definition ParseUint :: "string \<Rightarrow> nat \<Rightarrow> int \<times> num_error option" where
  "ParseUint s bits =
     (if s = [] \<or> \<not> list_all is_digit s then (0, Some ErrSyntax)
      else if int (dec_val s) > 2 ^ bits - 1 then (2 ^ bits - 1, Some ErrRange)
      else (int (dec_val s), None))"

definition ParseInt :: "string \<Rightarrow> nat \<Rightarrow> int \<times> num_error option" where
  "ParseInt s bits =
     (if s = [] then (0, Some ErrSyntax)
      else
        let neg = hd s = CHR ''-'';
            body = (if hd s = CHR ''+'' \<or> neg then tl s else s);
            (un, err) = ParseUint body bits;
            cutoff = 2 ^ (bits - 1)
        in if err = Some ErrSyntax then (0, err)
           else if \<not> neg \<and> un \<ge> cutoff then (cutoff - 1, Some ErrRange)
           else if neg \<and> un > cutoff then (- cutoff, Some ErrRange)
           else (if neg then - un else un, None))"

lemma is_digit_hd: "list_all is_digit s \<Longrightarrow> s \<noteq> [] \<Longrightarrow> hd s \<noteq> CHR ''-'' \<and> hd s \<noteq> CHR ''+''"
  by (cases s) (auto simp: is_digit_def less_eq_char_def)

lemma ParseUint_digits:
  "s \<noteq> [] \<Longrightarrow> list_all is_digit s \<Longrightarrow> int (dec_val s) \<le> 2 ^ bits - 1 \<Longrightarrow>
   ParseUint s bits = (int (dec_val s), None)"
  unfolding ParseUint_def by (simp only: if_False simp_thms not_less [symmetric] HOL.not_not)

lemma ParseInt_digits:
  "s \<noteq> [] \<Longrightarrow> list_all is_digit s \<Longrightarrow> int (dec_val s) < 2 ^ (bits - 1) \<Longrightarrow>
   ParseInt s bits = (int (dec_val s), None)"
proof -
  assume s: "s \<noteq> []" "list_all is_digit s" and v: "int (dec_val s) < 2 ^ (bits - 1)"
  have "(2::int) ^ (bits - 1) \<le> 2 ^ bits" by (rule power_increasing) auto
  with v have "int (dec_val s) \<le> 2 ^ bits - 1" by linarith
  with s have "ParseUint s bits = (int (dec_val s), None)" by (intro ParseUint_digits)
  with s v is_digit_hd [of s] show ?thesis by (simp add: ParseInt_def Let_def)
qed

section \<open>Lists\<close>

text \<open>The first element that satisfies a predicate, as \<^verbatim>\<open>LIMIT 1\<close> over an ordered list.\<close>

lemma find_None_iff_not: "find P xs = None \<longleftrightarrow> (\<forall>x\<in>set xs. \<not> P x)"
  by (induction xs) auto

lemma find_Some_in: "find P xs = Some x \<Longrightarrow> x \<in> set xs \<and> P x"
  by (induction xs) (auto split: if_splits)

lemma count_list_map_filter:
  "count_list (map f (filter P xs)) y = length (filter (\<lambda>x. P x \<and> f x = y) xs)"
  by (induction xs) auto

lemma length_filter_split:
  "length (filter P xs) = length (filter (\<lambda>x. P x \<and> R x) xs) + length (filter (\<lambda>x. P x \<and> \<not> R x) xs)"
  by (induction xs) auto

end
