(* ===== verification/Tables.thy ===== *)
theory Tables
  imports Prelude
begin

text \<open>
  Tables with a primary key. \<open>keyed_table\<close> is the contract of a table: what a lookup returns
  after an insert, an update or a delete. \<open>rows_*\<close> are the operations of the model, on a list
  of rows; \<open>rows_keyed_table\<close> shows that they meet the contract for every key column.
\<close>

locale keyed_table =
  fixes key :: "'r \<Rightarrow> 'k"
    and invar :: "'t \<Rightarrow> bool"
    and lookup :: "'k \<Rightarrow> 't \<Rightarrow> 'r option"
    and insert :: "'r \<Rightarrow> 't \<Rightarrow> 't"
    and update :: "'k \<Rightarrow> ('r \<Rightarrow> 'r) \<Rightarrow> 't \<Rightarrow> 't"
    and delete :: "'k \<Rightarrow> 't \<Rightarrow> 't"
  assumes lookup_key: "lookup k t = Some r \<Longrightarrow> key r = k"
    and lookup_insert: "lookup (key r) t = None \<Longrightarrow>
      lookup k (insert r t) = (if k = key r then Some r else lookup k t)"
    and lookup_update: "(\<And>r. key (f r) = key r) \<Longrightarrow>
      lookup k (update k' f t) = (if k = k' then map_option f (lookup k t) else lookup k t)"
    and lookup_delete: "lookup k (delete k' t) = (if k = k' then None else lookup k t)"
    and invar_insert: "invar t \<Longrightarrow> lookup (key r) t = None \<Longrightarrow> invar (insert r t)"
    and invar_update: "invar t \<Longrightarrow> (\<And>r. key (f r) = key r) \<Longrightarrow> invar (update k f t)"
    and invar_delete: "invar t \<Longrightarrow> invar (delete k t)"
begin

lemma lookup_update_None:
  assumes "\<And>r. key (f r) = key r"
  shows "lookup k (update k' f t) = None \<longleftrightarrow> lookup k t = None"
  by (simp add: lookup_update [OF assms])

text \<open>A sequence of updates of one row each, and its effect on every row.\<close>

lemma lookup_updates:
  assumes "\<And>a r. key (f a r) = key r"
  shows "lookup k (fold (\<lambda>(k', a). update k' (f a)) kas t) =
    map_option (fold f (map snd (filter (\<lambda>(k', a). k' = k) kas))) (lookup k t)"
proof (induction kas arbitrary: t)
  case (Cons ka kas)
  obtain k' a where "ka = (k', a)" by force
  then show ?case
    using Cons by (simp add: lookup_update [OF assms] option.map_comp comp_def)
qed (simp add: option.map_id)

lemma invar_updates:
  assumes "\<And>a r. key (f a r) = key r" "invar t"
  shows "invar (fold (\<lambda>(k', a). update k' (f a)) kas t)"
  using assms(2) by (induction kas arbitrary: t) (auto intro: invar_update assms(1))

end

definition rows_find :: "('r \<Rightarrow> 'k) \<Rightarrow> 'k \<Rightarrow> 'r list \<Rightarrow> 'r option" where
  "rows_find key k t = find (\<lambda>r. key r = k) t"

definition rows_insert :: "'r \<Rightarrow> 'r list \<Rightarrow> 'r list" where
  "rows_insert r t = t @ [r]"

definition rows_update :: "('r \<Rightarrow> 'k) \<Rightarrow> 'k \<Rightarrow> ('r \<Rightarrow> 'r) \<Rightarrow> 'r list \<Rightarrow> 'r list" where
  "rows_update key k f t = map (\<lambda>r. if key r = k then f r else r) t"

definition rows_delete :: "('r \<Rightarrow> 'k) \<Rightarrow> 'k \<Rightarrow> 'r list \<Rightarrow> 'r list" where
  "rows_delete key k t = filter (\<lambda>r. key r \<noteq> k) t"

definition rows_unique :: "('r \<Rightarrow> 'k) \<Rightarrow> 'r list \<Rightarrow> bool" where
  "rows_unique key t \<longleftrightarrow> distinct (map key t)"

lemma rows_find_None: "rows_find key k t = None \<longleftrightarrow> k \<notin> key ` set t"
  by (auto simp: rows_find_def find_None_iff)

lemma rows_find_Some_in: "rows_find key k t = Some r \<Longrightarrow> r \<in> set t \<and> key r = k"
  by (auto simp: rows_find_def dest: find_Some_in)

lemma rows_find_unique:
  "rows_unique key t \<Longrightarrow> r \<in> set t \<Longrightarrow> rows_find key (key r) t = Some r"
  by (induction t) (auto simp: rows_unique_def rows_find_def)

lemma rows_find_eq:
  "rows_unique key t \<Longrightarrow> rows_find key k t = Some r \<longleftrightarrow> r \<in> set t \<and> key r = k"
  using rows_find_unique rows_find_Some_in by fastforce

lemma rows_update_key: "(\<And>r. key (f r) = key r) \<Longrightarrow> map key (rows_update key k f t) = map key t"
  by (simp add: rows_update_def)

lemma rows_keyed_table:
  "keyed_table key (rows_unique key) (rows_find key) rows_insert (rows_update key) (rows_delete key)"
proof (unfold_locales, goal_cases)
  case (1 k t r)
  then show ?case by (auto dest: rows_find_Some_in)
next
  case (2 r t k)
  then show ?case by (induction t) (auto simp: rows_find_def rows_insert_def)
next
  case (3 f k k' t)
  then show ?case by (induction t) (auto simp: rows_find_def rows_update_def)
next
  case (4 k k' t)
  then show ?case by (induction t) (auto simp: rows_find_def rows_delete_def)
next
  case (5 t r)
  then show ?case by (auto simp: rows_find_None rows_unique_def rows_insert_def)
next
  case (6 t f k)
  then show ?case by (simp add: rows_unique_def rows_update_key)
next
  case (7 t k)
  then show ?case by (simp add: rows_unique_def rows_delete_def distinct_map_filter)
qed

end
