(* ===== verification/Timestamps.thy ===== *)
theory Timestamps
  imports Prelude
begin

text \<open>
  Timestamps of \<^verbatim>\<open>internal/timerange/timerange.go\<close> and \<^verbatim>\<open>nsbounds.go\<close>: the struct,
  \<^verbatim>\<open>ParseTimestamp\<close>, \<^verbatim>\<open>String\<close>, the comparisons, \<^verbatim>\<open>next\<close>, \<^verbatim>\<open>nanos\<close> and
  \<^verbatim>\<open>TimestampFromDuration\<close>. The abstract value of a timestamp is a whole number of
  nanoseconds (\<open>ts_val\<close>). The lemmas show which strings parse and to what value, that
  printing is inverse to parsing, that the comparisons are those of the values, and that
  the conversion to \<open>int64\<close> nanoseconds never overflows on the way.
\<close>

definition nsPerSec :: int where
  "nsPerSec = 1000000000"

record Timestamp =
  Seconds :: int
  Nanoseconds :: int

definition validInt :: "string \<Rightarrow> bool" where
  "validInt s =
     (if s = [] then False
      else if s = ''0'' then True
      else if hd s < CHR ''1'' \<or> hd s > CHR ''9'' then False
      else list_all (\<lambda>c. \<not> (c < CHR ''0'' \<or> c > CHR ''9'')) (tl s))"

definition validNano :: "string \<Rightarrow> bool" where
  "validNano s =
     (if s = [] then False
      else if s = ''0'' then True
      else if hd s < CHR ''1'' \<or> hd s > CHR ''9'' then False
      else if length s > 9 then False
      else list_all (\<lambda>c. \<not> (c < CHR ''0'' \<or> c > CHR ''9'')) (tl s))"

definition bad_timestamp :: "string \<Rightarrow> string \<Rightarrow> go_error" where
  "bad_timestamp s why = Errorf [Lit ''invalid timestamp '', Q s, Lit why]"

definition ParseTimestamp :: "string \<Rightarrow> Timestamp res" where
  "ParseTimestamp s =
     (let neg = HasPrefix s ''-'';
          (secStr, nsStr, ok) = Cut (TrimPrefix s ''-'') CHR '':''
      in if \<not> ok then Err (bad_timestamp s '': expected seconds:nanoseconds'')
         else if \<not> validInt secStr then Err (bad_timestamp s '': bad seconds field'')
         else if \<not> validNano nsStr then Err (bad_timestamp s '': bad nanoseconds field'')
         else (case ParseUint secStr 64 of
             (_, Some _) \<Rightarrow> Err (bad_timestamp s '': seconds out of range'')
           | (mag, None) \<Rightarrow>
               let ns = fst (ParseInt nsStr 32);
                   outOfRange = bad_timestamp s '': seconds out of range''
               in if \<not> neg \<or> (mag = 0 \<and> ns = 0) then
                    if mag > MaxInt64 then Err outOfRange
                    else Ok \<lparr>Seconds = i64 mag, Nanoseconds = i32 ns\<rparr>
                  else if ns = 0 then
                    if mag > MaxInt64 + 1 then Err outOfRange
                    else Ok \<lparr>Seconds = i64 (- i64 (u64 (mag - 1)) - 1), Nanoseconds = 0\<rparr>
                  else
                    if mag > MaxInt64 then Err outOfRange
                    else Ok \<lparr>Seconds = i64 (- i64 mag - 1),
                             Nanoseconds = i32 (nsPerSec - ns)\<rparr>))"

definition Timestamp_String :: "Timestamp \<Rightarrow> string" where
  "Timestamp_String ts =
     (if Seconds ts \<ge> 0 then fmt_d (Seconds ts) @ '':'' @ fmt_d (Nanoseconds ts)
      else
        let magSec = u64 (i64 (- i64 (Seconds ts + 1)));
            magNs = i64 (nsPerSec - Nanoseconds ts);
            (magSec, magNs) =
              (if Nanoseconds ts = 0 then (u64 (magSec + 1), 0) else (magSec, magNs))
        in ''-'' @ fmt_d magSec @ '':'' @ fmt_d magNs)"

definition before :: "Timestamp \<Rightarrow> Timestamp \<Rightarrow> bool" where
  "before ts other_ts =
     (if Seconds ts \<noteq> Seconds other_ts then Seconds ts < Seconds other_ts
      else Nanoseconds ts < Nanoseconds other_ts)"

definition next_ts :: "Timestamp \<Rightarrow> Timestamp" where
  "next_ts ts =
     (if Nanoseconds ts < nsPerSec - 1
      then \<lparr>Seconds = Seconds ts, Nanoseconds = i32 (Nanoseconds ts + 1)\<rparr>
      else \<lparr>Seconds = i64 (Seconds ts + 1), Nanoseconds = 0\<rparr>)"

definition equal_ts :: "Timestamp \<Rightarrow> Timestamp \<Rightarrow> bool" where
  "equal_ts ts other_ts \<longleftrightarrow>
     Seconds ts = Seconds other_ts \<and> Nanoseconds ts = Nanoseconds other_ts"

text \<open>\<^verbatim>\<open>nanos\<close> returns the value and whether it fits.\<close>

definition nanos :: "Timestamp \<Rightarrow> int \<times> bool" where
  "nanos ts =
     (let (s, ns) = (Seconds ts, Nanoseconds ts);
          (s, ns) = (if s < 0 \<and> ns > 0 then (i64 (s + 1), i64 (ns - nsPerSec)) else (s, ns))
      in if s > MaxInt64 sdiv nsPerSec \<or> s < MinInt64 sdiv nsPerSec then (0, False)
         else
           let v = i64 (s * nsPerSec)
           in if (ns > 0 \<and> v > i64 (MaxInt64 - ns)) \<or> (ns < 0 \<and> v < i64 (MinInt64 - ns))
              then (0, False)
              else (i64 (v + ns), True))"

definition TimestampFromDuration :: "int \<Rightarrow> Timestamp" where
  "TimestampFromDuration d =
     (let (s, ns) = (d sdiv nsPerSec, d smod nsPerSec);
          (s, ns) = (if ns < 0 then (i64 (s - 1), i64 (ns + nsPerSec)) else (s, ns))
      in \<lparr>Seconds = s, Nanoseconds = i32 ns\<rparr>)"

section \<open>The value of a timestamp\<close>

definition wf_ts :: "Timestamp \<Rightarrow> bool" where
  "wf_ts ts \<longleftrightarrow> in_i64 (Seconds ts) \<and> 0 \<le> Nanoseconds ts \<and> Nanoseconds ts < nsPerSec"

definition ts_val :: "Timestamp \<Rightarrow> int" where
  "ts_val ts = Seconds ts * nsPerSec + Nanoseconds ts"

lemmas ts_defs = wf_ts_def ts_val_def nsPerSec_def in_i64_def MaxInt64_def MinInt64_def

lemma ts_val_div_mod:
  "wf_ts ts \<Longrightarrow> ts_val ts div nsPerSec = Seconds ts \<and> ts_val ts mod nsPerSec = Nanoseconds ts"
  by (auto simp: wf_ts_def ts_val_def nsPerSec_def)

lemma ts_val_inject: "wf_ts a \<Longrightarrow> wf_ts b \<Longrightarrow> ts_val a = ts_val b \<longleftrightarrow> a = b"
  using ts_val_div_mod [of a] ts_val_div_mod [of b] by auto

lemma before_iff: "wf_ts a \<Longrightarrow> wf_ts b \<Longrightarrow> before a b \<longleftrightarrow> ts_val a < ts_val b"
  by (auto simp: before_def ts_defs)

lemma equal_ts_iff: "equal_ts a b \<longleftrightarrow> a = b"
  by (auto simp: equal_ts_def)

lemma equal_ts_val: "wf_ts a \<Longrightarrow> wf_ts b \<Longrightarrow> equal_ts a b \<longleftrightarrow> ts_val a = ts_val b"
  by (simp add: equal_ts_iff ts_val_inject)

lemma next_ts_val:
  assumes "wf_ts a" "wf_ts b" "before a b"
  shows "wf_ts (next_ts a)" "ts_val (next_ts a) = ts_val a + 1"
proof -
  have s: "Seconds a + 1 \<le> MaxInt64" if "\<not> Nanoseconds a < nsPerSec - 1"
    using assms that by (auto simp: before_def ts_defs split: if_splits)
  have i: "i64 (Seconds a + 1) = Seconds a + 1" if "\<not> Nanoseconds a < nsPerSec - 1"
    using s [OF that] assms(1) by (intro i64_id) (auto simp: ts_defs)
  show "wf_ts (next_ts a)" "ts_val (next_ts a) = ts_val a + 1"
    using assms s i
    by (auto simp: next_ts_def wf_ts_def ts_val_def in_i64_def i32_id nsPerSec_def)
qed

section \<open>Parsing and printing\<close>

lemma digit_bounds: "\<not> (c < CHR ''0'' \<or> c > CHR ''9'') \<longleftrightarrow> is_digit c"
  by (auto simp: is_digit_def)

lemma lead_digit: "\<not> (c < CHR ''1'' \<or> c > CHR ''9'') \<longleftrightarrow> is_digit c \<and> c \<noteq> CHR ''0''"
proof -
  have "c = CHR ''0'' \<longleftrightarrow> (of_char c :: nat) = 48"
    using of_char_eq_iff [of c "CHR ''0''", where 'a = nat] by simp
  then show ?thesis by (auto simp: is_digit_def less_char_def less_eq_char_def)
qed

lemma dec_dec_val:
  "list_all is_digit s \<Longrightarrow> s \<noteq> [] \<Longrightarrow> hd s \<noteq> CHR ''0'' \<Longrightarrow> dec (dec_val s) = s \<and> 0 < dec_val s"
proof (induction s rule: rev_induct)
  case (snoc c s)
  show ?case
  proof (cases "s = []")
    case True
    with snoc.prems have d: "is_digit c" "c \<noteq> CHR ''0''" by auto
    then have "digit_val c \<noteq> 0" by (metis digit_char_props(3) digit_char_val zero_less_numeral)
    moreover have "dec_val [c] = digit_val c" using dec_val_snoc [of "[]" c] by simp
    ultimately show ?thesis
      using d True digit_val_less [of c] by (simp add: dec.simps [of "digit_val c"] digit_char_val)
  next
    case False
    with snoc have IH: "dec (dec_val s) = s" "0 < dec_val s" by auto
    from snoc.prems have d: "is_digit c" by auto
    have "(10 * dec_val s + digit_val c) div 10 = dec_val s"
      and "(10 * dec_val s + digit_val c) mod 10 = digit_val c"
      using digit_val_less [OF d] by auto
    with IH d show ?thesis
      by (simp add: dec.simps [of "10 * dec_val s + digit_val c"] digit_char_val)
  qed
qed simp

lemma validInt_iff: "validInt s \<longleftrightarrow> (\<exists>n. s = dec n)"
proof
  assume v: "validInt s"
  show "\<exists>n. s = dec n"
  proof (cases "s = ''0''")
    case True
    then show ?thesis using dec_0 by metis
  next
    case False
    with v have "s \<noteq> []" "is_digit (hd s) \<and> hd s \<noteq> CHR ''0''" "list_all is_digit (tl s)"
      unfolding validInt_def digit_bounds by (metis lead_digit)+
    then have "dec (dec_val s) = s" using dec_dec_val [of s] by (cases s) auto
    then show ?thesis by metis
  qed
next
  assume "\<exists>n. s = dec n"
  then obtain n where n: "s = dec n" by blast
  show "validInt s"
  proof (cases "n = 0")
    case False
    then have "hd s \<noteq> CHR ''0''" "list_all is_digit s" "s \<noteq> []"
      using n dec_hd_nonzero dec_digits by auto
    then have "\<not> (hd s < CHR ''1'' \<or> hd s > CHR ''9'')" "list_all is_digit (tl s)"
      unfolding lead_digit by (cases s; auto)+
    with \<open>s \<noteq> []\<close> show ?thesis unfolding validInt_def digit_bounds by simp
  qed (simp add: n dec_0 validInt_def)
qed

lemma dec_less_pow: "length (dec n) \<le> k \<Longrightarrow> n < 10 ^ k"
proof (induction k arbitrary: n)
  case (Suc k)
  show ?case
  proof (cases "n < 10")
    case True
    then show ?thesis by (simp add: less_le_trans [of n 10])
  next
    case False
    with Suc.prems have "length (dec (n div 10)) \<le> k" by (simp add: dec.simps [of n])
    then have "n div 10 < 10 ^ k" by (rule Suc.IH)
    then show ?thesis by (simp add: div_less_iff_less_mult mult.commute)
  qed
qed simp

lemma validNano_iff: "validNano s \<longleftrightarrow> (\<exists>n. n < 1000000000 \<and> s = dec n)"
proof -
  have "validNano s \<longleftrightarrow> validInt s \<and> length s \<le> 9"
    by (auto simp: validNano_def validInt_def)
  also have "\<dots> \<longleftrightarrow> (\<exists>n. n < 1000000000 \<and> s = dec n)"
    using dec_less_pow [of _ 9] dec_length [of _ 8] by (auto simp: validInt_iff)
  finally show ?thesis .
qed

lemma ParseUint_dec: "ParseUint (dec n) 64 =
   (if int n \<le> 18446744073709551615 then (int n, None) else (18446744073709551615, Some ErrRange))"
  by (auto simp: ParseUint_def dec_digits)

lemma ParseInt_dec: "n < 1000000000 \<Longrightarrow> ParseInt (dec n) 32 = (int n, None)"
  by (subst ParseInt_digits) (auto simp: dec_digits)

text \<open>The strings that denote a number of seconds and nanoseconds, with an optional sign.\<close>

definition ts_text :: "bool \<Rightarrow> nat \<Rightarrow> nat \<Rightarrow> string" where
  "ts_text neg n m = (if neg then ''-'' else []) @ dec n @ '':'' @ dec m"

definition ts_text_val :: "bool \<Rightarrow> nat \<Rightarrow> nat \<Rightarrow> int" where
  "ts_text_val neg n m =
     (if neg then - (int n * nsPerSec + int m) else int n * nsPerSec + int m)"

lemma ts_text_split:
  "HasPrefix (ts_text neg n m) ''-'' = neg"
  "Cut (TrimPrefix (ts_text neg n m) ''-'') CHR '':'' = (dec n, dec m, True)"
proof -
  have h: "hd (dec n) \<noteq> CHR ''-''" "CHR '':'' \<notin> set (dec n)"
    using is_digit_hd [of "dec n"] not_in_digits [OF dec_digits] dec_digits by auto
  then have n: "take 1 (dec n @ r) \<noteq> ''-''" for r by (cases "dec n") auto
  then show "HasPrefix (ts_text neg n m) ''-'' = neg"
    by (auto simp: HasPrefix_def ts_text_def)
  then have "TrimPrefix (ts_text neg n m) ''-'' = dec n @ CHR '':'' # dec m"
    by (auto simp: TrimPrefix_def ts_text_def)
  then show "Cut (TrimPrefix (ts_text neg n m) ''-'') CHR '':'' = (dec n, dec m, True)"
    using h(2) by (simp add: Cut_append)
qed

lemma ParseTimestamp_text:
  assumes m: "m < 1000000000"
  shows "ParseTimestamp (ts_text neg n m) =
    (if in_i64 (ts_text_val neg n m div nsPerSec)
     then Ok \<lparr>Seconds = ts_text_val neg n m div nsPerSec,
              Nanoseconds = ts_text_val neg n m mod nsPerSec\<rparr>
     else Err (bad_timestamp (ts_text neg n m) '': seconds out of range''))"
proof -
  have v: "validInt (dec n)" "validNano (dec m)"
    using m by (auto simp: validInt_iff validNano_iff)
  have neg_div: "(- (int n * 1000000000) - int m) div 1000000000
      = (if m = 0 then - int n else - int n - 1)"
    "(- (int n * 1000000000) - int m) mod 1000000000 = (if m = 0 then 0 else 1000000000 - int m)"
    using m
      int_div_pos_eq [of "- (int n * 1000000000) - int m" 1000000000 "- int n - 1" "1000000000 - int m"]
      int_mod_pos_eq [of "- (int n * 1000000000) - int m" 1000000000 "- int n - 1" "1000000000 - int m"]
    by auto
  have pos_div: "(int n * 1000000000 + int m) div 1000000000 = int n"
    "(int n * 1000000000 + int m) mod 1000000000 = int m"
    using m by auto
  note widths = in_i64_def MaxInt64_def MinInt64_def i64_def i32_def u64_def
  show ?thesis
    unfolding ParseTimestamp_def Let_def ts_text_split prod.case
    using m by (cases neg)
      (auto simp: v ParseUint_dec ParseInt_dec ts_text_val_def nsPerSec_def neg_div pos_div widths)
qed

lemma ParseTimestamp_is_text:
  assumes "ParseTimestamp s = Ok ts"
  obtains neg n m where "m < 1000000000" "s = ts_text neg n m"
proof -
  obtain a b ok where c: "Cut (TrimPrefix s ''-'') CHR '':'' = (a, b, ok)"
    by (metis prod_cases3)
  with assms have ok: "ok" "validInt a" "validNano b"
    by (auto simp: ParseTimestamp_def Let_def split: if_splits)
  then obtain n m where nm: "a = dec n" "b = dec m" "m < 1000000000"
    by (auto simp: validInt_iff validNano_iff)
  from c ok(1) have t: "TrimPrefix s ''-'' = a @ CHR '':'' # b"
    by (auto dest: Cut_found)
  have "s = (if HasPrefix s ''-'' then ''-'' else []) @ TrimPrefix s ''-''"
    by (cases s) (auto simp: TrimPrefix_def HasPrefix_def)
  with t nm have "s = ts_text (HasPrefix s ''-'') n m" by (simp add: ts_text_def)
  with nm(3) show thesis by (rule that)
qed

lemma wf_ts_split: "wf_ts \<lparr>Seconds = x div nsPerSec, Nanoseconds = x mod nsPerSec\<rparr> \<longleftrightarrow> in_i64 (x div nsPerSec)"
  by (auto simp: wf_ts_def nsPerSec_def)

lemma ts_val_split: "ts_val \<lparr>Seconds = x div nsPerSec, Nanoseconds = x mod nsPerSec\<rparr> = x"
  by (simp add: ts_val_def)

lemma ParseTimestamp_iff:
  "ParseTimestamp s = Ok ts \<longleftrightarrow>
   wf_ts ts \<and> (\<exists>neg n m. m < 1000000000 \<and> s = ts_text neg n m \<and> ts_val ts = ts_text_val neg n m)"
proof
  assume p: "ParseTimestamp s = Ok ts"
  then obtain neg n m where m: "m < 1000000000" "s = ts_text neg n m"
    by (rule ParseTimestamp_is_text)
  with p have "wf_ts ts \<and> ts_val ts = ts_text_val neg n m"
    by (auto simp: ParseTimestamp_text wf_ts_split ts_val_split split: if_splits)
  with m show "wf_ts ts \<and> (\<exists>neg n m. m < 1000000000 \<and> s = ts_text neg n m \<and> ts_val ts = ts_text_val neg n m)"
    by blast
next
  assume "wf_ts ts \<and> (\<exists>neg n m. m < 1000000000 \<and> s = ts_text neg n m \<and> ts_val ts = ts_text_val neg n m)"
  then obtain neg n m where w: "wf_ts ts" and m: "m < 1000000000" "s = ts_text neg n m"
    and v: "ts_val ts = ts_text_val neg n m" by blast
  from w v have "Seconds ts = ts_text_val neg n m div nsPerSec"
    "Nanoseconds ts = ts_text_val neg n m mod nsPerSec"
    using ts_val_div_mod [of ts] by auto
  with w m show "ParseTimestamp s = Ok ts"
    by (auto simp: ParseTimestamp_text wf_ts_def)
qed

lemma ParseTimestamp_wf: "ParseTimestamp s = Ok ts \<Longrightarrow> wf_ts ts"
  by (simp add: ParseTimestamp_iff)

lemma ParseTimestamp_no_panic: "ParseTimestamp s \<noteq> Panic p"
  by (auto simp: ParseTimestamp_def Let_def split: prod.splits option.splits if_splits)

lemma Timestamp_String_text:
  assumes w: "wf_ts ts"
  obtains neg n m where "m < 1000000000" "Timestamp_String ts = ts_text neg n m"
    "ts_val ts = ts_text_val neg n m"
proof (cases "Seconds ts \<ge> 0")
  case True
  then show ?thesis
    using w by (intro that [of "nat (Nanoseconds ts)" False "nat (Seconds ts)"])
      (auto simp: Timestamp_String_def fmt_d_def ts_text_def ts_text_val_def ts_defs)
next
  case False
  then have i: "i64 (Seconds ts + 1) = Seconds ts + 1" "i64 (- (Seconds ts + 1)) = - (Seconds ts + 1)"
    "u64 (- (Seconds ts + 1)) = - (Seconds ts + 1)" "u64 (- Seconds ts) = - Seconds ts"
    "i64 (nsPerSec - Nanoseconds ts) = nsPerSec - Nanoseconds ts"
    using w by (auto simp: ts_defs intro!: i64_id u64_id)
  show ?thesis
  proof (cases "Nanoseconds ts = 0")
    case True
    with False w i show ?thesis
      by (intro that [of 0 True "nat (- Seconds ts)"])
        (auto simp: Timestamp_String_def fmt_d_def ts_text_def ts_text_val_def ts_val_def dec_0)
  next
    case ns: False
    with False w i show ?thesis
      by (intro that [of "nat (nsPerSec - Nanoseconds ts)" True "nat (- (Seconds ts + 1))"])
        (auto simp: Timestamp_String_def fmt_d_def ts_text_def ts_text_val_def ts_defs)
  qed
qed

lemma ParseTimestamp_String: "wf_ts ts \<Longrightarrow> ParseTimestamp (Timestamp_String ts) = Ok ts"
  by (metis ParseTimestamp_iff Timestamp_String_text)

text \<open>The printed form uses digits, the sign and the colon only.\<close>

lemma Timestamp_String_chars:
  assumes "wf_ts ts" "c \<in> set (Timestamp_String ts)"
  shows "is_digit c \<or> c = CHR ''-'' \<or> c = CHR '':''"
proof -
  obtain neg n m where "Timestamp_String ts = ts_text neg n m"
    using Timestamp_String_text [OF assms(1)] by blast
  with assms(2) dec_digits [of n] dec_digits [of m] show ?thesis
    by (auto simp: ts_text_def list_all_iff split: if_splits)
qed

lemma Timestamp_String_not_Nil: "wf_ts ts \<Longrightarrow> Timestamp_String ts \<noteq> []"
  by (auto simp: Timestamp_String_def Let_def split: if_splits prod.splits)

section \<open>Conversion to int64 nanoseconds\<close>

lemma nanos_spec:
  assumes w: "wf_ts ts"
  shows "nanos ts = (if in_i64 (ts_val ts) then (ts_val ts, True) else (0, False))"
proof -
  have c: "MaxInt64 sdiv nsPerSec = 9223372036" "MinInt64 sdiv nsPerSec = - 9223372036"
    by (simp_all add: MaxInt64_def MinInt64_def nsPerSec_def signed_divide_int_def)
  show ?thesis
  proof (cases "Seconds ts < 0 \<and> Nanoseconds ts > 0")
    case True
    then have i: "i64 (Seconds ts + 1) = Seconds ts + 1"
      "i64 (Nanoseconds ts - nsPerSec) = Nanoseconds ts - nsPerSec"
      using w by (auto simp: ts_defs intro!: i64_id)
    show ?thesis
      using w True unfolding nanos_def Let_def c
      by (auto simp: i ts_defs i64_def)
  next
    case False
    then show ?thesis
      using w unfolding nanos_def Let_def c
      by (auto simp: ts_defs i64_def)
  qed
qed

lemma sdivmod_nsPerSec:
  fixes d :: int
  assumes "in_i64 d"
  shows "d = d sdiv nsPerSec * nsPerSec + d smod nsPerSec" "\<bar>d smod nsPerSec\<bar> < nsPerSec"
    "\<bar>d sdiv nsPerSec\<bar> \<le> 9223372036"
proof -
  have sd: "d sdiv nsPerSec = sgn d * (\<bar>d\<bar> div nsPerSec)"
    by (simp add: signed_divide_int_def nsPerSec_def)
  have sm: "d smod nsPerSec = sgn d * (\<bar>d\<bar> mod nsPerSec)"
    by (simp add: signed_modulo_int_def nsPerSec_def)
  have "d = sgn d * (\<bar>d\<bar> div nsPerSec * nsPerSec + \<bar>d\<bar> mod nsPerSec)"
    by (simp only: div_mult_mod_eq sgn_mult_abs)
  then show "d = d sdiv nsPerSec * nsPerSec + d smod nsPerSec"
    unfolding sd sm by (simp only: distrib_left mult.assoc)
  show "\<bar>d smod nsPerSec\<bar> < nsPerSec"
    unfolding sm by (auto simp: sgn_if nsPerSec_def)
  have "\<bar>d\<bar> div nsPerSec \<le> 9223372036854775808 div nsPerSec"
    using assms by (intro zdiv_mono1) (auto simp: ts_defs)
  moreover have "0 \<le> \<bar>d\<bar> div nsPerSec" by (simp add: nsPerSec_def pos_imp_zdiv_nonneg_iff)
  ultimately show "\<bar>d sdiv nsPerSec\<bar> \<le> 9223372036"
    unfolding sd by (auto simp: sgn_if nsPerSec_def)
qed

lemma TimestampFromDuration_spec:
  assumes "in_i64 d"
  shows "wf_ts (TimestampFromDuration d)" "ts_val (TimestampFromDuration d) = d"
proof -
  obtain s n where sn: "s = d sdiv nsPerSec" "n = d smod nsPerSec" by blast
  have d: "d = s * nsPerSec + n" "\<bar>n\<bar> < nsPerSec" "\<bar>s\<bar> \<le> 9223372036"
    using sdivmod_nsPerSec [OF assms] sn by auto
  have i: "i64 (s - 1) = s - 1" "i64 (n + nsPerSec) = n + nsPerSec"
    using d by (auto simp: ts_defs intro!: i64_id)
  show "wf_ts (TimestampFromDuration d)" "ts_val (TimestampFromDuration d) = d"
    using d i unfolding TimestampFromDuration_def sn [symmetric]
    by (auto simp: ts_defs i32_def)
qed

section \<open>Properties\<close>

text \<open>C37: \<^verbatim>\<open>ParseTimestamp\<close> accepts exactly the texts of the grammar, an optional minus sign and two
  decimal numbers without leading zeros around a colon, the second below one thousand million, whose value
  splits into seconds that fit an int64; the result is the normalised pair of that value.\<close>

theorem parse_timestamp_exact:
  "ParseTimestamp s = Ok ts \<longleftrightarrow>
     (\<exists>neg n m. s = ts_text neg n m \<and> m < 1000000000 \<and> ts_val ts = ts_text_val neg n m \<and> wf_ts ts)"
  using ParseTimestamp_iff by blast

text \<open>Printing and parsing a normalised timestamp returns it.\<close>

theorem timestamp_round_trip:
  assumes "wf_ts ts"
  shows "ParseTimestamp (Timestamp_String ts) = Ok ts"
  using assms by (rule ParseTimestamp_String)

theorem timestamp_round_trip_witness:
  "ParseTimestamp (Timestamp_String \<lparr>Seconds = -2, Nanoseconds = 500000000\<rparr>) =
     Ok \<lparr>Seconds = -2, Nanoseconds = 500000000\<rparr>"
  by (rule timestamp_round_trip) (simp add: wf_ts_def nsPerSec_def in_i64_def MinInt64_def MaxInt64_def)

end
