(* ===== verification/Timeranges.thy ===== *)
theory Timeranges
  imports Timestamps
begin

text \<open>
  Time ranges of \<^verbatim>\<open>internal/timerange/timerange.go\<close>: \<^verbatim>\<open>Parse\<close>, \<^verbatim>\<open>String\<close>,
  \<^verbatim>\<open>IsEmpty\<close>, \<^verbatim>\<open>IsEternity\<close>, \<^verbatim>\<open>Contains\<close>, \<^verbatim>\<open>Intersect\<close> and \<^verbatim>\<open>Overlaps\<close>.
  The abstract value of a range is the set of its instants, whole nanoseconds on the
  integer line (\<open>instants\<close>). The lemmas show that every parsed range is well formed,
  that the operations compute on the sets, that no well-formed range makes the code read
  through a nil pointer or reach the \<^verbatim>\<open>panic\<close> of \<^verbatim>\<open>String\<close>, and the round trip.
\<close>

datatype BoundType = Inclusive | Exclusive | Unbounded

text \<open>The constants are numbered by \<^verbatim>\<open>iota\<close>; their order is the order of the numbers.\<close>

fun iota :: "BoundType \<Rightarrow> nat" where
  "iota Inclusive = 0" | "iota Exclusive = 1" | "iota Unbounded = 2"

instantiation BoundType :: linorder
begin

definition less_eq_BoundType :: "BoundType \<Rightarrow> BoundType \<Rightarrow> bool" where
  "less_eq_BoundType a b \<longleftrightarrow> iota a \<le> iota b"

definition less_BoundType :: "BoundType \<Rightarrow> BoundType \<Rightarrow> bool" where
  "less_BoundType a b \<longleftrightarrow> iota a < iota b"

instance
proof
  fix a b :: BoundType
  assume "a \<le> b" "b \<le> a"
  then show "a = b" by (cases a; cases b) (auto simp: less_eq_BoundType_def)
qed (auto simp: less_eq_BoundType_def less_BoundType_def)

end

record TimeRange =
  Start :: "Timestamp option"
  StartType :: BoundType
  End :: "Timestamp option"
  EndType :: BoundType

definition emptyRange :: TimeRange where
  "emptyRange = \<lparr>Start = None, StartType = Exclusive, End = None, EndType = Exclusive\<rparr>"

definition zeroRange :: TimeRange where
  "zeroRange = \<lparr>Start = None, StartType = Inclusive, End = None, EndType = Inclusive\<rparr>"

definition bad_timerange :: "string \<Rightarrow> go_error \<Rightarrow> go_error" where
  "bad_timerange s e = Errorf [Lit ''invalid timerange '', Q s, Lit '': '', W e]"

text \<open>\<^verbatim>\<open>Parse\<close>: the optional markers come off both ends, then the body is cut at its separator.\<close>

definition strip_markers :: "string \<Rightarrow> char option \<times> char option \<times> string" where
  "strip_markers s =
     (let (startMarker, body) =
            (if s \<noteq> [] \<and> (hd s = CHR ''['' \<or> hd s = CHR ''('') then (Some (hd s), tl s) else (None, s));
          (endMarker, body) =
            (if body \<noteq> [] \<and> (last body = CHR '']'' \<or> last body = CHR '')'')
             then (Some (last body), butlast body) else (None, body))
      in (startMarker, endMarker, body))"

definition parse_instant ::
    "string \<Rightarrow> char option \<Rightarrow> char option \<Rightarrow> string \<Rightarrow> TimeRange res" where
  "parse_instant s startMarker endMarker startStr =
     (if startStr = [] then Ok emptyRange
      else if startMarker = Some CHR ''('' \<or> endMarker = Some CHR '')'' then
        Err (Errorf [Lit ''invalid timerange '', Q s,
          Lit '': an instantaneous range cannot use exclusive markers''])
      else rbind (rwrap (bad_timerange s) (ParseTimestamp startStr)) (\<lambda>ts.
        Ok \<lparr>Start = Some ts, StartType = Inclusive, End = Some ts, EndType = Inclusive\<rparr>))"

definition parse_bound :: "string \<Rightarrow> bool \<Rightarrow> string \<Rightarrow> (Timestamp option \<times> BoundType) res" where
  "parse_bound s exclusive str =
     (if str \<noteq> [] then
        rbind (rwrap (bad_timerange s) (ParseTimestamp str)) (\<lambda>ts.
          Ok (Some ts, if exclusive then Exclusive else Inclusive))
      else Ok (None, Unbounded))"

definition Parse :: "string \<Rightarrow> TimeRange res" where
  "Parse s =
     (if s = [] then Err (Errorf [Lit ''invalid timerange '', Q s, Lit '': empty string''])
      else
        let (startMarker, endMarker, body) = strip_markers s;
            (startStr, endStr, hasSep) = Cut body CHR ''_''
        in if \<not> hasSep then parse_instant s startMarker endMarker startStr
           else
             rbind (parse_bound s (startMarker = Some CHR ''('') startStr) (\<lambda>(start, startType).
             rbind (parse_bound s (endMarker = Some CHR '')'') endStr) (\<lambda>(end, endType).
               Ok \<lparr>Start = start, StartType = startType, End = end, EndType = endType\<rparr>)))"

definition IsEmpty :: "TimeRange \<Rightarrow> bool" where
  "IsEmpty tr =
     (case (Start tr, End tr) of
        (None, None) \<Rightarrow> StartType tr \<noteq> Unbounded \<or> EndType tr \<noteq> Unbounded
      | (None, Some _) \<Rightarrow> False
      | (Some _, None) \<Rightarrow> False
      | (Some s, Some e) \<Rightarrow>
          if before e s then True
          else if equal_ts s e then StartType tr = Exclusive \<or> EndType tr = Exclusive
          else if StartType tr = Exclusive \<and> EndType tr = Exclusive then equal_ts e (next_ts s)
          else False)"

definition IsEternity :: "TimeRange \<Rightarrow> bool" where
  "IsEternity tr \<longleftrightarrow> StartType tr = Unbounded \<and> EndType tr = Unbounded"

definition TimeRange_String :: "TimeRange \<Rightarrow> string res" where
  "TimeRange_String tr =
     (if IsEmpty tr then Ok ''()''
      else if IsEternity tr then Ok ''_''
      else if (Start tr = None) \<noteq> (StartType tr = Unbounded) \<or>
              (End tr = None) \<noteq> (EndType tr = Unbounded)
        then Panic ''timerange: malformed TimeRange: a nil bound must be Unbounded''
      else if Start tr \<noteq> None \<and> End tr \<noteq> None \<and> equal_ts (the (Start tr)) (the (End tr))
        then Ok (''['' @ Timestamp_String (the (Start tr)) @ '']'')
      else Ok ((case Start tr of
                  None \<Rightarrow> []
                | Some s \<Rightarrow> (if StartType tr = Exclusive then ''('' else ''['') @ Timestamp_String s)
               @ ''_'' @
               (case End tr of
                  None \<Rightarrow> []
                | Some e \<Rightarrow> Timestamp_String e @ (if EndType tr = Exclusive then '')'' else '']''))))"

definition Contains :: "TimeRange \<Rightarrow> Timestamp \<Rightarrow> bool" where
  "Contains tr ts =
     (if IsEmpty tr then False
      else if IsEternity tr then True
      else
        (case Start tr of
           None \<Rightarrow> True
         | Some s \<Rightarrow>
             (case StartType tr of
                Inclusive \<Rightarrow> \<not> before ts s
              | Exclusive \<Rightarrow> \<not> (before ts s \<or> equal_ts ts s)
              | Unbounded \<Rightarrow> True))
        \<and>
        (case End tr of
           None \<Rightarrow> True
         | Some e \<Rightarrow>
             (case EndType tr of
                Inclusive \<Rightarrow> \<not> before e ts
              | Exclusive \<Rightarrow> \<not> (before e ts \<or> equal_ts e ts)
              | Unbounded \<Rightarrow> True)))"

text \<open>
  The two \<^verbatim>\<open>switch\<close> statements of \<^verbatim>\<open>Intersect\<close>. The comparisons read through the
  pointers, which panics on nil.
\<close>

definition later_start ::
  "TimeRange \<Rightarrow> TimeRange \<Rightarrow> (Timestamp option \<times> BoundType) res" where
  "later_start a b =
     (if StartType a = Unbounded then Ok (Start b, StartType b)
      else if StartType b = Unbounded then Ok (Start a, StartType a)
      else rbind (deref (Start a)) (\<lambda>sa. rbind (deref (Start b)) (\<lambda>sb.
        if before sa sb then Ok (Start b, StartType b)
        else if before sb sa then Ok (Start a, StartType a)
        else Ok (Start a,
                 if StartType a = Exclusive \<or> StartType b = Exclusive then Exclusive
                 else Inclusive))))"

definition earlier_end ::
  "TimeRange \<Rightarrow> TimeRange \<Rightarrow> (Timestamp option \<times> BoundType) res" where
  "earlier_end a b =
     (if EndType a = Unbounded then Ok (End b, EndType b)
      else if EndType b = Unbounded then Ok (End a, EndType a)
      else rbind (deref (End b)) (\<lambda>eb. rbind (deref (End a)) (\<lambda>ea.
        if before eb ea then Ok (End b, EndType b)
        else if before ea eb then Ok (End a, EndType a)
        else Ok (End a,
                 if EndType a = Exclusive \<or> EndType b = Exclusive then Exclusive
                 else Inclusive))))"

definition Intersect :: "TimeRange \<Rightarrow> TimeRange \<Rightarrow> TimeRange res" where
  "Intersect a b =
     (if IsEmpty a \<or> IsEmpty b then Ok emptyRange
      else if IsEternity a then Ok b
      else if IsEternity b then Ok a
      else rbind (later_start a b) (\<lambda>(start, startType).
           rbind (earlier_end a b) (\<lambda>(end, endType).
             let result = \<lparr>Start = start, StartType = startType, End = end, EndType = endType\<rparr>
             in if IsEmpty result then Ok emptyRange
                else
                  (case (start, end) of
                     (Some s, Some e) \<Rightarrow>
                       if before e s then Ok emptyRange
                       else if equal_ts e s \<and> (startType = Exclusive \<or> endType = Exclusive)
                       then Ok emptyRange
                       else Ok result
                   | _ \<Rightarrow> Ok result))))"

definition Overlaps :: "TimeRange \<Rightarrow> TimeRange \<Rightarrow> bool res" where
  "Overlaps tr other_tr = rbind (Intersect tr other_tr) (\<lambda>r. Ok (\<not> IsEmpty r))"

section \<open>The instants of a range\<close>

definition lower_ok :: "Timestamp option \<Rightarrow> BoundType \<Rightarrow> int \<Rightarrow> bool" where
  "lower_ok p b n \<longleftrightarrow> (case p of None \<Rightarrow> True | Some s \<Rightarrow> if b = Exclusive then ts_val s < n else ts_val s \<le> n)"

definition upper_ok :: "Timestamp option \<Rightarrow> BoundType \<Rightarrow> int \<Rightarrow> bool" where
  "upper_ok p b n \<longleftrightarrow> (case p of None \<Rightarrow> True | Some e \<Rightarrow> if b = Exclusive then n < ts_val e else n \<le> ts_val e)"

definition instants :: "TimeRange \<Rightarrow> int set" where
  "instants tr =
     (if Start tr = None \<and> End tr = None \<and> \<not> (StartType tr = Unbounded \<and> EndType tr = Unbounded)
      then {}
      else {n. lower_ok (Start tr) (StartType tr) n \<and> upper_ok (End tr) (EndType tr) n})"

text \<open>
  A well-formed range has a bound exactly where its type is not \<open>Unbounded\<close>, or has no
  bound at all and no \<open>Unbounded\<close> type: the two ways the code writes the empty range,
  \<^verbatim>\<open>()\<close> and the zero value of the struct.
\<close>

definition wf_tr :: "TimeRange \<Rightarrow> bool" where
  "wf_tr tr \<longleftrightarrow>
     (case Start tr of None \<Rightarrow> True | Some s \<Rightarrow> wf_ts s) \<and>
     (case End tr of None \<Rightarrow> True | Some e \<Rightarrow> wf_ts e) \<and>
     ((Start tr = None \<longleftrightarrow> StartType tr = Unbounded) \<and> (End tr = None \<longleftrightarrow> EndType tr = Unbounded)
      \<or> Start tr = None \<and> End tr = None \<and> StartType tr \<noteq> Unbounded \<and> EndType tr \<noteq> Unbounded)"

lemma wf_emptyRange [simp]: "wf_tr emptyRange" "instants emptyRange = {}" "IsEmpty emptyRange"
  by (simp_all add: wf_tr_def emptyRange_def instants_def IsEmpty_def)

lemma wf_zeroRange [simp]: "wf_tr zeroRange" "instants zeroRange = {}" "IsEmpty zeroRange"
  by (simp_all add: wf_tr_def zeroRange_def instants_def IsEmpty_def)

lemma bounds_meet_iff:
  fixes s e :: int
  shows "(\<exists>n. (if bs then s < n else s \<le> n) \<and> (if be then n < e else n \<le> e)) \<longleftrightarrow>
    (if e < s then False else if s = e then \<not> bs \<and> \<not> be else if bs \<and> be then e \<noteq> s + 1 else True)"
proof -
  consider "e < s" | "s = e" | "s < e" by linarith
  then show ?thesis
  proof cases
    case 3
    have "\<exists>n. s < n \<and> n < e" if "e \<noteq> s + 1" using that 3 by (intro exI [of _ "s + 1"]) auto
    then show ?thesis using 3 by (cases bs; cases be) (auto intro: exI [of _ s] exI [of _ e])
  qed auto
qed

lemma IsEmpty_iff:
  assumes "wf_tr tr"
  shows "IsEmpty tr \<longleftrightarrow> instants tr = {}"
proof (cases "Start tr"; cases "End tr")
  fix s e assume se: "Start tr = Some s" "End tr = Some e"
  then have w: "wf_ts s" "wf_ts e" using assms by (auto simp: wf_tr_def)
  have eq: "equal_ts e (next_ts s) \<longleftrightarrow> ts_val e = ts_val s + 1" if "before s e"
    using next_ts_val [OF w that] w by (simp add: equal_ts_val)
  have "IsEmpty tr \<longleftrightarrow>
    \<not> (\<exists>n. (if StartType tr = Exclusive then ts_val s < n else ts_val s \<le> n) \<and>
            (if EndType tr = Exclusive then n < ts_val e else n \<le> ts_val e))"
    unfolding bounds_meet_iff IsEmpty_def se prod.case option.case
    using w eq by (auto simp: before_iff equal_ts_val)
  then show ?thesis
    by (simp add: instants_def se lower_ok_def upper_ok_def)
next
  fix s assume "Start tr = Some s" "End tr = None"
  then show ?thesis
    using assms by (auto simp: IsEmpty_def instants_def lower_ok_def upper_ok_def
        intro: exI [of _ "ts_val s + 1"])
next
  fix e assume "Start tr = None" "End tr = Some e"
  then show ?thesis
    using assms by (auto simp: IsEmpty_def instants_def lower_ok_def upper_ok_def
        intro: exI [of _ "ts_val e - 1"])
qed (auto simp: IsEmpty_def instants_def lower_ok_def upper_ok_def)

lemma IsEternity_iff:
  assumes w: "wf_tr tr"
  shows "IsEternity tr \<longleftrightarrow> instants tr = UNIV"
proof (cases "Start tr"; cases "End tr")
  fix s assume "Start tr = Some s"
  then have "ts_val s - 1 \<notin> instants tr" "StartType tr \<noteq> Unbounded"
    using w by (auto simp: instants_def lower_ok_def wf_tr_def)
  then show ?thesis by (auto simp: IsEternity_def)
next
  fix s assume "Start tr = Some s"
  then have "ts_val s - 1 \<notin> instants tr" "StartType tr \<noteq> Unbounded"
    using w by (auto simp: instants_def lower_ok_def wf_tr_def)
  then show ?thesis by (auto simp: IsEternity_def)
next
  fix e assume "End tr = Some e"
  then have "ts_val e + 1 \<notin> instants tr" "EndType tr \<noteq> Unbounded"
    using w by (auto simp: instants_def upper_ok_def wf_tr_def)
  then show ?thesis by (auto simp: IsEternity_def)
qed (auto simp: IsEternity_def instants_def lower_ok_def upper_ok_def)

lemma Contains_iff:
  assumes "wf_tr tr" "wf_ts ts"
  shows "Contains tr ts \<longleftrightarrow> ts_val ts \<in> instants tr"
proof (cases "IsEmpty tr")
  case True
  then show ?thesis using IsEmpty_iff [OF assms(1)] by (simp add: Contains_def)
next
  case False
  then have nn: "\<not> (Start tr = None \<and> End tr = None \<and> \<not> (StartType tr = Unbounded \<and> EndType tr = Unbounded))"
    by (auto simp: IsEmpty_def)
  show ?thesis
    using assms False unfolding instants_def if_not_P [OF nn]
    by (cases "StartType tr"; cases "EndType tr")
      (auto simp: Contains_def IsEternity_def wf_tr_def lower_ok_def upper_ok_def before_iff
        equal_ts_val split: option.splits)
qed

section \<open>Intersection\<close>

definition bound_wf :: "Timestamp option \<Rightarrow> BoundType \<Rightarrow> bool" where
  "bound_wf p b \<longleftrightarrow> (p = None \<longleftrightarrow> b = Unbounded) \<and> (case p of None \<Rightarrow> True | Some s \<Rightarrow> wf_ts s)"

lemma wf_nonempty:
  assumes "wf_tr tr" "\<not> IsEmpty tr"
  shows "bound_wf (Start tr) (StartType tr)" "bound_wf (End tr) (EndType tr)"
    "instants tr = {n. lower_ok (Start tr) (StartType tr) n \<and> upper_ok (End tr) (EndType tr) n}"
  using assms by (auto simp: wf_tr_def IsEmpty_def bound_wf_def instants_def split: option.splits)

lemma bound_wf_tr:
  "bound_wf (Start tr) (StartType tr) \<Longrightarrow> bound_wf (End tr) (EndType tr) \<Longrightarrow>
   wf_tr tr \<and> instants tr = {n. lower_ok (Start tr) (StartType tr) n \<and> upper_ok (End tr) (EndType tr) n}"
  by (auto simp: wf_tr_def bound_wf_def instants_def)

lemma later_start_spec:
  assumes "bound_wf (Start a) (StartType a)" "bound_wf (Start b) (StartType b)"
  shows "\<exists>p t. later_start a b = Ok (p, t) \<and> bound_wf p t \<and>
    (\<forall>n. lower_ok p t n \<longleftrightarrow> lower_ok (Start a) (StartType a) n \<and> lower_ok (Start b) (StartType b) n)"
proof (cases "StartType a = Unbounded \<or> StartType b = Unbounded")
  case True
  with assms show ?thesis by (auto simp: later_start_def bound_wf_def lower_ok_def)
next
  case False
  with assms obtain x y where xy: "Start a = Some x" "Start b = Some y" "wf_ts x" "wf_ts y"
    by (auto simp: bound_wf_def split: option.splits)
  with False assms show ?thesis
    by (auto simp: later_start_def bound_wf_def lower_ok_def before_iff)
qed

lemma earlier_end_spec:
  assumes "bound_wf (End a) (EndType a)" "bound_wf (End b) (EndType b)"
  shows "\<exists>p t. earlier_end a b = Ok (p, t) \<and> bound_wf p t \<and>
    (\<forall>n. upper_ok p t n \<longleftrightarrow> upper_ok (End a) (EndType a) n \<and> upper_ok (End b) (EndType b) n)"
proof (cases "EndType a = Unbounded \<or> EndType b = Unbounded")
  case True
  with assms show ?thesis by (auto simp: earlier_end_def bound_wf_def upper_ok_def)
next
  case False
  with assms obtain x y where xy: "End a = Some x" "End b = Some y" "wf_ts x" "wf_ts y"
    by (auto simp: bound_wf_def split: option.splits)
  with False assms show ?thesis
    by (auto simp: earlier_end_def bound_wf_def upper_ok_def before_iff)
qed

text \<open>The check after \<^verbatim>\<open>result.IsEmpty()\<close> never fires: it repeats what \<^verbatim>\<open>IsEmpty\<close> tests.\<close>

lemma Intersect_recheck:
  "Intersect a b =
     (if IsEmpty a \<or> IsEmpty b then Ok emptyRange
      else if IsEternity a then Ok b
      else if IsEternity b then Ok a
      else rbind (later_start a b) (\<lambda>(start, startType).
           rbind (earlier_end a b) (\<lambda>(end, endType).
             let result = \<lparr>Start = start, StartType = startType, End = end, EndType = endType\<rparr>
             in if IsEmpty result then Ok emptyRange else Ok result)))"
proof -
  have chk: "\<not> before e s" "equal_ts e s \<Longrightarrow> bs \<noteq> Exclusive \<and> be \<noteq> Exclusive"
    if "\<not> IsEmpty \<lparr>Start = Some s, StartType = bs, End = Some e, EndType = be\<rparr>" for s e bs be
    using that by (auto simp: IsEmpty_def equal_ts_iff split: if_splits)
  show ?thesis
    unfolding Intersect_def Let_def
    by (cases "later_start a b"; cases "earlier_end a b") (auto dest: chk split: option.splits)
qed

lemma Intersect_spec:
  assumes "wf_tr a" "wf_tr b"
  shows "\<exists>r. Intersect a b = Ok r \<and> wf_tr r \<and> instants r = instants a \<inter> instants b"
proof -
  consider "IsEmpty a \<or> IsEmpty b" | "\<not> (IsEmpty a \<or> IsEmpty b)" "IsEternity a \<or> IsEternity b"
    | "\<not> IsEmpty a" "\<not> IsEmpty b" "\<not> (IsEternity a \<or> IsEternity b)" by blast
  then show ?thesis
  proof cases
    case 1
    then show ?thesis using assms IsEmpty_iff by (auto simp: Intersect_def)
  next
    case 2
    then show ?thesis using assms IsEternity_iff [of a] IsEternity_iff [of b]
      by (auto simp: Intersect_def)
  next
    case 3
    note wa = wf_nonempty [OF assms(1) 3(1)] and wb = wf_nonempty [OF assms(2) 3(2)]
    from later_start_spec [OF wa(1) wb(1)] obtain p t where
      l: "later_start a b = Ok (p, t)" "bound_wf p t"
        "\<And>n. lower_ok p t n \<longleftrightarrow> lower_ok (Start a) (StartType a) n \<and> lower_ok (Start b) (StartType b) n"
      by auto
    from earlier_end_spec [OF wa(2) wb(2)] obtain q u where
      r: "earlier_end a b = Ok (q, u)" "bound_wf q u"
        "\<And>n. upper_ok q u n \<longleftrightarrow> upper_ok (End a) (EndType a) n \<and> upper_ok (End b) (EndType b) n"
      by auto
    let ?r = "\<lparr>Start = p, StartType = t, End = q, EndType = u\<rparr>"
    have w: "wf_tr ?r \<and> instants ?r = instants a \<inter> instants b"
      using bound_wf_tr [of ?r] l(2,3) r(2,3) wa(3) wb(3) by auto
    then show ?thesis
      using 3 l(1) r(1) IsEmpty_iff [of ?r] by (auto simp: Intersect_recheck)
  qed
qed

lemma Overlaps_spec:
  assumes "wf_tr a" "wf_tr b"
  shows "Overlaps a b = Ok (instants a \<inter> instants b \<noteq> {})"
  using Intersect_spec [OF assms] IsEmpty_iff by (auto simp: Overlaps_def)

section \<open>Parsing and printing\<close>

lemma parse_bound_wf: "parse_bound s x str = Ok (p, b) \<Longrightarrow> bound_wf p b"
  by (auto simp: parse_bound_def bound_wf_def res_simps dest: ParseTimestamp_wf split: if_splits)

lemma parse_bound_no_panic: "parse_bound s x str \<noteq> Panic p"
  by (auto simp: parse_bound_def res_simps ParseTimestamp_no_panic)

lemma parse_instant_wf: "parse_instant s sm em str = Ok tr \<Longrightarrow> wf_tr tr"
  by (auto simp: parse_instant_def wf_tr_def emptyRange_def res_simps dest: ParseTimestamp_wf split: if_splits)

lemma parse_instant_no_panic: "parse_instant s sm em str \<noteq> Panic p"
  by (auto simp: parse_instant_def res_simps ParseTimestamp_no_panic)

lemma Parse_Ok_wf:
  assumes "Parse s = Ok tr"
  shows "wf_tr tr"
  using assms unfolding Parse_def
  by (auto simp: Let_def res_simps dest!: parse_bound_wf intro: bound_wf_tr [THEN conjunct1] parse_instant_wf
      split: if_splits prod.splits)

lemma Parse_no_panic: "Parse s \<noteq> Panic p"
  unfolding Parse_def
  by (auto simp: Let_def res_simps parse_bound_no_panic parse_instant_no_panic split: if_splits prod.splits)

text \<open>Text with no marker inside loses exactly the markers around it.\<close>

definition no_marker :: "string \<Rightarrow> bool" where
  "no_marker s \<longleftrightarrow> list_all (\<lambda>c. c \<notin> set ''[]()'') s"

definition marker :: "string \<Rightarrow> char option" where
  "marker s = (case s of [] \<Rightarrow> None | c # _ \<Rightarrow> Some c)"

lemma strip_markers_text:
  assumes "no_marker body" "body \<noteq> []" "l \<in> {[], ''['', ''(''}" "r \<in> {[], '']'', '')''}"
  shows "strip_markers (l @ body @ r) = (marker l, marker r, body)"
proof -
  obtain a x where a: "body = a # x" using assms(2) by (cases body) auto
  obtain y z where z: "body = y @ [z]" using assms(2) by (cases body rule: rev_cases) auto
  have na: "a \<noteq> CHR ''['' \<and> a \<noteq> CHR ''(''" and nz: "z \<noteq> CHR '']'' \<and> z \<noteq> CHR '')''"
    using assms(1) a unfolding no_marker_def by (simp, use assms(1) z in \<open>simp add: no_marker_def\<close>)
  let ?s = "l @ body @ r"
  have l: "(if ?s \<noteq> [] \<and> (hd ?s = CHR ''['' \<or> hd ?s = CHR ''('') then (Some (hd ?s), tl ?s) else (None, ?s))
      = (marker l, body @ r)"
    using assms(3) na by (auto simp: a marker_def)
  let ?t = "body @ r"
  have r: "(if ?t \<noteq> [] \<and> (last ?t = CHR '']'' \<or> last ?t = CHR '')'') then (Some (last ?t), butlast ?t) else (None, ?t))
      = (marker r, body)"
    using assms(4) nz by (auto simp: z marker_def butlast_append)
  show ?thesis
    unfolding strip_markers_def l r Let_def prod.case by (rule refl)
qed

lemma Timestamp_String_no_marker: "wf_ts ts \<Longrightarrow> no_marker (Timestamp_String ts)"
  unfolding no_marker_def list_all_iff by (auto dest!: Timestamp_String_chars simp: is_digit_def)

lemma Timestamp_String_no_sep: "wf_ts ts \<Longrightarrow> CHR ''_'' \<notin> set (Timestamp_String ts)"
  by (auto dest!: Timestamp_String_chars simp: is_digit_def)

definition bound_text :: "Timestamp option \<Rightarrow> string" where
  "bound_text p = (case p of None \<Rightarrow> [] | Some s \<Rightarrow> Timestamp_String s)"

lemma parse_bound_text:
  "bound_wf p b \<Longrightarrow> x = (b = Exclusive) \<Longrightarrow> parse_bound s x (bound_text p) = Ok (p, b)"
  by (cases b) (auto simp: parse_bound_def bound_wf_def bound_text_def ParseTimestamp_String
      Timestamp_String_not_Nil split: option.splits)

lemma Parse_range_text:
  assumes p: "bound_wf p b" "bound_wf q c"
    and l: "l = (if p = None then [] else if b = Exclusive then ''('' else ''['')"
    and r: "r = (if q = None then [] else if c = Exclusive then '')'' else '']'')"
  shows "Parse (l @ (bound_text p @ ''_'' @ bound_text q) @ r) =
    Ok \<lparr>Start = p, StartType = b, End = q, EndType = c\<rparr>"
proof -
  have nm: "no_marker (bound_text p @ ''_'' @ bound_text q)"
    using p Timestamp_String_no_marker
    by (auto simp: bound_wf_def bound_text_def no_marker_def split: option.splits)
  have cut: "Cut (bound_text p @ ''_'' @ bound_text q) CHR ''_'' = (bound_text p, bound_text q, True)"
    using Cut_append [of "CHR ''_''" "bound_text p"] p(1) Timestamp_String_no_sep
    by (auto simp: bound_wf_def bound_text_def split: option.splits)
  have strip: "strip_markers (l @ (bound_text p @ ''_'' @ bound_text q) @ r) =
      (marker l, marker r, bound_text p @ ''_'' @ bound_text q)"
    by (rule strip_markers_text [OF nm]) (auto simp: l r)
  have x: "(marker l = Some CHR ''('') = (b = Exclusive)" "(marker r = Some CHR '')'') = (c = Exclusive)"
    using p by (auto simp: l r marker_def bound_wf_def)
  show ?thesis
    unfolding Parse_def strip Let_def prod.case cut using p
    by (simp add: x parse_bound_text)
qed

lemma Parse_instant_text:
  assumes "wf_ts ts"
  shows "Parse (''['' @ Timestamp_String ts @ '']'') =
    Ok \<lparr>Start = Some ts, StartType = Inclusive, End = Some ts, EndType = Inclusive\<rparr>"
proof -
  have strip: "strip_markers (''['' @ Timestamp_String ts @ '']'') =
      (Some CHR ''['', Some CHR '']'', Timestamp_String ts)"
    using strip_markers_text [OF Timestamp_String_no_marker [OF assms] Timestamp_String_not_Nil [OF assms],
      of "''[''" "'']''"] by (simp add: marker_def)
  show ?thesis
    unfolding Parse_def strip Let_def prod.case Cut_none [OF Timestamp_String_no_sep [OF assms]]
    by (simp add: parse_instant_def ParseTimestamp_String assms Timestamp_String_not_Nil)
qed

lemma TimeRange_String_Parse:
  assumes wf: "wf_tr tr"
  shows "\<exists>s. TimeRange_String tr = Ok s \<and> Parse s = Ok (if IsEmpty tr then emptyRange else tr)"
proof (cases "IsEmpty tr")
  case True
  moreover have "Parse ''()'' = Ok emptyRange"
    by (simp add: Parse_def strip_markers_def parse_instant_def Cut_def)
  ultimately show ?thesis by (simp add: TimeRange_String_def)
next
  case ne: False
  note w = wf_nonempty [OF wf ne]
  show ?thesis
  proof (cases "Start tr \<noteq> None \<and> End tr \<noteq> None \<and> equal_ts (the (Start tr)) (the (End tr))")
    case True
    then obtain a where a: "Start tr = Some a" "End tr = Some a" "wf_ts a"
      using w(1,2) by (auto simp: equal_ts_iff bound_wf_def)
    then have "StartType tr = Inclusive" "EndType tr = Inclusive"
      using w(1,2) ne by (cases "StartType tr"; cases "EndType tr"; auto simp: bound_wf_def IsEmpty_def before_def equal_ts_iff)+
    then show ?thesis using a ne Parse_instant_text [OF a(3)]
      by (auto simp: TimeRange_String_def IsEternity_def equal_ts_iff)
  next
    case False
    let ?l = "if Start tr = None then [] else if StartType tr = Exclusive then ''('' else ''[''"
    let ?r = "if End tr = None then [] else if EndType tr = Exclusive then '')'' else '']''"
    have "TimeRange_String tr = Ok (?l @ (bound_text (Start tr) @ ''_'' @ bound_text (End tr)) @ ?r)"
      using False ne w(1,2)
      by (auto simp: TimeRange_String_def IsEternity_def bound_text_def bound_wf_def split: option.splits)
    then show ?thesis using Parse_range_text [OF w(1,2) refl refl] ne by simp
  qed
qed

section \<open>Properties\<close>

text \<open>\<^verbatim>\<open>Parse\<close> never panics, and every range it returns is well formed: a bound is missing
  exactly where the type says so, or the range is the empty one.\<close>

theorem parse_well_formed:
  "case Parse s of Ok tr \<Rightarrow> wf_tr tr | Err e \<Rightarrow> True | Panic p \<Rightarrow> False"
  using Parse_Ok_wf Parse_no_panic by (auto split: res.split)



text \<open>C39: \<^verbatim>\<open>Intersect\<close> of two well-formed ranges never reads through a nil pointer; it returns a
  well-formed range whose instants are the common instants. \<^verbatim>\<open>Overlaps\<close> tells whether there is one.\<close>

theorem intersect_is_intersection:
  assumes "wf_tr a" "wf_tr b"
  shows "\<exists>r. Intersect a b = Ok r \<and> wf_tr r \<and> instants r = instants a \<inter> instants b \<and>
    Overlaps a b = Ok (instants a \<inter> instants b \<noteq> {})"
  using Intersect_spec [OF assms] Overlaps_spec [OF assms] by blast

theorem intersect_is_intersection_witness:
  "\<exists>r. Intersect emptyRange zeroRange = Ok r \<and> wf_tr r \<and> instants r = instants emptyRange \<inter> instants zeroRange \<and>
    Overlaps emptyRange zeroRange = Ok (instants emptyRange \<inter> instants zeroRange \<noteq> {})"
  by (rule intersect_is_intersection) simp_all

text \<open>\<^verbatim>\<open>IsEmpty\<close>, \<^verbatim>\<open>IsEternity\<close> and \<^verbatim>\<open>Contains\<close> decide emptiness, totality and membership of
  the set of instants.\<close>

theorem range_predicates:
  assumes "wf_tr tr" "wf_ts ts"
  shows "(IsEmpty tr \<longleftrightarrow> instants tr = {}) \<and> (IsEternity tr \<longleftrightarrow> instants tr = UNIV) \<and>
    (Contains tr ts \<longleftrightarrow> ts_val ts \<in> instants tr)"
  using IsEmpty_iff IsEternity_iff Contains_iff assms by blast

theorem range_predicates_witness:
  "(IsEmpty zeroRange \<longleftrightarrow> instants zeroRange = {}) \<and> (IsEternity zeroRange \<longleftrightarrow> instants zeroRange = UNIV) \<and>
   (Contains zeroRange \<lparr>Seconds = 3, Nanoseconds = 4\<rparr> \<longleftrightarrow> ts_val \<lparr>Seconds = 3, Nanoseconds = 4\<rparr> \<in> instants zeroRange)"
  by (rule range_predicates) (simp_all add: ts_defs)

end
