(* ===== verification/Ns_Bounds.thy ===== *)
theory Ns_Bounds
  imports Timeranges
begin

text \<open>
  Half-open int64 nanosecond bounds of \<^verbatim>\<open>internal/timerange/nsbounds.go\<close>, the form in which the
  metadata store keeps and compares ranges. The lemmas show that the conversion of a
  well-formed non-empty range succeeds exactly when both bounds fit an int64, that the result
  has the instants of the range, and that the only errors are the two sentinels.
\<close>

record NsBounds =
  Lower :: int
  Upper :: int
  LowerUnbounded :: bool
  UpperUnbounded :: bool

definition zeroBounds :: NsBounds where
  "zeroBounds = \<lparr>Lower = 0, Upper = 0, LowerUnbounded = False, UpperUnbounded = False\<rparr>"

definition boundNanos :: "Timestamp \<Rightarrow> bool \<Rightarrow> int res" where
  "boundNanos ts addOne =
     (let (v, ok) = nanos ts
      in if \<not> ok \<or> (addOne \<and> v = MaxInt64) then Err (Sentinel ErrOutOfRange)
         else Ok (if addOne then i64 (v + 1) else v))"

text \<open>The text \<^verbatim>\<open>fmt\<close> prints for a range under \<^verbatim>\<open>%s\<close>: it recovers a panic of \<^verbatim>\<open>String\<close>.\<close>

definition fmt_s :: "TimeRange \<Rightarrow> string" where
  "fmt_s tr = (case TimeRange_String tr of
     Ok s \<Rightarrow> s
   | Err e \<Rightarrow> []
   | Panic p \<Rightarrow> ''%!s(PANIC=String method: '' @ p @ '')'')"

definition TimeRange_NsBounds :: "TimeRange \<Rightarrow> NsBounds res" where
  "TimeRange_NsBounds tr =
     (if IsEmpty tr then Err (Sentinel ErrEmptyRange)
      else rbind
        (case Start tr of
           None \<Rightarrow> Ok (zeroBounds\<lparr>LowerUnbounded := True\<rparr>)
         | Some s \<Rightarrow>
             rbind (rwrap (\<lambda>e. Errorf [Lit ''start of '', S (fmt_s tr), Lit '': '', W e])
                     (boundNanos s (StartType tr = Exclusive)))
               (\<lambda>v. Ok (zeroBounds\<lparr>Lower := v\<rparr>)))
        (\<lambda>b. case End tr of
           None \<Rightarrow> Ok (b\<lparr>UpperUnbounded := True\<rparr>)
         | Some e \<Rightarrow>
             rbind (rwrap (\<lambda>e. Errorf [Lit ''end of '', S (fmt_s tr), Lit '': '', W e])
                     (boundNanos e (EndType tr = Inclusive)))
               (\<lambda>v. Ok (b\<lparr>Upper := v\<rparr>))))"

section \<open>Meaning\<close>

definition half_open :: "NsBounds \<Rightarrow> int set" where
  "half_open b = {n. (LowerUnbounded b \<or> Lower b \<le> n) \<and> (UpperUnbounded b \<or> n < Upper b)}"

definition wf_bounds :: "NsBounds \<Rightarrow> bool" where
  "wf_bounds b \<longleftrightarrow> in_i64 (Lower b) \<and> in_i64 (Upper b) \<and>
     (LowerUnbounded b \<longrightarrow> Lower b = 0) \<and> (UpperUnbounded b \<longrightarrow> Upper b = 0) \<and>
     (\<not> LowerUnbounded b \<longrightarrow> \<not> UpperUnbounded b \<longrightarrow> Lower b < Upper b)"

definition bound_fits :: "Timestamp option \<Rightarrow> bool \<Rightarrow> bool" where
  "bound_fits p addOne = (case p of
     None \<Rightarrow> True
   | Some s \<Rightarrow> in_i64 (ts_val s) \<and> in_i64 (ts_val s + (if addOne then 1 else 0)))"

lemma half_open_nonempty: "wf_bounds b \<Longrightarrow> half_open b \<noteq> {}"
proof -
  assume "wf_bounds b"
  then have "(if LowerUnbounded b then Upper b - 1 else Lower b) \<in> half_open b"
    by (auto simp: wf_bounds_def half_open_def)
  then show ?thesis by blast
qed

lemma half_open_inject:
  assumes "wf_bounds a" "wf_bounds b" "half_open a = half_open b"
  shows "a = b"
proof -
  have mem: "(LowerUnbounded a \<or> Lower a \<le> n) \<and> (UpperUnbounded a \<or> n < Upper a) \<longleftrightarrow>
      (LowerUnbounded b \<or> Lower b \<le> n) \<and> (UpperUnbounded b \<or> n < Upper b)" for n
    using assms(3) by (auto simp: half_open_def set_eq_iff)
  let ?lo = "- \<bar>Lower a\<bar> - \<bar>Lower b\<bar> - \<bar>Upper a\<bar> - \<bar>Upper b\<bar> - 1"
  have u: "UpperUnbounded a = UpperUnbounded b"
    using mem [of "- ?lo"] by (cases "UpperUnbounded a"; cases "UpperUnbounded b"; simp) arith+
  have l: "LowerUnbounded a = LowerUnbounded b"
    using mem [of ?lo] by (cases "LowerUnbounded a"; cases "LowerUnbounded b"; simp) arith+
  have "Lower a = Lower b"
    using assms(1,2) l u mem [of "Lower a"] mem [of "Lower b"]
    by (cases "LowerUnbounded b"; cases "UpperUnbounded b"; simp add: wf_bounds_def)
  moreover have "Upper a = Upper b"
    using assms(1,2) l u mem [of "Upper a - 1"] mem [of "Upper b - 1"]
    by (cases "LowerUnbounded b"; cases "UpperUnbounded b"; simp add: wf_bounds_def)
  ultimately show ?thesis using l u by simp
qed

section \<open>The conversion\<close>

lemma boundNanos_spec:
  assumes "wf_ts ts"
  shows "boundNanos ts x =
    (if bound_fits (Some ts) x then Ok (ts_val ts + (if x then 1 else 0))
     else Err (Sentinel ErrOutOfRange))"
proof -
  have max: "in_i64 v \<Longrightarrow> v \<noteq> MaxInt64 \<longleftrightarrow> in_i64 (v + 1)" for v
    unfolding in_i64_def MaxInt64_def MinInt64_def by linarith
  show ?thesis
    unfolding boundNanos_def nanos_spec [OF assms] bound_fits_def Let_def
    using max [of "ts_val ts"] by (cases "in_i64 (ts_val ts)"; cases x) (auto simp: i64_id)
qed

lemma boundNanos_no_panic: "boundNanos ts x \<noteq> Panic p"
  by (simp add: boundNanos_def Let_def split: prod.split)

lemma NsBounds_empty: "IsEmpty tr \<Longrightarrow> TimeRange_NsBounds tr = Err (Sentinel ErrEmptyRange)"
  by (simp add: TimeRange_NsBounds_def)

lemma NsBounds_no_panic: "TimeRange_NsBounds tr \<noteq> Panic p"
  by (simp add: TimeRange_NsBounds_def res_simps boundNanos_no_panic split: option.splits)

lemma NsBounds_fits:
  assumes "wf_tr tr" "\<not> IsEmpty tr"
    "bound_fits (Start tr) (StartType tr = Exclusive)" "bound_fits (End tr) (EndType tr = Inclusive)"
  shows "\<exists>b. TimeRange_NsBounds tr = Ok b \<and> wf_bounds b \<and> half_open b = instants tr"
proof -
  note w = wf_nonempty [OF assms(1,2)]
  let ?b = "\<lparr>Lower = (case Start tr of None \<Rightarrow> 0 | Some s \<Rightarrow> ts_val s + (if StartType tr = Exclusive then 1 else 0)),
      Upper = (case End tr of None \<Rightarrow> 0 | Some e \<Rightarrow> ts_val e + (if EndType tr = Inclusive then 1 else 0)),
      LowerUnbounded = (Start tr = None), UpperUnbounded = (End tr = None)\<rparr>"
  have ok: "TimeRange_NsBounds tr = Ok ?b"
    using assms(2-4) w(1,2)
    by (cases "StartType tr"; cases "EndType tr") (auto simp: TimeRange_NsBounds_def boundNanos_spec bound_wf_def zeroBounds_def split: option.splits)
  have h: "half_open ?b = instants tr"
    unfolding w(3) half_open_def
    using w(1,2) by (cases "StartType tr"; cases "EndType tr"; cases "Start tr"; cases "End tr")
      (auto simp: lower_ok_def upper_ok_def bound_wf_def)
  have ne: "half_open ?b \<noteq> {}" using h assms(1,2) IsEmpty_iff by simp
  have i: "in_i64 0" by (simp add: in_i64_def MinInt64_def MaxInt64_def)
  have "wf_bounds ?b"
    using assms(3,4) ne i
    by (cases "Start tr"; cases "End tr") (auto simp: wf_bounds_def bound_fits_def half_open_def)
  with ok h show ?thesis by blast
qed

lemma NsBounds_unfit:
  assumes "wf_tr tr" "\<not> IsEmpty tr"
    "\<not> (bound_fits (Start tr) (StartType tr = Exclusive) \<and> bound_fits (End tr) (EndType tr = Inclusive))"
  shows "\<exists>e. TimeRange_NsBounds tr = Err e \<and> errors_Is e ErrOutOfRange"
  using assms(2,3) wf_nonempty(1,2) [OF assms(1,2)]
  by (cases "StartType tr"; cases "EndType tr"; cases "Start tr"; cases "End tr")
    (auto simp: TimeRange_NsBounds_def boundNanos_spec bound_wf_def bound_fits_def)

lemma NsBounds_Ok:
  assumes "wf_tr tr" "TimeRange_NsBounds tr = Ok b"
  shows "wf_bounds b \<and> half_open b = instants tr \<and> instants tr \<noteq> {}"
proof -
  have ne: "\<not> IsEmpty tr" using assms(2) NsBounds_empty by force
  show ?thesis
  proof (cases "bound_fits (Start tr) (StartType tr = Exclusive) \<and> bound_fits (End tr) (EndType tr = Inclusive)")
    case True
    then show ?thesis using NsBounds_fits [OF assms(1) ne] assms(2) half_open_nonempty by auto
  next
    case False
    then show ?thesis using NsBounds_unfit [OF assms(1) ne] assms(2) by auto
  qed
qed

text \<open>Each side on its own.\<close>

lemma NsBounds_sides:
  assumes "wf_tr tr" "TimeRange_NsBounds tr = Ok b"
  shows "lower_ok (Start tr) (StartType tr) n \<longleftrightarrow> LowerUnbounded b \<or> Lower b \<le> n"
    "upper_ok (End tr) (EndType tr) n \<longleftrightarrow> UpperUnbounded b \<or> n < Upper b"
proof -
  have ne: "\<not> IsEmpty tr" using assms(2) NsBounds_empty by force
  note w = wf_nonempty [OF assms(1) ne]
  show "lower_ok (Start tr) (StartType tr) n \<longleftrightarrow> LowerUnbounded b \<or> Lower b \<le> n"
    using assms(2) ne w(1,2)
    by (cases "StartType tr"; cases "EndType tr"; cases "Start tr"; cases "End tr")
      (auto simp: TimeRange_NsBounds_def boundNanos_spec bound_wf_def lower_ok_def zeroBounds_def
        res_simps split: if_splits)
  show "upper_ok (End tr) (EndType tr) n \<longleftrightarrow> UpperUnbounded b \<or> n < Upper b"
    using assms(2) ne w(1,2)
    by (cases "StartType tr"; cases "EndType tr"; cases "Start tr"; cases "End tr")
      (auto simp: TimeRange_NsBounds_def boundNanos_spec bound_wf_def upper_ok_def zeroBounds_def
        res_simps split: if_splits)
qed

section \<open>Properties\<close>



text \<open>\<^verbatim>\<open>TimestampFromDuration\<close> returns the normalised timestamp of the duration.\<close>

theorem duration_timestamp:
  assumes "in_i64 d"
  shows "wf_ts (TimestampFromDuration d) \<and> ts_val (TimestampFromDuration d) = d"
  using TimestampFromDuration_spec [OF assms] by blast

theorem duration_timestamp_witness:
  "wf_ts (TimestampFromDuration (-1)) \<and> ts_val (TimestampFromDuration (-1)) = -1"
  by (rule duration_timestamp) (simp add: in_i64_def MinInt64_def MaxInt64_def)

end
