(* ===== verification/App_Error.thy ===== *)
theory App_Error
  imports Prelude
begin

text \<open>
  The domain error of \<^verbatim>\<open>internal/apperror/apperror.go\<close>: the catalogue of codes, the
  constructors \<^verbatim>\<open>New\<close> and \<^verbatim>\<open>Generic\<close>, and the RFC 9457 body \<^verbatim>\<open>ToProblemDetails\<close>.
  The lemmas show that the catalogue covers every code, that every catalogued status is a
  client or server error, and that the slugs, and so the type URIs, are distinct.
\<close>

definition typeURIBase :: string where
  "typeURIBase = ''https://github.com/amagioss/opentams/problems/''"

fun slug :: "ErrorCode \<Rightarrow> string" where
  "slug NoCode = []"
| "slug SegmentOverlap = ''segment-overlap''"
| "slug InvalidObjectTimerange = ''invalid-object-timerange''"
| "slug InvalidTimerange = ''invalid-timerange''"
| "slug InvalidUUID = ''invalid-uuid''"
| "slug InvalidJSON = ''invalid-json''"
| "slug SchemaValidation = ''schema-validation''"
| "slug ImmutableField = ''immutable-field''"
| "slug FormatMismatch = ''format-mismatch''"
| "slug MissingIdempotencyKey = ''missing-idempotency-key''"
| "slug StorageModeConflict = ''storage-mode-conflict''"
| "slug ObjectIDExists = ''object-id-exists''"
| "slug VFRFrameRateConflict = ''vfr-frame-rate-conflict''"
| "slug BatchTooLarge = ''batch-too-large''"
| "slug Unauthorized = ''unauthorized''"
| "slug Forbidden = ''forbidden''"
| "slug TokenExpired = ''token-expired''"
| "slug ReadOnlyCode = ''read-only''"
| "slug ObjectReaping = ''object-reaping''"
| "slug NotFound = ''not-found''"
| "slug NotAcceptable = ''not-acceptable''"
| "slug RequestTooLarge = ''request-too-large''"
| "slug RateLimited = ''rate-limited''"
| "slug DependencyUnavailable = ''dependency-unavailable''"

fun catalogue :: "ErrorCode \<Rightarrow> (int \<times> string) option" where
  "catalogue NoCode = None"
| "catalogue SegmentOverlap = Some (422, ''Segment Overlap'')"
| "catalogue InvalidObjectTimerange = Some (400, ''Invalid Object Timerange'')"
| "catalogue InvalidTimerange = Some (400, ''Invalid Timerange'')"
| "catalogue InvalidUUID = Some (400, ''Invalid UUID'')"
| "catalogue InvalidJSON = Some (400, ''Invalid JSON'')"
| "catalogue SchemaValidation = Some (400, ''Schema Validation Failed'')"
| "catalogue ImmutableField = Some (400, ''Immutable Field'')"
| "catalogue FormatMismatch = Some (400, ''Format Mismatch'')"
| "catalogue MissingIdempotencyKey = Some (400, ''Missing Idempotency Key'')"
| "catalogue StorageModeConflict = Some (400, ''Storage Mode Conflict'')"
| "catalogue ObjectIDExists = Some (400, ''Object ID Exists'')"
| "catalogue VFRFrameRateConflict = Some (400, ''VFR Frame Rate Conflict'')"
| "catalogue BatchTooLarge = Some (400, ''Batch Too Large'')"
| "catalogue Unauthorized = Some (401, ''Unauthorized'')"
| "catalogue Forbidden = Some (403, ''Forbidden'')"
| "catalogue TokenExpired = Some (401, ''Token Expired'')"
| "catalogue ReadOnlyCode = Some (403, ''Read Only'')"
| "catalogue ObjectReaping = Some (409, ''Object Reaping'')"
| "catalogue NotFound = Some (404, ''Not Found'')"
| "catalogue NotAcceptable = Some (406, ''Not Acceptable'')"
| "catalogue RequestTooLarge = Some (413, ''Request Too Large'')"
| "catalogue RateLimited = Some (429, ''Rate Limited'')"
| "catalogue DependencyUnavailable = Some (503, ''Dependency Unavailable'')"

text \<open>\<^verbatim>\<open>(e *AppError).Error()\<close>.\<close>

definition AppError_Error :: "ErrorCode \<Rightarrow> int \<Rightarrow> message \<Rightarrow> message" where
  "AppError_Error code status detail =
     (if code \<noteq> NoCode then [Lit ''apperror: '', S (slug code), Lit '': ''] @ detail
      else [Lit ''apperror: '', D status, Lit '': ''] @ detail)"

definition New :: "ErrorCode \<Rightarrow> message \<Rightarrow> go_error" where
  "New code detail =
     (case catalogue code of
        None \<Rightarrow> AppError NoCode 500 ([Lit ''unknown error code '', Q (slug code), Lit '': ''] @ detail)
      | Some (status, title) \<Rightarrow> AppError code status detail)"

definition Generic :: "int \<Rightarrow> message \<Rightarrow> go_error" where
  "Generic status detail = AppError NoCode status detail"

record ProblemDetails =
  pd_Type :: string
  pd_Title :: string
  pd_Status :: int
  pd_Detail :: message
  pd_Instance :: string
  pd_RequestID :: string

definition ToProblemDetails :: "ErrorCode \<times> int \<times> message \<Rightarrow> string \<Rightarrow> string \<Rightarrow> ProblemDetails" where
  "ToProblemDetails e inst requestID =
     (let (code, status, detail) = e;
          pd = \<lparr>pd_Type = [], pd_Title = [], pd_Status = status, pd_Detail = detail,
                pd_Instance = inst, pd_RequestID = requestID\<rparr>
      in case catalogue code of
           Some (_, title) \<Rightarrow> pd\<lparr>pd_Type := typeURIBase @ slug code, pd_Title := title\<rparr>
         | None \<Rightarrow> pd\<lparr>pd_Title := ''Internal Server Error''\<rparr>)"

section \<open>Facts\<close>

lemma catalogue_total: "catalogue c = None \<longleftrightarrow> c = NoCode"
  by (cases c) auto

lemma catalogue_status: "catalogue c = Some (st, t) \<Longrightarrow> 400 \<le> st \<and> st < 600"
  by (cases c) auto

lemma slug_NoCode: "slug c = [] \<longleftrightarrow> c = NoCode"
  by (cases c) auto

text \<open>The slug determines the code: the inverse is total on the slugs.\<close>

definition all_codes :: "ErrorCode list" where
  "all_codes = [NoCode, SegmentOverlap, InvalidObjectTimerange, InvalidTimerange, InvalidUUID,
     InvalidJSON, SchemaValidation, ImmutableField, FormatMismatch, MissingIdempotencyKey,
     StorageModeConflict, ObjectIDExists, VFRFrameRateConflict, BatchTooLarge, Unauthorized,
     Forbidden, TokenExpired, ReadOnlyCode, ObjectReaping, NotFound, NotAcceptable,
     RequestTooLarge, RateLimited, DependencyUnavailable]"

lemma all_codes_UNIV: "c \<in> set all_codes"
  by (cases c) (simp_all add: all_codes_def)

lemma slug_inject: "slug a = slug b \<longleftrightarrow> a = b"
proof -
  have "distinct (map slug all_codes)" by (simp add: all_codes_def)
  then have "inj_on slug (set all_codes)" by (simp add: distinct_map)
  then show ?thesis using all_codes_UNIV by (auto simp: inj_on_def)
qed

lemma errors_As_New [simp]:
  "errors_As (New c d) = (case catalogue c of
     None \<Rightarrow> Some (NoCode, 500, [Lit ''unknown error code '', Q (slug c), Lit '': ''] @ d)
   | Some (st, t) \<Rightarrow> Some (c, st, d))"
  by (simp add: New_def split: option.split prod.split)

lemma errors_As_Generic [simp]: "errors_As (Generic st d) = Some (NoCode, st, d)"
  by (simp add: Generic_def)

lemma errors_Is_New [simp]: "\<not> errors_Is (New c d) s"
  by (simp add: New_def split: option.split prod.split)

lemma errors_Is_Generic [simp]: "\<not> errors_Is (Generic st d) s"
  by (simp add: Generic_def)

end
