(* ===== verification/Domain.thy ===== *)
theory Domain
  imports Ns_Bounds App_Error
begin

text \<open>
  The value types of \<^verbatim>\<open>internal/domain\<close> that the segment packages exchange. A UUID is its
  canonical text, which orders as its bytes do; a time is its distance from the epoch.
\<close>

type_synonym uuid = string
type_synonym time = int

record GetURL =
  URL :: string
  Label :: string
  Controlled :: bool

record Segment =
  FlowID :: uuid
  ObjectID :: string
  Timerange :: TimeRange
  TSOffset :: "Timestamp option"
  ObjectTimerange :: "TimeRange option"
  LastDuration :: "Timestamp option"
  KeyFrameCount :: "int option"
  GetURLs :: "GetURL list"
  TimerangeRaw :: string
  TSOffsetRaw :: string
  ObjectTimerangeRaw :: string
  LastDurationRaw :: string
  SampleOffset :: "int option"
  SampleCount :: "int option"
  CreatedAt :: time

record RegisterParams =
  rp_FlowID :: uuid
  rp_Segments :: "Segment list"

text \<open>\<open>NoOutcome\<close> is the zero value, which the code leaves invalid on purpose.\<close>

datatype RegisterOutcome = NoOutcome | OutcomeAllAccepted | OutcomePartial | OutcomeAllRejected

record FailedSegment =
  fs_Segment :: Segment
  fs_Reason :: message
  fs_Type :: string
  fs_Title :: string
  fs_Status :: int

record RegisterResult =
  Outcome :: RegisterOutcome
  Accepted :: "Segment list"
  Failed :: "FailedSegment list"

record ListParams =
  lp_FlowID :: uuid
  lp_Timerange :: "TimeRange option"
  lp_ObjectID :: "string option"
  lp_ReverseOrder :: bool
  lp_VerboseStorage :: bool
  lp_AcceptGetURLs :: "string list option"
  lp_AcceptStorageIDs :: "string list option"
  lp_Presigned :: "bool option"
  lp_IncludeObjectTimerange :: bool
  lp_Page :: string
  lp_Limit :: int

record SegmentPage =
  Items :: "Segment list"
  NextCursor :: string
  EffectiveLimit :: int
  sp_Timerange :: TimeRange
  Count :: int

record DeleteParams =
  dp_FlowID :: uuid
  dp_Timerange :: TimeRange
  dp_ObjectID :: "string option"

record DeleteResult =
  DeletedCount :: int

text \<open>The parsed fields of a segment agree with the client's strings.\<close>

definition parsed_as :: "(string \<Rightarrow> 'a res) \<Rightarrow> string \<Rightarrow> 'a option \<Rightarrow> bool" where
  "parsed_as parse raw p = (case p of None \<Rightarrow> raw = [] | Some x \<Rightarrow> raw \<noteq> [] \<and> parse raw = Ok x)"

definition wf_segment :: "Segment \<Rightarrow> bool" where
  "wf_segment s \<longleftrightarrow>
     TimerangeRaw s \<noteq> [] \<and> Parse (TimerangeRaw s) = Ok (Timerange s) \<and>
     parsed_as ParseTimestamp (TSOffsetRaw s) (TSOffset s) \<and>
     parsed_as Parse (ObjectTimerangeRaw s) (ObjectTimerange s) \<and>
     parsed_as ParseTimestamp (LastDurationRaw s) (LastDuration s)"

lemma wf_segment_tr: "wf_segment s \<Longrightarrow> wf_tr (Timerange s)"
  by (auto simp: wf_segment_def intro: Parse_Ok_wf)

end
