(* ===== verification/Base64.thy ===== *)
theory Base64
  imports Prelude
begin

text \<open>
  \<^verbatim>\<open>base64.RawURLEncoding\<close> of the Go library, which the page cursors of
  \<^verbatim>\<open>internal/metastore/store.go\<close> use: the URL alphabet without padding. The decoder
  skips carriage returns and newlines and ignores spare low bits, as Go's does.
\<close>

definition b64_char :: "nat \<Rightarrow> char" where
  "b64_char n =
     (if n < 26 then char_of (n + 65)
      else if n < 52 then char_of (n + 71)
      else if n < 62 then char_of (n - 4)
      else if n = 62 then CHR ''-'' else CHR ''_'')"

definition b64_val :: "char \<Rightarrow> nat option" where
  "b64_val c =
     (let k = (of_char c :: nat)
      in if 65 \<le> k \<and> k \<le> 90 then Some (k - 65)
         else if 97 \<le> k \<and> k \<le> 122 then Some (k - 71)
         else if 48 \<le> k \<and> k \<le> 57 then Some (k + 4)
         else if c = CHR ''-'' then Some 62
         else if c = CHR ''_'' then Some 63
         else None)"

fun b64_groups :: "nat list \<Rightarrow> nat list" where
  "b64_groups (a # b # c # r) =
     a div 4 # (a mod 4 * 16 + b div 16) # (b mod 16 * 4 + c div 64) # c mod 64 # b64_groups r"
| "b64_groups [a, b] = [a div 4, a mod 4 * 16 + b div 16, b mod 16 * 4]"
| "b64_groups [a] = [a div 4, a mod 4 * 16]"
| "b64_groups [] = []"

fun b64_ungroup :: "nat list \<Rightarrow> nat list option" where
  "b64_ungroup (p # q # r # s # t) =
     map_option (\<lambda>bs. (p * 4 + q div 16) # (q mod 16 * 16 + r div 4) # (r mod 4 * 64 + s) # bs)
       (b64_ungroup t)"
| "b64_ungroup [p, q, r] = Some [p * 4 + q div 16, q mod 16 * 16 + r div 4]"
| "b64_ungroup [p, q] = Some [p * 4 + q div 16]"
| "b64_ungroup [p] = None"
| "b64_ungroup [] = Some []"

fun all_some :: "'a option list \<Rightarrow> 'a list option" where
  "all_some [] = Some []"
| "all_some (None # xs) = None"
| "all_some (Some x # xs) = map_option ((#) x) (all_some xs)"

definition EncodeToString :: "string \<Rightarrow> string" where
  "EncodeToString s = map b64_char (b64_groups (map of_char s))"

definition DecodeString :: "string \<Rightarrow> string option" where
  "DecodeString s =
     (case all_some (map b64_val (filter (\<lambda>c. c \<noteq> CHR 0x0A \<and> c \<noteq> CHR 0x0D) s)) of
        None \<Rightarrow> None
      | Some ns \<Rightarrow> map_option (map char_of) (b64_ungroup ns))"

lemma b64_val_char:
  assumes "n < 64"
  shows "b64_val (b64_char n) = Some n"
proof -
  consider "n < 26" | "26 \<le> n" "n < 52" | "52 \<le> n" "n < 62" | "n = 62" | "n = 63"
    using assms by linarith
  then show ?thesis
    by cases (auto simp: b64_val_def b64_char_def Let_def)
qed

lemma b64_char_no_newline: "n < 64 \<Longrightarrow> b64_char n \<noteq> CHR 0x0A \<and> b64_char n \<noteq> CHR 0x0D"
  using b64_val_char [of n] by (auto simp: b64_val_def)

lemma all_some_map: "(\<And>x. x \<in> set xs \<Longrightarrow> f x = Some (g x)) \<Longrightarrow> all_some (map f xs) = Some (map g xs)"
  by (induction xs) auto

lemma sextets:
  fixes a b :: nat
  assumes "a < 256" "b < 256"
  shows "a div 4 < 64" "a mod 4 * 16 + b div 16 < 64" "a mod 16 * 4 + b div 64 < 64"
proof -
  have "a mod 4 \<le> 3" "b div 16 \<le> 15" "a mod 16 \<le> 15" "b div 64 \<le> 3" using assms by auto
  then show "a div 4 < 64" "a mod 4 * 16 + b div 16 < 64" "a mod 16 * 4 + b div 64 < 64"
    using assms by auto
qed

lemma b64_groups_less: "(\<And>n. n \<in> set ns \<Longrightarrow> n < 256) \<Longrightarrow> m \<in> set (b64_groups ns) \<Longrightarrow> m < 64"
proof (induction ns rule: b64_groups.induct)
  case (1 a b c r)
  have "a < 256" "b < 256" "c < 256" using 1(2) by auto
  with 1 sextets show ?case by auto
next
  case (2 a b)
  have "a < 256" "b < 256" using 2(1) by auto
  with 2 sextets [of a b] sextets [of b 0] show ?case by auto
next
  case (3 a)
  have "a < 256" using 3(1) by auto
  with 3 sextets [of a 0] show ?case by auto
qed auto

lemma b64_ungroup_groups: "(\<And>n. n \<in> set ns \<Longrightarrow> n < 256) \<Longrightarrow> b64_ungroup (b64_groups ns) = Some ns"
proof (induction ns rule: b64_groups.induct)
  case (1 a b c r)
  have "a < 256" "b < 256" "c < 256" using 1(2) by auto
  moreover have "b64_ungroup (b64_groups r) = Some r" using 1 by simp
  ultimately show ?case by simp
next
  case (2 a b)
  have "a < 256" "b < 256" using 2(1) by auto
  then show ?case by simp
qed auto

text \<open>Round trip.\<close>

lemma Decode_Encode: "DecodeString (EncodeToString s) = Some s"
proof -
  let ?ns = "b64_groups (map of_char s) :: nat list"
  have b: "n < 256" if "n \<in> set (map of_char s)" for n :: nat
    using that range_nat_of_char by fastforce
  have lt: "n < 64" if "n \<in> set ?ns" for n using b64_groups_less [OF b that] by simp
  have "filter (\<lambda>c. c \<noteq> CHR 0x0A \<and> c \<noteq> CHR 0x0D) (map b64_char ?ns) = map b64_char ?ns"
    using lt b64_char_no_newline by (auto simp: filter_id_conv)
  moreover have "all_some (map b64_val (map b64_char ?ns)) = Some ?ns"
    using all_some_map [of ?ns "b64_val \<circ> b64_char" id] lt b64_val_char by simp
  moreover have "b64_ungroup ?ns = Some (map of_char s)" by (rule b64_ungroup_groups) (rule b)
  ultimately show ?thesis
    by (simp add: DecodeString_def EncodeToString_def comp_def)
qed

end
