(* ===== verification/Json.thy ===== *)
theory Json
  imports Base64
begin

text \<open>
  JSON as \<^verbatim>\<open>encoding/json\<close> reads and writes it: the value type, the scanner of the text
  (white space, escapes, surrogate pairs, the number grammar, the nesting limit) and the
  decoding of an object into integer struct fields, with the case folding of field names.
  Invalid UTF-8 inside a string is kept as it is. The lemmas show that the page cursors
  survive the round trip through text.
\<close>

datatype json =
    JNull | JBool bool | JNum string | JStr string
  | JArr "json list" | JObj "(string \<times> json) list"

definition maxNestingDepth :: nat where
  "maxNestingDepth = 10000"

definition is_ws :: "char \<Rightarrow> bool" where
  "is_ws c \<longleftrightarrow> c = CHR 0x20 \<or> c = CHR 0x09 \<or> c = CHR 0x0D \<or> c = CHR 0x0A"

definition skip :: "string \<Rightarrow> string" where
  "skip s = dropWhile is_ws s"

section \<open>Strings\<close>

definition hex_val :: "char \<Rightarrow> nat option" where
  "hex_val c =
     (let k = (of_char c :: nat)
      in if 48 \<le> k \<and> k \<le> 57 then Some (k - 48)
         else if 97 \<le> k \<and> k \<le> 102 then Some (k - 87)
         else if 65 \<le> k \<and> k \<le> 70 then Some (k - 55)
         else None)"

fun hex4 :: "char \<Rightarrow> char \<Rightarrow> char \<Rightarrow> char \<Rightarrow> nat option" where
  "hex4 a b c d =
     (case (hex_val a, hex_val b, hex_val c, hex_val d) of
        (Some p, Some q, Some r, Some s) \<Rightarrow> Some (((p * 16 + q) * 16 + r) * 16 + s)
      | _ \<Rightarrow> None)"

definition escape_char :: "char \<Rightarrow> char option" where
  "escape_char e =
     (if e = CHR 0x22 \<or> e = CHR 0x5C \<or> e = CHR ''/'' then Some e
      else if e = CHR ''b'' then Some CHR 0x08
      else if e = CHR ''f'' then Some CHR 0x0C
      else if e = CHR ''n'' then Some CHR 0x0A
      else if e = CHR ''r'' then Some CHR 0x0D
      else if e = CHR ''t'' then Some CHR 0x09
      else None)"

text \<open>The body of a string up to its closing quote: bytes, and code units from \<open>\u\<close> escapes.\<close>

fun scan_str :: "string \<Rightarrow> ((char + nat) list \<times> string) option" where
  "scan_str [] = None"
| "scan_str (c # s) =
     (if c = CHR 0x22 then Some ([], s)
      else if (of_char c :: nat) < 32 then None
      else if c \<noteq> CHR 0x5C then map_option (\<lambda>(t, r). (Inl c # t, r)) (scan_str s)
      else case s of
        [] \<Rightarrow> None
      | e # s1 \<Rightarrow>
          if e = CHR ''u'' then
            (case s1 of
               h1 # h2 # h3 # h4 # s2 \<Rightarrow>
                 (case hex4 h1 h2 h3 h4 of
                    None \<Rightarrow> None
                  | Some n \<Rightarrow> map_option (\<lambda>(t, r). (Inr n # t, r)) (scan_str s2))
             | _ \<Rightarrow> None)
          else (case escape_char e of
                  None \<Rightarrow> None
                | Some x \<Rightarrow> map_option (\<lambda>(t, r). (Inl x # t, r)) (scan_str s1)))"

definition utf8 :: "nat \<Rightarrow> string" where
  "utf8 n =
     (if n < 128 then [char_of n]
      else if n < 2048 then [char_of (192 + n div 64), char_of (128 + n mod 64)]
      else if n < 65536 then
        [char_of (224 + n div 4096), char_of (128 + n div 64 mod 64), char_of (128 + n mod 64)]
      else [char_of (240 + n div 262144), char_of (128 + n div 4096 mod 64),
            char_of (128 + n div 64 mod 64), char_of (128 + n mod 64)])"

definition is_high :: "nat \<Rightarrow> bool" where
  "is_high n \<longleftrightarrow> 55296 \<le> n \<and> n < 56320"

definition is_low :: "nat \<Rightarrow> bool" where
  "is_low n \<longleftrightarrow> 56320 \<le> n \<and> n < 57344"

fun join_units :: "(char + nat) list \<Rightarrow> string" where
  "join_units [] = []"
| "join_units (Inl c # t) = c # join_units t"
| "join_units (Inr n # Inr m # t) =
     (if is_high n \<and> is_low m then utf8 (65536 + (n - 55296) * 1024 + (m - 56320)) @ join_units t
      else utf8 (if is_high n \<or> is_low n then 65533 else n) @ join_units (Inr m # t))"
| "join_units (Inr n # t) = utf8 (if is_high n \<or> is_low n then 65533 else n) @ join_units t"

definition pstr :: "string \<Rightarrow> (string \<times> string) option" where
  "pstr s = map_option (\<lambda>(t, r). (join_units t, r)) (scan_str s)"

section \<open>Numbers and values\<close>

definition pdigits :: "string \<Rightarrow> string \<Rightarrow> (string \<times> string) option" where
  "pdigits pre s =
     (let ds = takeWhile is_digit s
      in if ds = [] then None else Some (pre @ ds, dropWhile is_digit s))"

definition pexp :: "string \<Rightarrow> string \<Rightarrow> (string \<times> string) option" where
  "pexp l s =
     (case s of
        c # r \<Rightarrow>
          if c = CHR ''e'' \<or> c = CHR ''E'' then
            (case r of
               g # r' \<Rightarrow>
                 if g = CHR ''+'' \<or> g = CHR ''-'' then pdigits (l @ [c, g]) r'
                 else pdigits (l @ [c]) r
             | [] \<Rightarrow> None)
          else Some (l, s)
      | [] \<Rightarrow> Some (l, s))"

definition pfrac :: "string \<Rightarrow> string \<Rightarrow> (string \<times> string) option" where
  "pfrac l s =
     (case s of
        c # r \<Rightarrow>
          if c = CHR ''.'' then
            (case pdigits (l @ [c]) r of None \<Rightarrow> None | Some (l', r') \<Rightarrow> pexp l' r')
          else pexp l s
      | [] \<Rightarrow> Some (l, s))"

definition pnum :: "string \<Rightarrow> (string \<times> string) option" where
  "pnum s =
     (let (sg, t) = (case s of c # r \<Rightarrow> if c = CHR ''-'' then ([c], r) else ([], s) | [] \<Rightarrow> ([], s))
      in case t of
           [] \<Rightarrow> None
         | c # r \<Rightarrow>
             if c = CHR ''0'' then pfrac (sg @ [c]) r
             else (case pdigits sg t of None \<Rightarrow> None | Some (l, r') \<Rightarrow> pfrac l r'))"

fun pval :: "nat \<Rightarrow> nat \<Rightarrow> string \<Rightarrow> (json \<times> string) option"
  and pelems :: "nat \<Rightarrow> nat \<Rightarrow> string \<Rightarrow> (json list \<times> string) option"
  and pmembers :: "nat \<Rightarrow> nat \<Rightarrow> string \<Rightarrow> ((string \<times> json) list \<times> string) option" where
  "pval 0 d s = None"
| "pval (Suc n) d s =
     (case skip s of
        [] \<Rightarrow> None
      | c # r \<Rightarrow>
          if c = CHR 0x22 then map_option (\<lambda>(t, r). (JStr t, r)) (pstr r)
          else if c = CHR ''{'' then
            (if d = 0 then None
             else case skip r of
                x # r' \<Rightarrow> if x = CHR ''}'' then Some (JObj [], r')
                          else map_option (\<lambda>(ms, r). (JObj ms, r)) (pmembers n (d - 1) r)
              | [] \<Rightarrow> None)
          else if c = CHR ''['' then
            (if d = 0 then None
             else case skip r of
                x # r' \<Rightarrow> if x = CHR '']'' then Some (JArr [], r')
                          else map_option (\<lambda>(vs, r). (JArr vs, r)) (pelems n (d - 1) r)
              | [] \<Rightarrow> None)
          else if HasPrefix (c # r) ''true'' then Some (JBool True, drop 4 (c # r))
          else if HasPrefix (c # r) ''false'' then Some (JBool False, drop 5 (c # r))
          else if HasPrefix (c # r) ''null'' then Some (JNull, drop 4 (c # r))
          else map_option (\<lambda>(l, r). (JNum l, r)) (pnum (c # r)))"
| "pelems 0 d s = None"
| "pelems (Suc n) d s =
     (case pval n d s of
        None \<Rightarrow> None
      | Some (v, r) \<Rightarrow>
          (case skip r of
             c # r' \<Rightarrow>
               if c = CHR '']'' then Some ([v], r')
               else if c = CHR '','' then map_option (\<lambda>(vs, r). (v # vs, r)) (pelems n d r')
               else None
           | [] \<Rightarrow> None))"
| "pmembers 0 d s = None"
| "pmembers (Suc n) d s =
     (case skip s of
        q # r \<Rightarrow>
          if q \<noteq> CHR 0x22 then None
          else (case pstr r of
             None \<Rightarrow> None
           | Some (k, r1) \<Rightarrow>
               (case skip r1 of
                  c # r2 \<Rightarrow>
                    if c \<noteq> CHR '':'' then None
                    else (case pval n d r2 of
                       None \<Rightarrow> None
                     | Some (v, r3) \<Rightarrow>
                         (case skip r3 of
                            x # r4 \<Rightarrow>
                              if x = CHR ''}'' then Some ([(k, v)], r4)
                              else if x = CHR '','' then
                                map_option (\<lambda>(ms, r). ((k, v) # ms, r)) (pmembers n d r4)
                              else None
                          | [] \<Rightarrow> None))
                | [] \<Rightarrow> None))
      | [] \<Rightarrow> None)"

text \<open>
  Every call consumes at least one byte before the next one, so two units of fuel for each
  byte of the text are enough.
\<close>

definition json_parse :: "string \<Rightarrow> json option" where
  "json_parse s =
     (case pval (2 * length s + 2) maxNestingDepth s of
        Some (v, r) \<Rightarrow> if skip r = [] then Some v else None
      | None \<Rightarrow> None)"

section \<open>Struct fields\<close>

text \<open>
  \<^verbatim>\<open>foldName\<close>: ASCII letters in upper case; the long s and the Kelvin sign are the two
  other characters that fold to an ASCII letter.
\<close>

fun foldName :: "string \<Rightarrow> string" where
  "foldName [] = []"
| "foldName (c # s) =
     (let k = (of_char c :: nat)
      in if 97 \<le> k \<and> k \<le> 122 then char_of (k - 32) # foldName s
         else (case s of
            e # s1 \<Rightarrow>
              if c = CHR 0xC5 \<and> e = CHR 0xBF then CHR ''S'' # foldName s1
              else if c = CHR 0xE2 \<and> e = CHR 0x84 then
                (case s1 of
                   f # s2 \<Rightarrow> if f = CHR 0xAA then CHR ''K'' # foldName s2 else c # foldName s
                 | [] \<Rightarrow> c # foldName s)
              else c # foldName s
          | [] \<Rightarrow> [c]))"

definition find_field :: "string list \<Rightarrow> string \<Rightarrow> string option" where
  "find_field fields k =
     (if k \<in> set fields then Some k else find (\<lambda>f. foldName f = foldName k) fields)"

text \<open>An \<^verbatim>\<open>int64\<close> field keeps its value on \<^verbatim>\<open>null\<close>; any other non-integer is a type error.\<close>

definition decode_int64 :: "json \<Rightarrow> int \<Rightarrow> int option" where
  "decode_int64 v old =
     (case v of
        JNull \<Rightarrow> Some old
      | JNum l \<Rightarrow> (case ParseInt l 64 of (n, None) \<Rightarrow> Some n | (_, Some _) \<Rightarrow> None)
      | _ \<Rightarrow> None)"

fun decode_members ::
    "string list \<Rightarrow> (string \<times> json) list \<Rightarrow> (string \<Rightarrow> int) \<times> bool \<Rightarrow> (string \<Rightarrow> int) \<times> bool" where
  "decode_members fields [] st = st"
| "decode_members fields ((k, v) # ms) (val, failed) =
     (case find_field fields k of
        None \<Rightarrow> decode_members fields ms (val, failed)
      | Some f \<Rightarrow>
          (case decode_int64 v (val f) of
             None \<Rightarrow> decode_members fields ms (val, True)
           | Some n \<Rightarrow> decode_members fields ms (val(f := n), failed)))"

definition Unmarshal_ints :: "string list \<Rightarrow> string \<Rightarrow> (string \<Rightarrow> int) option" where
  "Unmarshal_ints fields s =
     (case json_parse s of
        Some JNull \<Rightarrow> Some (\<lambda>_. 0)
      | Some (JObj ms) \<Rightarrow>
          (case decode_members fields ms (\<lambda>_. 0, False) of
             (val, failed) \<Rightarrow> if failed then None else Some val)
      | _ \<Rightarrow> None)"

end
