(* ===== verification/Cursor.thy ===== *)
theory Cursor
  imports Json
begin

text \<open>
  The segment page cursor of \<^verbatim>\<open>internal/metastore/store.go\<close>: the pair of the last row's
  \<^verbatim>\<open>lower_ns\<close> and \<^verbatim>\<open>id\<close> as JSON in base64. \<open>decode_encodeSegCursor\<close> is the round trip.
\<close>

definition seg_cursor_text :: "int \<Rightarrow> int \<Rightarrow> string" where
  "seg_cursor_text lowerNs segID =
     CHR ''{'' # CHR 0x22 # ''lower_ns'' @ CHR 0x22 # CHR '':'' # fmt_d lowerNs @
     CHR '','' # CHR 0x22 # ''seg_id'' @ CHR 0x22 # CHR '':'' # fmt_d segID @ ''}''"

definition encodeSegCursor :: "int \<Rightarrow> int \<Rightarrow> string" where
  "encodeSegCursor lowerNs segID = EncodeToString (seg_cursor_text lowerNs segID)"

text \<open>The caller replaces every error, so its value is left open.\<close>

definition decodeSegCursor :: "string \<Rightarrow> (int \<times> int) res" where
  "decodeSegCursor s =
     (case DecodeString s of
        None \<Rightarrow> Err (Extern 0)
      | Some b \<Rightarrow>
          (case Unmarshal_ints [''lower_ns'', ''seg_id''] b of
             None \<Rightarrow> Err (Extern 0)
           | Some v \<Rightarrow> Ok (v ''lower_ns'', v ''seg_id'')))"

lemma fmt_d_neg: "x < 0 \<Longrightarrow> fmt_d x = CHR ''-'' # dec (nat (- x))"
  by (simp add: fmt_d_def)

lemma fmt_d_nonneg: "0 \<le> x \<Longrightarrow> fmt_d x = dec (nat x)"
  by (simp add: fmt_d_def)

lemma ParseInt_fmt_d:
  assumes "in_i64 x"
  shows "ParseInt (fmt_d x) 64 = (x, None)"
proof (cases "x < 0")
  case True
  have "ParseUint (dec (nat (- x))) 64 = (- x, None)"
    using assms True ParseUint_digits [of "dec (nat (- x))" 64]
    by (simp add: dec_val_dec dec_digits dec_not_Nil in_i64_def MinInt64_def)
  then show ?thesis
    using assms True by (simp add: ParseInt_def fmt_d_neg in_i64_def MinInt64_def)
next
  case False
  then show ?thesis
    using assms ParseInt_digits [of "dec (nat x)" 64]
    by (simp add: fmt_d_nonneg dec_val_dec dec_digits dec_not_Nil in_i64_def MaxInt64_def)
qed

text \<open>A printed integer before a delimiter is one number token.\<close>

definition delim :: "string \<Rightarrow> bool" where
  "delim r \<longleftrightarrow> (\<exists>c r'. r = c # r' \<and> (c = CHR '','' \<or> c = CHR ''}''))"

lemma pfrac_delim: "delim r \<Longrightarrow> pfrac l r = Some (l, r)"
  by (auto simp: delim_def pfrac_def pexp_def)

lemma pdigits_dec:
  assumes "delim r"
  shows "pdigits l (dec n @ r) = Some (l @ dec n, r)"
proof -
  have "takeWhile is_digit (dec n @ r) = dec n" "dropWhile is_digit (dec n @ r) = r"
    using assms dec_digits [of n]
    by (auto simp: delim_def list_all_iff takeWhile_append dropWhile_append is_digit_def less_eq_char_def)
  then show ?thesis by (simp add: pdigits_def dec_not_Nil)
qed

lemma pnum_dec:
  assumes "delim r"
  shows "(case dec n @ r of [] \<Rightarrow> None
     | c # r' \<Rightarrow> if c = CHR ''0'' then pfrac (sg @ [c]) r'
        else (case pdigits sg (dec n @ r) of None \<Rightarrow> None | Some (l, r') \<Rightarrow> pfrac l r')) =
    Some (sg @ dec n, r)"
proof (cases "n = 0")
  case True
  then show ?thesis using assms by (simp add: dec_0 pfrac_delim)
next
  case False
  then obtain c t where "dec n = c # t" "c \<noteq> CHR ''0''"
    using dec_hd_nonzero [of n] dec_not_Nil [of n] by (cases "dec n") auto
  then show ?thesis using pdigits_dec [OF assms, of sg n] assms by (simp add: pfrac_delim)
qed

lemma pnum_fmt_d:
  assumes "delim r"
  shows "pnum (fmt_d x @ r) = Some (fmt_d x, r)"
proof (cases "x < 0")
  case True
  then show ?thesis
    using pnum_dec [OF assms, where n = "nat (- x)" and sg = "''-''"] by (simp add: pnum_def fmt_d_neg)
next
  case False
  obtain c t where d: "dec (nat x) = c # t" using dec_not_Nil [of "nat x"] by (cases "dec (nat x)") auto
  then have "c \<noteq> CHR ''-''" using dec_digits [of "nat x"] by (auto simp: is_digit_def)
  then show ?thesis
    using pnum_dec [OF assms, where n = "nat x" and sg = "[]"] False unfolding d
    by (auto simp: pnum_def fmt_d_nonneg d split: if_splits)
qed

lemma pval_fmt_d:
  assumes "delim r"
  shows "pval (Suc n) d (fmt_d x @ r) = Some (JNum (fmt_d x), r)"
proof -
  obtain c t where ct: "fmt_d x = c # t" and c: "c = CHR ''-'' \<or> is_digit c"
    using dec_not_Nil [of "nat x"] dec_digits [of "nat x"]
    by (cases "x < 0"; cases "dec (nat x)") (auto simp: fmt_d_neg fmt_d_nonneg)
  then have "skip (fmt_d x @ r) = c # t @ r" "c \<notin> set ''{[tfn''" "c \<noteq> CHR 0x22"
    by (auto simp: skip_def is_ws_def is_digit_def)
  then show ?thesis
    using pnum_fmt_d [OF assms, of x] ct by (auto simp: HasPrefix_def)
qed

text \<open>The text of a cursor parses to its two members.\<close>

lemma pstr_key:
  "pstr (''lower_ns'' @ CHR 0x22 # r) = Some (''lower_ns'', r)"
  "pstr (''seg_id'' @ CHR 0x22 # r) = Some (''seg_id'', r)"
  by (simp_all add: pstr_def)

lemma pmembers_key:
  assumes "pstr (k @ CHR 0x22 # CHR '':'' # r) = Some (k, CHR '':'' # r)"
  shows "pmembers (Suc n) d (CHR 0x22 # k @ CHR 0x22 # CHR '':'' # r) =
    (case pval n d r of None \<Rightarrow> None | Some (v, r3) \<Rightarrow>
      (case skip r3 of
         x # r4 \<Rightarrow> if x = CHR ''}'' then Some ([(k, v)], r4)
           else if x = CHR '','' then map_option (\<lambda>(ms, r). ((k, v) # ms, r)) (pmembers n d r4) else None
       | [] \<Rightarrow> None))"
  using assms by (simp add: skip_def is_ws_def)

lemma json_parse_cursor:
  "json_parse (seg_cursor_text a b) =
     Some (JObj [(''lower_ns'', JNum (fmt_d a)), (''seg_id'', JNum (fmt_d b))])"
proof -
  let ?r2 = "CHR 0x22 # ''seg_id'' @ CHR 0x22 # CHR '':'' # fmt_d b @ ''}''"
  let ?r1 = "CHR 0x22 # ''lower_ns'' @ CHR 0x22 # CHR '':'' # fmt_d a @ CHR '','' # ?r2"
  have t: "seg_cursor_text a b = CHR ''{'' # ?r1" by (simp add: seg_cursor_text_def)
  define n where "n = 2 * length ?r1"
  have fuel: "2 * length (seg_cursor_text a b) + 2 = Suc (Suc (Suc (Suc n)))"
    unfolding t n_def by simp
  have n: "\<exists>m. n = Suc m" unfolding n_def by simp
  have d: "delim (CHR '','' # ?r2)" "delim ''}''" by (auto simp: delim_def)
  have m2: "pmembers (Suc (Suc m)) k ?r2 = Some ([(''seg_id'', JNum (fmt_d b))], [])" for m k
    unfolding pmembers_key [OF pstr_key(2)] pval_fmt_d [OF d(2)] by (simp add: skip_def is_ws_def)
  have m1: "pmembers (Suc (Suc (Suc m))) k ?r1 =
      Some ([(''lower_ns'', JNum (fmt_d a)), (''seg_id'', JNum (fmt_d b))], [])" for m k
    unfolding pmembers_key [OF pstr_key(1)] pval_fmt_d [OF d(1)] using m2 [of m k]
    by (simp add: skip_def is_ws_def del: pmembers.simps)
  have "pval (Suc (Suc (Suc (Suc m)))) maxNestingDepth (CHR ''{'' # ?r1) =
      Some (JObj [(''lower_ns'', JNum (fmt_d a)), (''seg_id'', JNum (fmt_d b))], [])" for m
    unfolding pval.simps(2) using m1 [of m "maxNestingDepth - 1"]
    by (simp add: skip_def is_ws_def maxNestingDepth_def del: pmembers.simps)
  then show ?thesis unfolding json_parse_def fuel unfolding t by (simp add: skip_def)
qed

lemma decode_encodeSegCursor:
  assumes "in_i64 a" "in_i64 b"
  shows "decodeSegCursor (encodeSegCursor a b) = Ok (a, b)"
  using assms
  by (simp add: decodeSegCursor_def encodeSegCursor_def Decode_Encode Unmarshal_ints_def json_parse_cursor
      find_field_def decode_int64_def ParseInt_fmt_d)

end
