(* ===== verification/Database.thy ===== *)
theory Database
  imports Tables Domain Cursor
begin

text \<open>
  The PostgreSQL database as the statements of \<^verbatim>\<open>internal/metastore\<close> use it: the tables of
  \<^verbatim>\<open>migrations\<close> as lists of rows, and transactions. A call of the driver may fail at any
  call site: \<open>flt\<close> gives the error a site returns, by the site's name and the index of the
  loop it stands in. A transaction that does not commit leaves the tables as they were; the
  sequence behind \<^verbatim>\<open>segments.id\<close> is not rolled back. A failed commit may have been applied
  by the server (\<open>commit_applied\<close>). Writers of one flow are serialised by the row lock of
  \<^verbatim>\<open>SELECT ... FOR UPDATE\<close>, so a transaction is one atomic step.
\<close>

record source_row =
  s_id :: uuid
  s_format :: string
  s_label :: "string option"
  s_description :: "string option"
  s_created :: time
  s_updated :: time

record tag_row =
  t_owner :: uuid
  t_name :: string
  t_value :: json

record flow_row =
  f_id :: uuid
  f_source_id :: uuid
  f_format :: string
  f_codec :: "string option"
  f_container :: "string option"
  f_label :: "string option"
  f_description :: "string option"
  f_essence_parameters :: "json option"
  f_container_mapping :: "json option"
  f_avg_bit_rate :: "int option"
  f_max_bit_rate :: "int option"
  f_segment_duration :: "string option"
  f_generation :: "int option"
  f_metadata_version :: "int option"
  f_read_only :: bool
  f_created :: time
  f_metadata_updated :: time
  f_segments_updated :: "time option"
  f_timerange :: "string option"

record collection_row =
  c_flow_id :: uuid
  c_item_id :: uuid
  c_role :: "string option"
  c_container_mapping :: "json option"
  c_sort_order :: nat

record object_row =
  o_id :: string
  o_ref_count :: int
  o_storage_id :: "string option"
  o_reaping :: bool

record segments_row =
  g_id :: int
  g_flow_id :: uuid
  g_object_id :: string
  g_timerange :: string
  g_lower_ns :: int
  g_upper_ns :: int
  g_ts_offset :: string
  g_object_timerange :: "string option"
  g_last_duration :: "string option"
  g_key_frame_count :: "int option"
  g_sample_offset :: "int option"
  g_sample_count :: "int option"
  g_get_urls :: "json option"
  g_created_at :: time

record idempotency_row =
  k_key :: string
  k_body_hash :: string
  k_in_flight :: bool
  k_response_status :: int
  k_response_body :: "json option"
  k_expires_at :: time
  k_acquired_at :: time

record db =
  sources :: "source_row list"
  source_tags :: "tag_row list"
  flows :: "flow_row list"
  flow_tags :: "tag_row list"
  flow_collection :: "collection_row list"
  objects :: "object_row list"
  segments :: "segments_row list"
  idempotency_keys :: "idempotency_row list"
  seg_seq :: int

definition empty_db :: db where
  "empty_db = \<lparr>sources = [], source_tags = [], flows = [], flow_tags = [], flow_collection = [],
     objects = [], segments = [], idempotency_keys = [], seg_seq = 1\<rparr>"

record db_env =
  flt :: "string \<Rightarrow> nat \<Rightarrow> go_error option"
  commit_applied :: bool
  now :: time

definition no_faults :: "db_env \<Rightarrow> bool" where
  "no_faults env \<longleftrightarrow> (\<forall>site i. flt env site i = None)"

section \<open>Statements and transactions\<close>

type_synonym 'a tx = "db \<Rightarrow> 'a res \<times> db"

definition tret :: "'a \<Rightarrow> 'a tx" where
  "tret x = (\<lambda>d. (Ok x, d))"

definition tfail :: "go_error \<Rightarrow> 'a tx" where
  "tfail e = (\<lambda>d. (Err e, d))"

definition tlift :: "'a res \<Rightarrow> 'a tx" where
  "tlift m = (\<lambda>d. (m, d))"

definition tbind :: "'a tx \<Rightarrow> ('a \<Rightarrow> 'b tx) \<Rightarrow> 'b tx" where
  "tbind m f = (\<lambda>d. case m d of
     (Ok x, d') \<Rightarrow> f x d'
   | (Err e, d') \<Rightarrow> (Err e, d')
   | (Panic p, d') \<Rightarrow> (Panic p, d'))"

definition twrap :: "(go_error \<Rightarrow> go_error) \<Rightarrow> 'a tx \<Rightarrow> 'a tx" where
  "twrap g m = (\<lambda>d. case m d of (r, d') \<Rightarrow> (rwrap g r, d'))"

text \<open>A read, and a statement that may change the tables.\<close>

definition tread :: "(db \<Rightarrow> 'a res) \<Rightarrow> 'a tx" where
  "tread q = (\<lambda>d. (q d, d))"

definition tcall :: "db_env \<Rightarrow> string \<Rightarrow> nat \<Rightarrow> 'a tx \<Rightarrow> 'a tx" where
  "tcall env site i q = (case flt env site i of Some e \<Rightarrow> tfail e | None \<Rightarrow> q)"

text \<open>\<^verbatim>\<open>for i := range xs\<close>, with the index.\<close>

fun tfor :: "(nat \<Rightarrow> 'a \<Rightarrow> unit tx) \<Rightarrow> nat \<Rightarrow> 'a list \<Rightarrow> unit tx" where
  "tfor body i [] = tret ()"
| "tfor body i (x # xs) = tbind (body i x) (\<lambda>_. tfor body (Suc i) xs)"

definition rollback :: "db \<Rightarrow> db \<Rightarrow> db" where
  "rollback d0 d = d0\<lparr>seg_seq := seg_seq d\<rparr>"

text \<open>
  \<^verbatim>\<open>Begin\<close>, the deferred \<^verbatim>\<open>Rollback\<close>, and \<^verbatim>\<open>Commit\<close>. The body says whether it reached
  the commit: a return before it, with or without an error, rolls back.
\<close>

definition in_tx ::
    "db_env \<Rightarrow> (go_error \<Rightarrow> go_error) \<Rightarrow> (go_error \<Rightarrow> go_error) \<Rightarrow> ('a \<times> bool) tx \<Rightarrow> 'a tx" where
  "in_tx env wbegin wcommit body = (\<lambda>d0.
     case flt env ''begin'' 0 of
       Some e \<Rightarrow> (Err (wbegin e), d0)
     | None \<Rightarrow>
         (case body d0 of
            (Ok (x, commits), d) \<Rightarrow>
              if \<not> commits then (Ok x, rollback d0 d)
              else (case flt env ''commit'' 0 of
                 None \<Rightarrow> (Ok x, d)
               | Some e \<Rightarrow> (Err (wcommit e), if commit_applied env then d else rollback d0 d))
          | (Err e, d) \<Rightarrow> (Err e, rollback d0 d)
          | (Panic p, d) \<Rightarrow> (Panic p, rollback d0 d)))"

lemmas tx_defs = tret_def tfail_def tlift_def tread_def

named_theorems tx_simps

lemma tbind_Ok [tx_simps]: "tbind m f d = (Ok y, d') \<longleftrightarrow> (\<exists>x d1. m d = (Ok x, d1) \<and> f x d1 = (Ok y, d'))"
  by (auto simp: tbind_def split: prod.split res.split)

lemma tbind_Err [tx_simps]:
  "tbind m f d = (Err e, d') \<longleftrightarrow> m d = (Err e, d') \<or> (\<exists>x d1. m d = (Ok x, d1) \<and> f x d1 = (Err e, d'))"
  by (auto simp: tbind_def split: prod.split res.split)

lemma tbind_Panic [tx_simps]:
  "tbind m f d = (Panic p, d') \<longleftrightarrow> m d = (Panic p, d') \<or> (\<exists>x d1. m d = (Ok x, d1) \<and> f x d1 = (Panic p, d'))"
  by (auto simp: tbind_def split: prod.split res.split)

lemma twrap_Ok [tx_simps]: "twrap g m d = (Ok x, d') \<longleftrightarrow> m d = (Ok x, d')"
  by (auto simp: twrap_def res_simps split: prod.split)

lemma twrap_Err [tx_simps]: "twrap g m d = (Err e, d') \<longleftrightarrow> (\<exists>e'. m d = (Err e', d') \<and> e = g e')"
  by (auto simp: twrap_def res_simps split: prod.split)

lemma twrap_Panic [tx_simps]: "twrap g m d = (Panic p, d') \<longleftrightarrow> m d = (Panic p, d')"
  by (auto simp: twrap_def res_simps split: prod.split)

lemma tret_eq [tx_simps]: "tret x d = (r, d') \<longleftrightarrow> r = Ok x \<and> d' = d"
  by (auto simp: tret_def)

lemma tfail_eq [tx_simps]: "tfail e d = (r, d') \<longleftrightarrow> r = Err e \<and> d' = d"
  by (auto simp: tfail_def)

lemma tlift_eq [tx_simps]: "tlift m d = (r, d') \<longleftrightarrow> m = r \<and> d' = d"
  by (auto simp: tlift_def)

lemma tread_eq [tx_simps]: "tread q d = (r, d') \<longleftrightarrow> q d = r \<and> d' = d"
  by (auto simp: tread_def)

lemma tcall_eq [tx_simps]:
  "tcall env site i q d = (r, d') \<longleftrightarrow>
     (case flt env site i of Some e \<Rightarrow> r = Err e \<and> d' = d | None \<Rightarrow> q d = (r, d'))"
  by (auto simp: tcall_def tfail_def split: option.split)

lemma tcall_no_faults: "no_faults env \<Longrightarrow> tcall env site i q = q"
  by (simp add: no_faults_def tcall_def)

lemma rollback_rollback [simp]: "rollback d0 (rollback d1 d) = rollback d0 d"
  by (simp add: rollback_def)

lemma rollback_self [simp]: "rollback d d = d"
  by (simp add: rollback_def)

text \<open>The two ways a transaction ends: nothing kept, or the state its body reached.\<close>

lemma in_tx_cases:
  assumes "in_tx env wb wc body d0 = (r, d')"
  obtains (begin_failed) e where "flt env ''begin'' 0 = Some e" "r = Err (wb e)" "d' = d0"
  | (aborted) d where "flt env ''begin'' 0 = None" "d' = rollback d0 d"
      "(\<exists>e. r = Err e \<and> body d0 = (Err e, d)) \<or> (\<exists>p. r = Panic p \<and> body d0 = (Panic p, d)) \<or>
       (\<exists>x. r = Ok x \<and> body d0 = (Ok (x, False), d))"
  | (commit_failed) x e d where "flt env ''begin'' 0 = None" "body d0 = (Ok (x, True), d)"
      "flt env ''commit'' 0 = Some e" "r = Err (wc e)"
      "d' = (if commit_applied env then d else rollback d0 d)"
  | (committed) x where "flt env ''begin'' 0 = None" "body d0 = (Ok (x, True), d')"
      "flt env ''commit'' 0 = None" "r = Ok x"
  using assms unfolding in_tx_def
  by (auto split: option.splits prod.splits res.splits if_splits)

lemma in_tx_no_faults:
  "no_faults env \<Longrightarrow> in_tx env wb wc body d0 =
     (case body d0 of
        (Ok (x, commits), d) \<Rightarrow> (Ok x, if commits then d else rollback d0 d)
      | (Err e, d) \<Rightarrow> (Err e, rollback d0 d)
      | (Panic p, d) \<Rightarrow> (Panic p, rollback d0 d))"
  by (auto simp: in_tx_def no_faults_def split: prod.split res.split)

lemma tfor_invariant:
  assumes "tfor body i xs d = (Ok (), d')" "P i d"
    and "\<And>j x d d'. j < length xs \<Longrightarrow> x = xs ! j \<Longrightarrow> body (i + j) x d = (Ok (), d') \<Longrightarrow> P (i + j) d \<Longrightarrow> P (i + j + 1) d'"
  shows "P (i + length xs) d'"
  using assms
proof (induction xs arbitrary: i d)
  case Nil
  then show ?case by (simp add: tx_simps)
next
  case (Cons x xs)
  from Cons.prems(1) obtain d1 where d1: "body i x d = (Ok (), d1)" "tfor body (Suc i) xs d1 = (Ok (), d')"
    by (auto simp: tx_simps)
  have "P (Suc i) d1" using Cons.prems(2,3) d1(1) by (metis Suc_eq_plus1 add.right_neutral length_greater_0_conv list.distinct(1) nth_Cons_0)
  moreover have "P (Suc i + j + 1) d'" if "j < length xs" "y = xs ! j" "body (Suc i + j) y d = (Ok (), d')" "P (Suc i + j) d" for j y d d'
    using Cons.prems(3) [of "Suc j" y d d'] that by simp
  ultimately have "P (Suc i + length xs) d'" using Cons.IH [OF d1(2)] by blast
  then show ?case by simp
qed

section \<open>Relations that every statement keeps\<close>

definition tx_rel :: "(db \<Rightarrow> db \<Rightarrow> bool) \<Rightarrow> 'a tx \<Rightarrow> bool" where
  "tx_rel R m \<longleftrightarrow> (\<forall>d. R d (snd (m d)))"

lemma tx_relD: "tx_rel R m \<Longrightarrow> m d = (r, d') \<Longrightarrow> R d d'"
  unfolding tx_rel_def by (metis snd_conv)

text \<open>A relation between the tables before and after that is reflexive and transitive passes
  through the structure of a transaction.\<close>

locale tx_relation =
  fixes R :: "db \<Rightarrow> db \<Rightarrow> bool"
  assumes refl: "R d d"
    and trans: "R a b \<Longrightarrow> R b c \<Longrightarrow> R a c"
begin

lemma basic: "tx_rel R (tret x)" "tx_rel R (tfail e)" "tx_rel R (tlift m)" "tx_rel R (tread q)"
  by (simp_all add: tx_rel_def tx_defs refl)

lemma bind:
  assumes "tx_rel R m" "\<And>x. tx_rel R (f x)"
  shows "tx_rel R (tbind m f)"
  unfolding tx_rel_def
proof
  fix d
  show "R d (snd (tbind m f d))"
  proof (cases "m d")
    case (Pair r d1)
    then have "R d d1" using tx_relD [OF assms(1)] by blast
    moreover have "R d1 (snd (f x d1))" for x using assms(2) by (simp add: tx_rel_def)
    ultimately show ?thesis using Pair by (auto simp: tbind_def intro: trans split: res.split)
  qed
qed

lemma wrap: "tx_rel R m \<Longrightarrow> tx_rel R (twrap g m)"
  by (auto simp: tx_rel_def twrap_def split: prod.split) (metis snd_conv)

lemma call: "tx_rel R m \<Longrightarrow> tx_rel R (tcall env site i m)"
  by (auto simp: tcall_def tx_rel_def tfail_def refl split: option.split)

lemma loop: "(\<And>i x. tx_rel R (body i x)) \<Longrightarrow> tx_rel R (tfor body i xs)"
  by (induction xs arbitrary: i) (auto intro: basic bind)

lemmas rules = basic bind wrap call loop

end

interpretation seq_grows: tx_relation "\<lambda>a b. seg_seq a \<le> seg_seq b"
  by unfold_locales auto

interpretation unchanged: tx_relation "(=)"
  by unfold_locales auto

abbreviation seq_mono :: "'a tx \<Rightarrow> bool" where
  "seq_mono \<equiv> tx_rel (\<lambda>a b. seg_seq a \<le> seg_seq b)"

abbreviation reads_only :: "'a tx \<Rightarrow> bool" where
  "reads_only \<equiv> tx_rel (=)"

end
