(* ===== verification/Seg_Store.thy ===== *)
theory Seg_Store
  imports Database "HOL-Library.Product_Lexorder"
begin

text \<open>
  The segment store of \<^verbatim>\<open>internal/metastore/segments.go\<close>: \<^verbatim>\<open>InsertSegments\<close>,
  \<^verbatim>\<open>ListSegments\<close>, \<^verbatim>\<open>DeleteSegmentsByTimerange\<close> and the functions they call, statement by
  statement. This theory holds the definitions and what each step does; \<^verbatim>\<open>Seg_Invariant\<close>
  and \<^verbatim>\<open>Seg_Listing\<close> hold the theorems about whole operations. Where SQL leaves the choice
  among rows with equal sort keys open, the model takes the first in table order.
\<close>

record InsertBatch =
  ib_FlowID :: uuid
  ib_Segments :: "Segment list"
  ControlledStorageID :: string

record RejectReason =
  rr_Type :: string
  rr_Detail :: string

record InsertResult =
  AcceptedIndices :: "nat list"
  RejectedIndices :: "nat list"
  RejectReasons :: "RejectReason list"

record ListQuery =
  lq_FlowID :: uuid
  lq_Timerange :: "TimeRange option"
  lq_ObjectID :: "string option"
  lq_ReverseOrder :: bool
  lq_VerboseStorage :: bool
  lq_AcceptGetURLs :: "string list option"
  lq_AcceptStorageIDs :: "string list option"
  lq_Presigned :: "bool option"
  lq_IncludeObjectTimerange :: bool
  lq_Page :: string
  lq_Limit :: int

record DeleteQuery =
  dq_FlowID :: uuid
  dq_Timerange :: TimeRange
  dq_ObjectID :: "string option"

record FlowGuard =
  fg_FlowID :: uuid
  Exists :: bool
  ReadOnly :: bool

definition hardLimit :: int where
  "hardLimit = 1000"

section \<open>Flow guards\<close>

definition flow_guard :: "uuid \<Rightarrow> db \<Rightarrow> FlowGuard" where
  "flow_guard fid d =
     (case rows_find f_id fid (flows d) of
        None \<Rightarrow> \<lparr>fg_FlowID = fid, Exists = False, ReadOnly = False\<rparr>
      | Some r \<Rightarrow> \<lparr>fg_FlowID = fid, Exists = True, ReadOnly = f_read_only r\<rparr>)"

definition GetFlowForSegmentWrite :: "db_env \<Rightarrow> uuid \<Rightarrow> FlowGuard tx" where
  "GetFlowForSegmentWrite env fid =
     twrap (\<lambda>e. Errorf [Lit ''metastore: GetFlowForSegmentWrite: '', W e])
       (tcall env ''lock flow'' 0 (tread (\<lambda>d. Ok (flow_guard fid d))))"

definition GetFlowForSegmentRead :: "db_env \<Rightarrow> uuid \<Rightarrow> FlowGuard tx" where
  "GetFlowForSegmentRead env fid =
     twrap (\<lambda>e. Errorf [Lit ''metastore: GetFlowForSegmentRead: '', W e])
       (tcall env ''read flow'' 0 (tread (\<lambda>d. Ok (flow_guard fid d))))"

section \<open>Bounds\<close>

definition segmentBounds :: "Segment list \<Rightarrow> NsBounds list res" where
  "segmentBounds segs =
     rmap (\<lambda>(i, seg).
       if TimerangeRaw seg = [] then
         Err (Errorf [Lit ''metastore: InsertSegments: segment '', D (int i),
           Lit '' has no client timerange string: '', W (Sentinel ErrBadInput)])
       else rwrap (\<lambda>e. Errorf [Lit ''metastore: InsertSegments: segment '', D (int i), Lit '' ('',
                     S (TimerangeRaw seg), Lit ''): '', W e])
              (TimeRange_NsBounds (Timerange seg)))
       (enumerate 0 segs)"

definition boundsOverlap :: "NsBounds \<Rightarrow> NsBounds \<Rightarrow> bool" where
  "boundsOverlap a b \<longleftrightarrow>
     (LowerUnbounded a \<or> UpperUnbounded b \<or> Lower a < Upper b) \<and>
     (LowerUnbounded b \<or> UpperUnbounded a \<or> Lower b < Upper a)"

text \<open>The first pair, in the order of the two nested loops, that overlaps.\<close>

definition index_pairs :: "nat \<Rightarrow> (nat \<times> nat) list" where
  "index_pairs n = concat (map (\<lambda>i. map (\<lambda>j. (i, j)) [Suc i..<n]) [0..<n])"

definition batch_overlap :: "NsBounds list \<Rightarrow> (nat \<times> nat) option" where
  "batch_overlap bounds =
     find (\<lambda>(i, j). boundsOverlap (bounds ! i) (bounds ! j)) (index_pairs (length bounds))"

definition lowerParam :: "NsBounds \<Rightarrow> int option" where
  "lowerParam b = (if LowerUnbounded b then None else Some (Lower b))"

definition upperParam :: "NsBounds \<Rightarrow> int option" where
  "upperParam b = (if UpperUnbounded b then None else Some (Upper b))"

definition queryBounds :: "TimeRange \<Rightarrow> (int option \<times> int option \<times> bool) res" where
  "queryBounds tr =
     (if IsEmpty tr then Ok (None, None, True)
      else rbind (TimeRange_NsBounds tr) (\<lambda>b. Ok (lowerParam b, upperParam b, False)))"

definition overlapCond :: "int option \<Rightarrow> int option \<Rightarrow> segments_row \<Rightarrow> bool" where
  "overlapCond lo hi g \<longleftrightarrow>
     (case hi of None \<Rightarrow> True | Some h \<Rightarrow> g_lower_ns g < h) \<and>
     (case lo of None \<Rightarrow> True | Some l \<Rightarrow> g_upper_ns g > l)"

definition nullIfEmpty :: "string \<Rightarrow> string option" where
  "nullIfEmpty s = (if s = [] then None else Some s)"

text \<open>\<^verbatim>\<open>int8range(lo, hi)\<close>: NULL is an open side, and a lower bound above the upper is an error.\<close>

definition int8range :: "int option \<Rightarrow> int option \<Rightarrow> (int option \<times> int option) res" where
  "int8range lo hi =
     (case (lo, hi) of
        (Some l, Some h) \<Rightarrow> if h < l then Err (PgError ''22000'') else Ok (lo, hi)
      | _ \<Rightarrow> Ok (lo, hi))"

definition range_empty :: "int option \<times> int option \<Rightarrow> bool" where
  "range_empty r = (case r of (Some l, Some h) \<Rightarrow> l = h | _ \<Rightarrow> False)"

definition below :: "int option \<Rightarrow> int option \<Rightarrow> bool" where
  "below lo hi = (case (lo, hi) of (Some l, Some h) \<Rightarrow> l < h | _ \<Rightarrow> True)"

definition ranges_overlap :: "int option \<times> int option \<Rightarrow> int option \<times> int option \<Rightarrow> bool" where
  "ranges_overlap a b \<longleftrightarrow>
     \<not> range_empty a \<and> \<not> range_empty b \<and> below (fst a) (snd b) \<and> below (fst b) (snd a)"

definition existingOverlap :: "uuid \<Rightarrow> int option \<Rightarrow> int option \<Rightarrow> db \<Rightarrow> string option res" where
  "existingOverlap fid lo hi d =
     rbind (int8range lo hi) (\<lambda>q.
       Ok (map_option g_timerange
         (find (\<lambda>g. g_flow_id g = fid \<and> ranges_overlap (Some (g_lower_ns g), Some (g_upper_ns g)) q)
            (segments d))))"

section \<open>JSON of the URLs\<close>

definition marshal_wire :: "GetURL \<Rightarrow> json" where
  "marshal_wire u = JObj ((''url'', JStr (URL u)) #
     (if Label u = [] then [] else [(''label'', JStr (Label u))]) @
     (if Controlled u then [(''controlled'', JBool True)] else []))"

definition marshalGetURLs :: "GetURL list \<Rightarrow> json option" where
  "marshalGetURLs g = (if g = [] then None else Some (JArr (map marshal_wire g)))"

definition wire_type_error :: go_error where
  "wire_type_error = Errorf [Lit ''json: cannot unmarshal value into Go struct field'']"

fun unmarshal_field :: "string \<Rightarrow> json \<Rightarrow> GetURL \<Rightarrow> GetURL option" where
  "unmarshal_field f JNull u = Some u"
| "unmarshal_field f (JStr s) u =
     (if f = ''url'' then Some (u\<lparr>URL := s\<rparr>)
      else if f = ''label'' then Some (u\<lparr>Label := s\<rparr>) else None)"
| "unmarshal_field f (JBool b) u = (if f = ''controlled'' then Some (u\<lparr>Controlled := b\<rparr>) else None)"
| "unmarshal_field f v u = None"

fun unmarshal_members :: "(string \<times> json) list \<Rightarrow> GetURL \<times> bool \<Rightarrow> GetURL \<times> bool" where
  "unmarshal_members [] st = st"
| "unmarshal_members ((k, v) # ms) (u, failed) =
     (case find_field [''url'', ''label'', ''controlled''] k of
        None \<Rightarrow> unmarshal_members ms (u, failed)
      | Some f \<Rightarrow>
          (case unmarshal_field f v u of
             None \<Rightarrow> unmarshal_members ms (u, True)
           | Some u' \<Rightarrow> unmarshal_members ms (u', failed)))"

definition unmarshal_wire :: "json \<Rightarrow> GetURL res" where
  "unmarshal_wire v =
     (let zero = \<lparr>URL = [], Label = [], Controlled = False\<rparr>
      in case v of
           JNull \<Rightarrow> Ok zero
         | JObj ms \<Rightarrow> (case unmarshal_members ms (zero, False) of
             (u, failed) \<Rightarrow> if failed then Err wire_type_error else Ok u)
         | _ \<Rightarrow> Err wire_type_error)"

definition unmarshalGetURLs :: "json \<Rightarrow> GetURL list res" where
  "unmarshalGetURLs b =
     (case b of
        JNull \<Rightarrow> Ok []
      | JArr vs \<Rightarrow> rmap unmarshal_wire vs
      | _ \<Rightarrow> Err wire_type_error)"

section \<open>Containment of object ranges\<close>

definition compareTS :: "Timestamp \<Rightarrow> Timestamp \<Rightarrow> int" where
  "compareTS a b =
     (if Seconds a < Seconds b then -1
      else if Seconds a > Seconds b then 1
      else if Nanoseconds a < Nanoseconds b then -1
      else if Nanoseconds a > Nanoseconds b then 1
      else 0)"

definition innerStartLess :: "TimeRange \<Rightarrow> TimeRange \<Rightarrow> bool res" where
  "innerStartLess outer inner =
     rbind (deref (Start inner)) (\<lambda>i. rbind (deref (Start outer)) (\<lambda>out.
       let cmp = compareTS i out
       in if cmp < 0 then Ok True
          else if cmp > 0 then Ok False
          else Ok (StartType outer = Exclusive \<and> StartType inner = Inclusive)))"

definition innerEndGreater :: "TimeRange \<Rightarrow> TimeRange \<Rightarrow> bool res" where
  "innerEndGreater outer inner =
     rbind (deref (End inner)) (\<lambda>i. rbind (deref (End outer)) (\<lambda>out.
       let cmp = compareTS i out
       in if cmp > 0 then Ok True
          else if cmp < 0 then Ok False
          else Ok (EndType outer = Exclusive \<and> EndType inner = Inclusive)))"

definition rangeContains :: "TimeRange \<Rightarrow> TimeRange \<Rightarrow> bool res" where
  "rangeContains outer inner =
     (if IsEternity outer then Ok True
      else if IsEmpty inner then Ok True
      else if IsEternity inner then Ok False
      else rbind
        (if StartType outer \<noteq> Unbounded then
           if StartType inner = Unbounded then Ok True else innerStartLess outer inner
         else Ok False)
        (\<lambda>below. if below then Ok False
          else rbind
            (if EndType outer \<noteq> Unbounded then
               if EndType inner = Unbounded then Ok True else innerEndGreater outer inner
             else Ok False)
            (\<lambda>above. Ok (\<not> above))))"

section \<open>Statements on the tables\<close>

text \<open>\<^verbatim>\<open>ORDER BY k ASC LIMIT 1\<close> and \<^verbatim>\<open>ORDER BY k DESC LIMIT 1\<close>.\<close>

definition first_by :: "('r \<Rightarrow> 'k::linorder) \<Rightarrow> 'r list \<Rightarrow> 'r option" where
  "first_by k rows = (case sort_key k rows of [] \<Rightarrow> None | r # _ \<Rightarrow> Some r)"

definition last_by :: "('r \<Rightarrow> 'k::linorder) \<Rightarrow> 'r list \<Rightarrow> 'r option" where
  "last_by k rows = (case rev (sort_key k rows) of [] \<Rightarrow> None | r # _ \<Rightarrow> Some r)"

definition int4_ok :: "int \<Rightarrow> bool" where
  "int4_ok x \<longleftrightarrow> -2147483648 \<le> x \<and> x \<le> 2147483647"

text \<open>
  The race-aware upsert. The result is the \<^verbatim>\<open>RETURNING\<close> row, absent when the conflicting row
  is being reaped; a count past the column's width is error 22003.
\<close>

definition upsert_object :: "string \<Rightarrow> string option \<Rightarrow> bool option tx" where
  "upsert_object oid sid = (\<lambda>d.
     case rows_find o_id oid (objects d) of
       None \<Rightarrow> (Ok (Some True), d\<lparr>objects := rows_insert
         \<lparr>o_id = oid, o_ref_count = 1, o_storage_id = sid, o_reaping = False\<rparr> (objects d)\<rparr>)
     | Some ob \<Rightarrow>
         if o_reaping ob then (Ok None, d)
         else if \<not> int4_ok (o_ref_count ob + 1) then (Err (PgError ''22003''), d)
         else (Ok (Some False), d\<lparr>objects := rows_update o_id oid
           (\<lambda>ob. ob\<lparr>o_ref_count := o_ref_count ob + 1\<rparr>) (objects d)\<rparr>))"

definition decrement_object :: "string \<Rightarrow> int \<Rightarrow> unit tx" where
  "decrement_object oid n = (\<lambda>d.
     if (case rows_find o_id oid (objects d) of
           None \<Rightarrow> False | Some ob \<Rightarrow> \<not> int4_ok (o_ref_count ob - n))
     then (Err (PgError ''22003''), d)
     else (Ok (), d\<lparr>objects := rows_update o_id oid
       (\<lambda>ob. ob\<lparr>o_ref_count := o_ref_count ob - n\<rparr>) (objects d)\<rparr>))"

definition stored_object_timerange :: "string \<Rightarrow> db \<Rightarrow> string option" where
  "stored_object_timerange oid d =
     Option.bind (first_by g_created_at
       (filter (\<lambda>g. g_object_id g = oid \<and> g_object_timerange g \<noteq> None) (segments d)))
       g_object_timerange"

text \<open>The driver refuses a key frame count that does not fit the column before it sends the row.\<close>

definition encode_error :: go_error where
  "encode_error = Extern 0"

definition segment_row_of ::
    "int \<Rightarrow> time \<Rightarrow> uuid \<Rightarrow> int \<Rightarrow> int \<Rightarrow> Segment \<Rightarrow> segments_row" where
  "segment_row_of gid created fid lo hi seg =
     \<lparr>g_id = gid, g_flow_id = fid, g_object_id = ObjectID seg, g_timerange = TimerangeRaw seg,
      g_lower_ns = lo, g_upper_ns = hi, g_ts_offset = TSOffsetRaw seg,
      g_object_timerange = nullIfEmpty (ObjectTimerangeRaw seg),
      g_last_duration = nullIfEmpty (LastDurationRaw seg),
      g_key_frame_count = KeyFrameCount seg,
      g_sample_offset = SampleOffset seg, g_sample_count = SampleCount seg,
      g_get_urls = marshalGetURLs (GetURLs seg), g_created_at = created\<rparr>"

text \<open>
  \<^verbatim>\<open>INSERT INTO segments\<close> with the constraints of the migrations: the limit of the
  \<^verbatim>\<open>BIGSERIAL\<close> sequence (2200H), NOT NULL bounds (23502),
  \<^verbatim>\<open>segments_bounds_nonempty\<close> (23514), \<^verbatim>\<open>no_segment_overlap\<close> (23P01), the foreign keys (23503).
\<close>

definition insert_segment :: "db_env \<Rightarrow> uuid \<Rightarrow> NsBounds \<Rightarrow> Segment \<Rightarrow> unit tx" where
  "insert_segment env fid b seg = (\<lambda>d.
     if (case KeyFrameCount seg of None \<Rightarrow> False | Some k \<Rightarrow> \<not> int4_ok k) then (Err encode_error, d)
     else if seg_seq d > MaxInt64 then (Err (PgError ''2200H''), d)
     else
       let d1 = d\<lparr>seg_seq := seg_seq d + 1\<rparr>
       in case (lowerParam b, upperParam b) of
            (Some lo, Some hi) \<Rightarrow>
              if \<not> hi > lo then (Err (PgError ''23514''), d1)
              else if \<exists>g \<in> set (segments d). g_flow_id g = fid \<and>
                  ranges_overlap (Some (g_lower_ns g), Some (g_upper_ns g)) (Some lo, Some hi)
                then (Err (PgError ''23P01''), d1)
              else if rows_find f_id fid (flows d) = None \<or> rows_find o_id (ObjectID seg) (objects d) = None
                then (Err (PgError ''23503''), d1)
              else (Ok (), d1\<lparr>segments :=
                rows_insert (segment_row_of (seg_seq d) (now env) fid lo hi seg) (segments d)\<rparr>)
          | _ \<Rightarrow> (Err (PgError ''23502''), d1))"

section \<open>The span of a flow\<close>

definition joinSpan :: "TimeRange \<Rightarrow> TimeRange \<Rightarrow> TimeRange" where
  "joinSpan first final =
     \<lparr>Start = Start first, StartType = StartType first, End = End final, EndType = EndType final\<rparr>"

definition flow_rows :: "uuid \<Rightarrow> db \<Rightarrow> segments_row list" where
  "flow_rows fid d = filter (\<lambda>g. g_flow_id g = fid) (segments d)"

definition span_of_rows :: "segments_row list \<Rightarrow> string option res" where
  "span_of_rows rows =
     (case (first_by g_lower_ns rows, last_by g_lower_ns rows) of
        (Some first, Some final) \<Rightarrow>
          rbind (rwrap (\<lambda>e. Errorf [Lit ''flow span: parse '', Q (g_timerange first), Lit '': '', W e])
                  (Parse (g_timerange first))) (\<lambda>firstTR.
          rbind (rwrap (\<lambda>e. Errorf [Lit ''flow span: parse '', Q (g_timerange final), Lit '': '', W e])
                  (Parse (g_timerange final))) (\<lambda>lastTR.
          rbind (TimeRange_String (joinSpan firstTR lastTR)) (\<lambda>span. Ok (Some span))))
      | _ \<Rightarrow> Ok None)"

definition flowSpan :: "db_env \<Rightarrow> uuid \<Rightarrow> string option tx" where
  "flowSpan env fid =
     tbind (twrap (\<lambda>e. Errorf [Lit ''flow span: '', W e])
       (tcall env ''flow span'' 0 (tread (\<lambda>d. Ok (flow_rows fid d)))))
       (\<lambda>rows. tlift (span_of_rows rows))"

definition update_flow :: "uuid \<Rightarrow> (flow_row \<Rightarrow> flow_row) \<Rightarrow> unit tx" where
  "update_flow fid f = (\<lambda>d. (Ok (), d\<lparr>flows := rows_update f_id fid f (flows d)\<rparr>))"

definition refreshFlowTimerange :: "db_env \<Rightarrow> uuid \<Rightarrow> unit tx" where
  "refreshFlowTimerange env fid =
     tbind (flowSpan env fid) (\<lambda>span.
       tcall env ''refresh flow'' 0
         (update_flow fid (\<lambda>r. r\<lparr>f_segments_updated := Some (now env), f_timerange := span\<rparr>)))"

section \<open>InsertSegments\<close>

definition overlap_step :: "db_env \<Rightarrow> uuid \<Rightarrow> nat \<Rightarrow> Segment \<times> NsBounds \<Rightarrow> unit tx" where
  "overlap_step env fid i sb =
     (let (seg, b) = sb
      in tbind
        (twrap (\<lambda>e. Errorf [Lit ''metastore: InsertSegments: overlap check: '', W e])
          (tcall env ''overlap check'' i (tread (existingOverlap fid (lowerParam b) (upperParam b)))))
        (\<lambda>found. case found of
           None \<Rightarrow> tret ()
         | Some existingTR \<Rightarrow>
             tfail (Errorf [Lit ''metastore: InsertSegments: segment '', D (int i), Lit '' ('',
               S (TimerangeRaw seg), Lit '') overlaps existing '', S existingTR, Lit '' on flow '', S fid,
               Lit '': '', W (Sentinel ErrSegmentOverlap)])))"

definition object_step :: "db_env \<Rightarrow> string \<Rightarrow> nat \<Rightarrow> Segment \<Rightarrow> unit tx" where
  "object_step env controlledID i seg =
     (if GetURLs seg = [] \<and> controlledID = [] then
        tfail (Errorf [Lit ''metastore: InsertSegments: object '', Q (ObjectID seg), Lit '': '',
          W (Sentinel ErrControlledStorageNotConfigured)])
      else
        let storageID = (if GetURLs seg = [] then Some controlledID else None)
        in tbind
          (twrap (\<lambda>e. Errorf [Lit ''metastore: InsertSegments: object upsert ('', Q (ObjectID seg), Lit ''): '', W e])
            (tcall env ''object upsert'' i (upsert_object (ObjectID seg) storageID)))
          (\<lambda>row. case row of
             None \<Rightarrow> tfail (Errorf [Lit ''metastore: InsertSegments: object '', Q (ObjectID seg),
               Lit '' is being reaped: '', W (Sentinel ErrSegmentObjectReaping)])
           | Some inserted \<Rightarrow> tret ()))"

definition object_timerange_step :: "db_env \<Rightarrow> nat \<Rightarrow> Segment \<Rightarrow> unit tx" where
  "object_timerange_step env i seg =
     (case ObjectTimerange seg of
        None \<Rightarrow> tret ()
      | Some otr \<Rightarrow>
          tbind
            (twrap (\<lambda>e. Errorf [Lit ''metastore: InsertSegments: object_timerange lookup ('',
                       Q (ObjectID seg), Lit ''): '', W e])
              (tcall env ''object_timerange lookup'' i (tread (\<lambda>d. Ok (stored_object_timerange (ObjectID seg) d)))))
            (\<lambda>storedStr. case storedStr of
               None \<Rightarrow> tret ()
             | Some str \<Rightarrow>
                 tbind
                   (twrap (\<lambda>e. Errorf [Lit ''metastore: InsertSegments: parse stored object_timerange '',
                              Q str, Lit '': '', W e]) (tlift (Parse str)))
                   (\<lambda>stored. tbind (tlift (rangeContains stored otr)) (\<lambda>inside.
                      if inside then tret ()
                      else tfail (Errorf [Lit ''metastore: InsertSegments: '',
                        W (New InvalidObjectTimerange
                            [Lit ''segment '', D (int i), Lit '' ('', S (TimerangeRaw seg),
                             Lit ''): object_timerange '', S (ObjectTimerangeRaw seg),
                             Lit '' extends beyond stored '', S str, Lit '' for object '',
                             Q (ObjectID seg)])])))))"

definition insert_step :: "db_env \<Rightarrow> uuid \<Rightarrow> nat \<Rightarrow> Segment \<times> NsBounds \<Rightarrow> unit tx" where
  "insert_step env fid i sb =
     (let (seg, b) = sb
      in twrap
        (\<lambda>e. if errors_As_PgError e = Some ''23P01''
             then Errorf [Lit ''metastore: InsertSegments: segment '', D (int i), Lit '' ('',
               S (TimerangeRaw seg), Lit '') overlaps an existing row (race): '', W (Sentinel ErrSegmentOverlap)]
             else Errorf [Lit ''metastore: InsertSegments: insert seg '', D (int i), Lit '': '', W e])
        (tcall env ''insert seg'' i (insert_segment env fid b seg)))"

definition insert_body ::
    "db_env \<Rightarrow> InsertBatch \<Rightarrow> NsBounds list \<Rightarrow> (InsertResult \<times> bool) tx" where
  "insert_body env batch bounds =
     (let fid = ib_FlowID batch; segs = ib_Segments batch
      in tbind (GetFlowForSegmentWrite env fid) (\<lambda>guard.
         if \<not> Exists guard then
           tfail (Errorf [Lit ''metastore: InsertSegments: flow '', S fid, Lit '': '', W (Sentinel Meta_ErrFlowNotFound)])
         else if ReadOnly guard then
           tfail (Errorf [Lit ''metastore: InsertSegments: flow '', S fid, Lit '': '', W (Sentinel Meta_ErrFlowReadOnly)])
         else
           tbind (tfor (overlap_step env fid) 0 (zip segs bounds)) (\<lambda>_.
           tbind (tfor (object_step env (ControlledStorageID batch)) 0 segs) (\<lambda>_.
           tbind (tfor (object_timerange_step env) 0 segs) (\<lambda>_.
           tbind (tfor (insert_step env fid) 0 (zip segs bounds)) (\<lambda>_.
           tbind (twrap (\<lambda>e. Errorf [Lit ''metastore: InsertSegments: refresh flow: '', W e])
             (refreshFlowTimerange env fid)) (\<lambda>_.
           tret (\<lparr>AcceptedIndices = [0..<length segs], RejectedIndices = [], RejectReasons = []\<rparr>, True))))))))"

definition InsertSegments :: "db_env \<Rightarrow> InsertBatch \<Rightarrow> InsertResult tx" where
  "InsertSegments env batch =
     tbind (tlift (segmentBounds (ib_Segments batch))) (\<lambda>bounds.
       case batch_overlap bounds of
         Some (i, j) \<Rightarrow>
           tfail (Errorf [Lit ''metastore: InsertSegments: segments '', D (int i), Lit '' ('',
             S (TimerangeRaw (ib_Segments batch ! i)), Lit '') and '', D (int j), Lit '' ('',
             S (TimerangeRaw (ib_Segments batch ! j)), Lit '') overlap: '', W (Sentinel ErrSegmentOverlap)])
       | None \<Rightarrow>
           in_tx env
             (\<lambda>e. Errorf [Lit ''metastore: InsertSegments: begin: '', W e])
             (\<lambda>e. Errorf [Lit ''metastore: InsertSegments: commit: '', W e])
             (insert_body env batch bounds))"

section \<open>ListSegments\<close>

record segmentRow =
  seg :: Segment
  lowerNs :: int
  upperNs :: int
  segID :: int

definition pageSpan :: "segmentRow list \<Rightarrow> TimeRange" where
  "pageSpan items =
     (let (first, final) =
        foldl (\<lambda>(first, final) i.
          (if lowerNs (items ! i) < lowerNs (items ! first) then i else first,
           if upperNs (items ! i) > upperNs (items ! final) then i else final))
          (0, 0) [0..<length items]
      in joinSpan (Timerange (seg (items ! first))) (Timerange (seg (items ! final))))"

definition list_err :: "string \<Rightarrow> go_error \<Rightarrow> go_error" where
  "list_err what e = Errorf [Lit (''metastore: ListSegments: '' @ what @ '': ''), W e]"

definition list_parse_err :: "string \<Rightarrow> string \<Rightarrow> go_error \<Rightarrow> go_error" where
  "list_parse_err what str e =
     Errorf [Lit (''metastore: ListSegments: parse '' @ what @ '' ''), Q str, Lit '': '', W e]"

definition parse_opt :: "(string \<Rightarrow> 'a res) \<Rightarrow> string \<Rightarrow> string option \<Rightarrow> 'a option res" where
  "parse_opt parse what p =
     (case p of
        None \<Rightarrow> Ok None
      | Some str \<Rightarrow> rbind (rwrap (list_parse_err what str) (parse str)) (\<lambda>x. Ok (Some x)))"

definition scan_segment :: "segments_row \<Rightarrow> segmentRow res" where
  "scan_segment g =
     rbind (rwrap (list_parse_err ''timerange'' (g_timerange g)) (Parse (g_timerange g))) (\<lambda>tr.
     rbind (parse_opt ParseTimestamp ''ts_offset'' (nullIfEmpty (g_ts_offset g))) (\<lambda>tsOffset.
     rbind (parse_opt Parse ''object_timerange'' (g_object_timerange g)) (\<lambda>otr.
     rbind (parse_opt ParseTimestamp ''last_duration'' (g_last_duration g)) (\<lambda>ld.
     rbind (case g_get_urls g of
              None \<Rightarrow> Ok []
            | Some j \<Rightarrow> rwrap (list_err ''parse get_urls'') (unmarshalGetURLs j)) (\<lambda>urls.
     Ok \<lparr>seg = \<lparr>FlowID = g_flow_id g, ObjectID = g_object_id g, Timerange = tr, TSOffset = tsOffset,
            ObjectTimerange = otr, LastDuration = ld, KeyFrameCount = g_key_frame_count g,
            GetURLs = urls, TimerangeRaw = g_timerange g, TSOffsetRaw = g_ts_offset g,
            ObjectTimerangeRaw = (case g_object_timerange g of None \<Rightarrow> [] | Some str \<Rightarrow> str),
            LastDurationRaw = (case g_last_duration g of None \<Rightarrow> [] | Some str \<Rightarrow> str),
            SampleOffset = g_sample_offset g, SampleCount = g_sample_count g,
            CreatedAt = g_created_at g\<rparr>,
         lowerNs = g_lower_ns g, upperNs = g_upper_ns g, segID = g_id g\<rparr>)))))"

definition scan_row :: "db_env \<Rightarrow> nat \<times> segments_row \<Rightarrow> segmentRow res" where
  "scan_row env ig =
     (case flt env ''list scan'' (fst ig) of
        Some e \<Rightarrow> Err (list_err ''scan'' e)
      | None \<Rightarrow> scan_segment (snd ig))"

definition page_limit :: "int \<Rightarrow> int" where
  "page_limit limit = (if limit \<le> 0 \<or> limit > hardLimit then hardLimit else limit)"

definition row_key :: "segments_row \<Rightarrow> int \<times> int" where
  "row_key g = (g_lower_ns g, g_id g)"

definition list_where ::
    "ListQuery \<Rightarrow> (int option \<times> int option) option \<Rightarrow> (int \<times> int) option \<Rightarrow> segments_row \<Rightarrow> bool" where
  "list_where q bounds cursor g \<longleftrightarrow>
     g_flow_id g = lq_FlowID q \<and>
     (case bounds of None \<Rightarrow> True | Some (lo, hi) \<Rightarrow> overlapCond lo hi g) \<and>
     (case lq_ObjectID q of None \<Rightarrow> True | Some oid \<Rightarrow> g_object_id g = oid) \<and>
     (case cursor of None \<Rightarrow> True
      | Some c \<Rightarrow> if lq_ReverseOrder q then row_key g < c else c < row_key g)"

text \<open>The rows of the query, in its order, before the limit.\<close>

definition list_rows ::
    "ListQuery \<Rightarrow> (int option \<times> int option) option \<Rightarrow> (int \<times> int) option \<Rightarrow> db \<Rightarrow> segments_row list" where
  "list_rows q bounds cursor d =
     (let rows = sort_key row_key (filter (list_where q bounds cursor) (segments d))
      in if lq_ReverseOrder q then rev rows else rows)"

definition empty_page :: "int \<Rightarrow> SegmentPage" where
  "empty_page limit =
     \<lparr>Items = [], NextCursor = [], EffectiveLimit = limit, sp_Timerange = zeroRange, Count = 0\<rparr>"

definition make_page :: "int \<Rightarrow> segmentRow list \<Rightarrow> SegmentPage" where
  "make_page limit items =
     (let next = (if int (length items) > limit
                  then let final = items ! (nat limit - 1) in encodeSegCursor (lowerNs final) (segID final)
                  else []);
          items = take (nat limit) items
      in \<lparr>Items = map seg items, NextCursor = next, EffectiveLimit = limit,
          sp_Timerange = (if items \<noteq> [] then pageSpan items else zeroRange),
          Count = int (length items)\<rparr>)"

definition list_page ::
    "db_env \<Rightarrow> ListQuery \<Rightarrow> int \<Rightarrow> (int option \<times> int option) option \<Rightarrow> (int \<times> int) option \<Rightarrow> SegmentPage tx" where
  "list_page env q limit bounds cursor =
     tbind (twrap (list_err ''query'')
       (tcall env ''list query'' 0
         (tread (\<lambda>d. Ok (take (nat (limit + 1)) (list_rows q bounds cursor d)))))) (\<lambda>rows.
     tbind (tlift (rmap (scan_row env) (enumerate 0 rows))) (\<lambda>items.
     tbind (twrap (list_err ''rows'') (tcall env ''list rows'' 0 (tret ()))) (\<lambda>_.
     tret (make_page limit items))))"

definition ListSegments :: "db_env \<Rightarrow> ListQuery \<Rightarrow> SegmentPage tx" where
  "ListSegments env q =
     tbind (GetFlowForSegmentRead env (lq_FlowID q)) (\<lambda>guard.
     if \<not> Exists guard then
       tfail (Errorf [Lit ''metastore: ListSegments: flow '', S (lq_FlowID q), Lit '': '',
         W (Sentinel Meta_ErrFlowNotFound)])
     else
       let limit = page_limit (lq_Limit q)
       in tbind
         (case lq_Timerange q of
            None \<Rightarrow> tret (None, False)
          | Some tr \<Rightarrow>
              tbind (twrap (list_err ''timerange'') (tlift (queryBounds tr)))
                (\<lambda>(lo, hi, empty). tret (Some (lo, hi), empty)))
         (\<lambda>(bounds, empty).
            if empty then tret (empty_page limit)
            else if lq_Page q = [] then list_page env q limit bounds None
            else (case decodeSegCursor (lq_Page q) of
                    Ok c \<Rightarrow> list_page env q limit bounds (Some c)
                  | Err e \<Rightarrow> tfail (Errorf [Lit ''metastore: ListSegments: '', W (Sentinel ErrInvalidCursor)])
                  | Panic p \<Rightarrow> tlift (Panic p))))"

section \<open>DeleteSegmentsByTimerange\<close>

definition delete_where :: "DeleteQuery \<Rightarrow> int option \<Rightarrow> int option \<Rightarrow> segments_row \<Rightarrow> bool" where
  "delete_where q lo hi g \<longleftrightarrow>
     g_flow_id g = dq_FlowID q \<and>
     (case lo of None \<Rightarrow> True | Some l \<Rightarrow> g_lower_ns g \<ge> l) \<and>
     (case hi of None \<Rightarrow> True | Some h \<Rightarrow> g_upper_ns g \<le> h) \<and>
     (case dq_ObjectID q of None \<Rightarrow> True | Some oid \<Rightarrow> g_object_id g = oid)"

text \<open>\<^verbatim>\<open>DELETE ... RETURNING object_id\<close>, then \<^verbatim>\<open>COUNT(*) ... GROUP BY object_id\<close>.\<close>

definition group_counts :: "string list \<Rightarrow> (string \<times> int) list" where
  "group_counts ids = map (\<lambda>oid. (oid, int (count_list ids oid))) (remdups ids)"

definition delete_segments :: "(segments_row \<Rightarrow> bool) \<Rightarrow> (string \<times> int) list tx" where
  "delete_segments P = (\<lambda>d.
     (Ok (group_counts (map g_object_id (filter P (segments d)))),
      d\<lparr>segments := filter (\<lambda>g. \<not> P g) (segments d)\<rparr>))"

definition delete_err :: "string \<Rightarrow> go_error \<Rightarrow> go_error" where
  "delete_err what e = Errorf [Lit (''metastore: DeleteSegmentsByTimerange: '' @ what @ '': ''), W e]"

definition decrement_step :: "db_env \<Rightarrow> nat \<Rightarrow> string \<times> int \<Rightarrow> unit tx" where
  "decrement_step env i v =
     twrap (delete_err ''decrement ref_count'')
       (tcall env ''decrement ref_count'' i (decrement_object (fst v) (snd v)))"

definition delete_scan_step :: "db_env \<Rightarrow> nat \<Rightarrow> string \<times> int \<Rightarrow> unit tx" where
  "delete_scan_step env i v = twrap (delete_err ''scan'') (tcall env ''delete scan'' i (tret ()))"

definition delete_body :: "db_env \<Rightarrow> DeleteQuery \<Rightarrow> (DeleteResult \<times> bool) tx" where
  "delete_body env q =
     tbind (GetFlowForSegmentWrite env (dq_FlowID q)) (\<lambda>guard.
     if \<not> Exists guard then
       tfail (Errorf [Lit ''metastore: DeleteSegmentsByTimerange: flow '', S (dq_FlowID q), Lit '': '',
         W (Sentinel Meta_ErrFlowNotFound)])
     else if ReadOnly guard then
       tfail (Errorf [Lit ''metastore: DeleteSegmentsByTimerange: flow '', S (dq_FlowID q), Lit '': '',
         W (Sentinel Meta_ErrFlowReadOnly)])
     else
       tbind (twrap (delete_err ''timerange'') (tlift (queryBounds (dq_Timerange q)))) (\<lambda>(lo, hi, empty).
       if empty then tret (\<lparr>DeletedCount = 0\<rparr>, False)
       else
         tbind (twrap (delete_err ''delete'')
           (tcall env ''delete'' 0 (delete_segments (delete_where q lo hi)))) (\<lambda>perObject.
         tbind (tfor (delete_scan_step env) 0 perObject) (\<lambda>_.
         tbind (twrap (delete_err ''rows'') (tcall env ''delete rows'' 0 (tret ()))) (\<lambda>_.
         tbind (tfor (decrement_step env) 0 perObject) (\<lambda>_.
         tbind (twrap (delete_err ''refresh flow'') (refreshFlowTimerange env (dq_FlowID q))) (\<lambda>_.
         tret (\<lparr>DeletedCount = sum_list (map snd perObject)\<rparr>, True))))))))"

definition DeleteSegmentsByTimerange :: "db_env \<Rightarrow> DeleteQuery \<Rightarrow> DeleteResult tx" where
  "DeleteSegmentsByTimerange env q =
     in_tx env (delete_err ''begin'') (delete_err ''commit'') (delete_body env q)"

section \<open>IsObjectRegistered\<close>

definition IsObjectRegistered :: "db_env \<Rightarrow> string \<Rightarrow> bool tx" where
  "IsObjectRegistered env oid =
     twrap (\<lambda>e. Errorf [Lit ''metastore: IsObjectRegistered: '', W e])
       (tcall env ''object registered'' 0
         (tread (\<lambda>d. Ok (\<exists>g \<in> set (segments d). g_object_id g = oid))))"

end
