(* ===== verification/Seg_Invariant.thy ===== *)
theory Seg_Invariant
  imports Seg_Store
begin

text \<open>
  What the writes of the segment store do to the tables. \<open>db_ok\<close> is the invariant of the
  tables, \<open>ref_ok\<close> says that the reference count of every object is the number of segments
  that name it, and \<open>ref_covers\<close> that it is at least that number. The lemmas take
  \<^verbatim>\<open>InsertSegments\<close> and \<^verbatim>\<open>DeleteSegmentsByTimerange\<close> apart into the effect of their loops and
  put them together again as one effect on the tables.
\<close>

interpretation flows_t: keyed_table f_id "rows_unique f_id" "rows_find f_id" rows_insert
    "rows_update f_id" "rows_delete f_id"
  by (rule rows_keyed_table)

interpretation objects_t: keyed_table o_id "rows_unique o_id" "rows_find o_id" rows_insert
    "rows_update o_id" "rows_delete o_id"
  by (rule rows_keyed_table)

section \<open>The invariant\<close>

definition parses :: "(string \<Rightarrow> 'a res) \<Rightarrow> string option \<Rightarrow> bool" where
  "parses parse p = (case p of None \<Rightarrow> True | Some s \<Rightarrow> (case parse s of Ok _ \<Rightarrow> True | _ \<Rightarrow> False))"

definition bounds_of_text :: "string \<Rightarrow> (int \<times> int) option" where
  "bounds_of_text s =
     (case Parse s of
        Ok tr \<Rightarrow>
          (case TimeRange_NsBounds tr of
             Ok b \<Rightarrow> if LowerUnbounded b \<or> UpperUnbounded b then None else Some (Lower b, Upper b)
           | _ \<Rightarrow> None)
      | _ \<Rightarrow> None)"

definition row_ok :: "segments_row \<Rightarrow> bool" where
  "row_ok g \<longleftrightarrow>
     bounds_of_text (g_timerange g) = Some (g_lower_ns g, g_upper_ns g) \<and>
     parses ParseTimestamp (nullIfEmpty (g_ts_offset g)) \<and>
     parses Parse (g_object_timerange g) \<and>
     parses ParseTimestamp (g_last_duration g) \<and>
     (case g_get_urls g of None \<Rightarrow> True | Some j \<Rightarrow> (case unmarshalGetURLs j of Ok _ \<Rightarrow> True | _ \<Rightarrow> False))"

definition apart :: "segments_row \<Rightarrow> segments_row \<Rightarrow> bool" where
  "apart g h \<longleftrightarrow> g_flow_id g = g_flow_id h \<longrightarrow> g_upper_ns g \<le> g_lower_ns h \<or> g_upper_ns h \<le> g_lower_ns g"

definition db_ok :: "db \<Rightarrow> bool" where
  "db_ok d \<longleftrightarrow>
     rows_unique f_id (flows d) \<and> rows_unique o_id (objects d) \<and> rows_unique g_id (segments d) \<and>
     list_all row_ok (segments d) \<and>
     list_all (\<lambda>g. g_id g < seg_seq d \<and> in_i64 (g_id g)) (segments d) \<and> 1 \<le> seg_seq d \<and>
     list_all (\<lambda>g. rows_find f_id (g_flow_id g) (flows d) \<noteq> None) (segments d) \<and>
     list_all (\<lambda>g. rows_find o_id (g_object_id g) (objects d) \<noteq> None) (segments d) \<and>
     sorted_wrt apart (segments d)"

definition references :: "db \<Rightarrow> string \<Rightarrow> int" where
  "references d oid = int (count_list (map g_object_id (segments d)) oid)"

definition ref_ok :: "db \<Rightarrow> bool" where
  "ref_ok d \<longleftrightarrow> list_all (\<lambda>ob. o_ref_count ob = references d (o_id ob)) (objects d)"

definition ref_covers :: "db \<Rightarrow> bool" where
  "ref_covers d \<longleftrightarrow> list_all (\<lambda>ob. o_ref_count ob \<ge> references d (o_id ob)) (objects d)"

definition tables :: "db \<Rightarrow> db" where
  "tables d = d\<lparr>seg_seq := 0\<rparr>"

lemma tables_rollback [simp]: "tables (rollback d0 d) = tables d0"
  by (simp add: tables_def rollback_def)

lemma empty_db_ok: "db_ok empty_db" "ref_ok empty_db" "ref_covers empty_db"
  by (simp_all add: db_ok_def ref_ok_def ref_covers_def empty_db_def rows_unique_def)

lemma apart_sym: "apart g h \<longleftrightarrow> apart h g"
  by (auto simp: apart_def)

section \<open>Overlap\<close>

text \<open>The check on two half-open bounds is the check for a common nanosecond.\<close>

lemma boundsOverlap_iff:
  assumes "wf_bounds a" "wf_bounds b"
  shows "boundsOverlap a b \<longleftrightarrow> half_open a \<inter> half_open b \<noteq> {}"
proof -
  let ?lo = "if LowerUnbounded a then (if LowerUnbounded b then min (Upper a) (Upper b) - 1 else Lower b)
    else if LowerUnbounded b then Lower a else max (Lower a) (Lower b)"
  have "?lo \<in> half_open a \<inter> half_open b" if "boundsOverlap a b"
  proof (cases "LowerUnbounded a \<and> LowerUnbounded b")
    case True
    then show ?thesis using that assms
      by (cases "UpperUnbounded a"; cases "UpperUnbounded b")
        (auto simp: boundsOverlap_def half_open_def wf_bounds_def)
  next
    case False
    then show ?thesis using that assms
      by (cases "LowerUnbounded a"; cases "LowerUnbounded b"; cases "UpperUnbounded a"; cases "UpperUnbounded b")
        (auto simp: boundsOverlap_def half_open_def wf_bounds_def)
  qed
  moreover have "boundsOverlap a b" if "n \<in> half_open a" "n \<in> half_open b" for n
    using that by (auto simp: boundsOverlap_def half_open_def)
  ultimately show ?thesis by blast
qed

lemma ranges_overlap_params:
  assumes "wf_bounds b" "l < h"
  shows "ranges_overlap (Some l, Some h) (lowerParam b, upperParam b) \<longleftrightarrow>
    boundsOverlap \<lparr>Lower = l, Upper = h, LowerUnbounded = False, UpperUnbounded = False\<rparr> b"
  using assms by (auto simp: ranges_overlap_def range_empty_def below_def lowerParam_def upperParam_def
      boundsOverlap_def wf_bounds_def)

lemma index_pairs_iff: "(i, j) \<in> set (index_pairs n) \<longleftrightarrow> i < j \<and> j < n"
  by (auto simp: index_pairs_def intro!: bexI [of _ i])

lemma batch_overlap_None:
  "batch_overlap bs = None \<longleftrightarrow> (\<forall>i j. i < j \<longrightarrow> j < length bs \<longrightarrow> \<not> boundsOverlap (bs ! i) (bs ! j))"
  by (auto simp: batch_overlap_def find_None_iff index_pairs_iff)

lemma batch_overlap_Some:
  "batch_overlap bs = Some (i, j) \<Longrightarrow> i < j \<and> j < length bs \<and> boundsOverlap (bs ! i) (bs ! j)"
  unfolding batch_overlap_def using find_Some_in index_pairs_iff by fastforce

section \<open>Bounds of a batch\<close>

lemma segmentBounds_Ok:
  assumes "segmentBounds segs = Ok bounds"
  shows "length bounds = length segs"
    and "i < length segs \<Longrightarrow> TimerangeRaw (segs ! i) \<noteq> [] \<and> TimeRange_NsBounds (Timerange (segs ! i)) = Ok (bounds ! i)"
proof -
  show "length bounds = length segs"
    using rmap_Ok_length [OF assms [unfolded segmentBounds_def]] by simp
  assume "i < length segs"
  then show "TimerangeRaw (segs ! i) \<noteq> [] \<and> TimeRange_NsBounds (Timerange (segs ! i)) = Ok (bounds ! i)"
    using rmap_Ok_nth [OF assms [unfolded segmentBounds_def], of i]
    by (auto simp: nth_enumerate_eq res_simps split: if_splits)
qed

lemma segmentBounds_no_panic: "segmentBounds segs \<noteq> Panic p"
proof -
  have "rmap f xs \<noteq> Panic p" if "\<And>x. f x \<noteq> Panic p" for f :: "nat \<times> Segment \<Rightarrow> NsBounds res" and xs
    using that by (induction xs) (auto simp: res_simps)
  then show ?thesis
    unfolding segmentBounds_def by (auto simp: res_simps NsBounds_no_panic split: prod.splits)
qed

section \<open>The loops of InsertSegments\<close>

lemma overlap_loop:
  assumes "tfor (overlap_step env fid) i sbs d = (Ok (), d')"
  shows "d' = d \<and> (\<forall>(seg, b) \<in> set sbs. existingOverlap fid (lowerParam b) (upperParam b) d = Ok None)"
  using assms
proof (induction sbs arbitrary: i)
  case Nil
  then show ?case by (simp add: tx_simps)
next
  case (Cons sb sbs)
  obtain seg b where sb: "sb = (seg, b)" by force
  from Cons.prems sb obtain d1 where d1: "overlap_step env fid i (seg, b) d = (Ok (), d1)"
    "tfor (overlap_step env fid) (Suc i) sbs d1 = (Ok (), d')" by (auto simp: tx_simps)
  then have "existingOverlap fid (lowerParam b) (upperParam b) d = Ok None" "d1 = d"
    by (auto simp: tx_simps overlap_step_def split: option.splits)
  then show ?case using Cons.IH d1(2) sb by auto
qed

lemma upsert_object_Ok:
  assumes "upsert_object oid sid d = (Ok (Some x), d')"
  shows "\<exists>objs. d' = d\<lparr>objects := objs\<rparr> \<and>
    (rows_unique o_id (objects d) \<longrightarrow> rows_unique o_id objs) \<and>
    (\<forall>k. rows_find o_id k objs =
      (if k = oid then Some (case rows_find o_id oid (objects d) of
           None \<Rightarrow> \<lparr>o_id = oid, o_ref_count = 1, o_storage_id = sid, o_reaping = False\<rparr>
         | Some ob \<Rightarrow> ob\<lparr>o_ref_count := o_ref_count ob + 1\<rparr>)
       else rows_find o_id k (objects d))) \<and>
    (case rows_find o_id oid (objects d) of None \<Rightarrow> True | Some ob \<Rightarrow> \<not> o_reaping ob)"
proof (cases "rows_find o_id oid (objects d)")
  case None
  then show ?thesis
    using assms objects_t.lookup_insert [where t = "objects d"] objects_t.invar_insert [where t = "objects d"]
    by (auto simp: upsert_object_def)
next
  case (Some ob)
  let ?f = "\<lambda>ob. ob\<lparr>o_ref_count := o_ref_count ob + 1\<rparr>"
  have "d' = d\<lparr>objects := rows_update o_id oid ?f (objects d)\<rparr>" "\<not> o_reaping ob"
    using assms Some by (auto simp: upsert_object_def split: if_splits)
  then show ?thesis
    using Some objects_t.lookup_update [where f = ?f and t = "objects d"]
      objects_t.invar_update [where f = ?f and t = "objects d"]
    by auto
qed

lemma object_step_Ok:
  assumes "object_step env cid i sg d = (Ok (), d')"
  shows "\<exists>x sid. upsert_object (ObjectID sg) sid d = (Ok (Some x), d')"
  using assms by (auto simp: object_step_def tx_simps Let_def split: if_splits option.splits)

text \<open>The count an object reaches after the segments that name it.\<close>

definition add_refs :: "object_row option \<Rightarrow> nat \<Rightarrow> int option" where
  "add_refs p n = (case p of None \<Rightarrow> if n = 0 then None else Some (int n) | Some ob \<Rightarrow> Some (o_ref_count ob + int n))"

lemma object_loop:
  assumes "tfor (object_step env cid) i sgs d = (Ok (), d')"
  shows "\<exists>objs. d' = d\<lparr>objects := objs\<rparr> \<and>
    (rows_unique o_id (objects d) \<longrightarrow> rows_unique o_id objs) \<and>
    (\<forall>k. map_option o_ref_count (rows_find o_id k objs) =
      add_refs (rows_find o_id k (objects d)) (count_list (map ObjectID sgs) k))"
  using assms
proof (induction sgs arbitrary: i d)
  case Nil
  show ?case
    by (rule exI [of _ "objects d"]) (use Nil in \<open>auto simp: tx_simps add_refs_def split: option.splits\<close>)
next
  case (Cons sg sgs)
  from Cons.prems obtain d1 where d1: "object_step env cid i sg d = (Ok (), d1)"
    "tfor (object_step env cid) (Suc i) sgs d1 = (Ok (), d')" by (auto simp: tx_simps)
  from object_step_Ok [OF d1(1)] obtain x sid where "upsert_object (ObjectID sg) sid d = (Ok (Some x), d1)" by blast
  from upsert_object_Ok [OF this] obtain objs1 where o1: "d1 = d\<lparr>objects := objs1\<rparr>"
    "rows_unique o_id (objects d) \<longrightarrow> rows_unique o_id objs1"
    "\<And>k. map_option o_ref_count (rows_find o_id k objs1) =
      add_refs (rows_find o_id k (objects d)) (if k = ObjectID sg then 1 else 0)"
    by (auto simp: add_refs_def split: option.splits)
  from Cons.IH [OF d1(2)] obtain objs where o2: "d' = d1\<lparr>objects := objs\<rparr>"
    "rows_unique o_id (objects d1) \<longrightarrow> rows_unique o_id objs"
    "\<And>k. map_option o_ref_count (rows_find o_id k objs) =
      add_refs (rows_find o_id k (objects d1)) (count_list (map ObjectID sgs) k)"
    by blast
  have "map_option o_ref_count (rows_find o_id k objs) =
      add_refs (rows_find o_id k (objects d)) (count_list (map ObjectID (sg # sgs)) k)" for k
    using o1(3) [of k] o2(3) [of k] o1(1)
    by (auto simp: add_refs_def split: option.splits if_splits)
  then show ?case using o1(1,2) o2(1,2) by auto
qed

lemma object_timerange_loop:
  "tfor (object_timerange_step env) i sgs d = (Ok (), d') \<Longrightarrow> d' = d"
proof (induction sgs arbitrary: i d)
  case (Cons sg sgs)
  then obtain d1 where d1: "object_timerange_step env i sg d = (Ok (), d1)"
    "tfor (object_timerange_step env) (Suc i) sgs d1 = (Ok (), d')" by (auto simp: tx_simps)
  have "d1 = d"
    using d1(1) by (auto simp: object_timerange_step_def tx_simps split: option.splits if_splits)
  then show ?case using Cons.IH d1(2) by blast
qed (simp add: tx_simps)

text \<open>The rows a batch adds, with the ids the sequence gives them.\<close>

definition new_rows :: "db_env \<Rightarrow> uuid \<Rightarrow> int \<Rightarrow> (Segment \<times> NsBounds) list \<Rightarrow> segments_row list" where
  "new_rows env fid n sbs =
     map (\<lambda>(i, sg, b). segment_row_of (n + int i) (now env) fid (Lower b) (Upper b) sg) (enumerate 0 sbs)"

lemma new_rows_Cons:
  "new_rows env fid n ((sg, b) # sbs) =
     segment_row_of n (now env) fid (Lower b) (Upper b) sg # new_rows env fid (n + 1) sbs"
  unfolding new_rows_def
  by (simp add: enumerate_eq_zip zip_map1 map_zip_map upt_conv_Cons del: upt_Suc
      flip: map_Suc_upt) (auto simp: algebra_simps)

lemma insert_segment_Ok:
  assumes "insert_segment env fid b sg d = (Ok (), d')"
  shows "d' = d\<lparr>seg_seq := seg_seq d + 1,
      segments := segments d @ [segment_row_of (seg_seq d) (now env) fid (Lower b) (Upper b) sg]\<rparr>"
    and "\<not> LowerUnbounded b" "\<not> UpperUnbounded b" "Lower b < Upper b"
    and "\<And>g. g \<in> set (segments d) \<Longrightarrow> g_flow_id g = fid \<Longrightarrow>
      \<not> ranges_overlap (Some (g_lower_ns g), Some (g_upper_ns g)) (Some (Lower b), Some (Upper b))"
    and "rows_find o_id (ObjectID sg) (objects d) \<noteq> None" "rows_find f_id fid (flows d) \<noteq> None"
    and "seg_seq d \<le> MaxInt64"
  using assms
  by (auto simp: insert_segment_def Let_def rows_insert_def lowerParam_def upperParam_def
      split: if_splits option.splits)

lemma insert_loop_all:
  assumes "tfor (insert_step env fid) i sbs d = (Ok (), d')"
  shows "d' = d\<lparr>seg_seq := seg_seq d + int (length sbs),
      segments := segments d @ new_rows env fid (seg_seq d) sbs\<rparr> \<and>
    (\<forall>(sg, b) \<in> set sbs. \<not> LowerUnbounded b \<and> \<not> UpperUnbounded b \<and> Lower b < Upper b \<and>
      rows_find o_id (ObjectID sg) (objects d) \<noteq> None \<and> rows_find f_id fid (flows d) \<noteq> None) \<and>
    (sorted_wrt apart (segments d) \<longrightarrow> list_all (\<lambda>g. g_lower_ns g < g_upper_ns g) (segments d) \<longrightarrow>
      sorted_wrt apart (segments d')) \<and>
    (sbs \<noteq> [] \<longrightarrow> seg_seq d + int (length sbs) - 1 \<le> MaxInt64)"
  using assms
proof (induction sbs arbitrary: i d)
  case Nil
  then show ?case by (auto simp: tx_simps new_rows_def)
next
  case (Cons sb sbs)
  obtain sg b where sb: "sb = (sg, b)" by force
  from Cons.prems obtain d1 where d1: "insert_segment env fid b sg d = (Ok (), d1)"
    "tfor (insert_step env fid) (Suc i) sbs d1 = (Ok (), d')"
    by (auto simp: sb tx_simps insert_step_def [of env fid i] split: option.splits)
  note i = insert_segment_Ok [OF d1(1)]
  have a: "sorted_wrt apart (segments d1) \<and> list_all (\<lambda>g. g_lower_ns g < g_upper_ns g) (segments d1)"
    if "sorted_wrt apart (segments d)" "list_all (\<lambda>g. g_lower_ns g < g_upper_ns g) (segments d)"
    using that i(4,5) unfolding i(1)
    by (fastforce simp: sorted_wrt_append apart_def segment_row_of_def ranges_overlap_def
        range_empty_def below_def list_all_iff)
  have f: "rows_find o_id k (objects d1) = rows_find o_id k (objects d)"
    "rows_find f_id k (flows d1) = rows_find f_id k (flows d)" for k
    unfolding i(1) by simp_all
  note ih = Cons.IH [OF d1(2)]
  have "d' = d\<lparr>seg_seq := seg_seq d + int (length (sb # sbs)),
      segments := segments d @ new_rows env fid (seg_seq d) (sb # sbs)\<rparr>"
    unfolding ih [THEN conjunct1] i(1) sb new_rows_Cons by simp
  moreover have "sorted_wrt apart (segments d) \<longrightarrow> list_all (\<lambda>g. g_lower_ns g < g_upper_ns g) (segments d) \<longrightarrow>
      sorted_wrt apart (segments d')" using ih a by blast
  moreover have "seg_seq d + int (length (sb # sbs)) - 1 \<le> MaxInt64"
    using ih [THEN conjunct2, THEN conjunct2, THEN conjunct2] i(8) i(1) by (cases "sbs = []") auto
  ultimately show ?case using ih [THEN conjunct2, THEN conjunct1] i(2-4,6,7) sb f by auto
qed

lemmas insert_loop = insert_loop_all [THEN conjunct1] insert_loop_all [THEN conjunct2, THEN conjunct1]
  insert_loop_all [THEN conjunct2, THEN conjunct2, THEN conjunct1, rule_format]
  insert_loop_all [THEN conjunct2, THEN conjunct2, THEN conjunct2, rule_format]

lemma refresh_Ok:
  assumes "refreshFlowTimerange env fid d = (Ok (), d')"
  shows "\<exists>span. span_of_rows (flow_rows fid d) = Ok span \<and>
    d' = d\<lparr>flows := rows_update f_id fid
      (\<lambda>r. r\<lparr>f_segments_updated := Some (now env), f_timerange := span\<rparr>) (flows d)\<rparr>"
  using assms
  by (auto simp: refreshFlowTimerange_def flowSpan_def update_flow_def tx_simps split: option.splits)

section \<open>The effect of InsertSegments\<close>

text \<open>\<open>insert_effect\<close>: the whole change of the tables by an insert that commits.\<close>

definition insert_effect :: "db_env \<Rightarrow> InsertBatch \<Rightarrow> NsBounds list \<Rightarrow> db \<Rightarrow> db \<Rightarrow> bool" where
  "insert_effect env batch bounds d d' \<longleftrightarrow>
     (\<exists>objs span.
        d' = d\<lparr>objects := objs,
               seg_seq := seg_seq d + int (length (ib_Segments batch)),
               segments := segments d @ new_rows env (ib_FlowID batch) (seg_seq d) (zip (ib_Segments batch) bounds),
               flows := rows_update f_id (ib_FlowID batch)
                 (\<lambda>r. r\<lparr>f_segments_updated := Some (now env), f_timerange := span\<rparr>) (flows d)\<rparr> \<and>
        span_of_rows (flow_rows (ib_FlowID batch) d') = Ok span \<and>
        (rows_unique o_id (objects d) \<longrightarrow> rows_unique o_id objs) \<and>
        (\<forall>k. map_option o_ref_count (rows_find o_id k objs) =
          add_refs (rows_find o_id k (objects d)) (count_list (map ObjectID (ib_Segments batch)) k)) \<and>
        (\<forall>(sg, b) \<in> set (zip (ib_Segments batch) bounds).
           \<not> LowerUnbounded b \<and> \<not> UpperUnbounded b \<and> Lower b < Upper b) \<and>
        (sorted_wrt apart (segments d) \<longrightarrow> list_all (\<lambda>g. g_lower_ns g < g_upper_ns g) (segments d) \<longrightarrow>
           sorted_wrt apart (segments d')) \<and>
        (ib_Segments batch \<noteq> [] \<longrightarrow> seg_seq d + int (length (ib_Segments batch)) - 1 \<le> MaxInt64) \<and>
        (\<exists>r. rows_find f_id (ib_FlowID batch) (flows d) = Some r \<and> \<not> f_read_only r))"

lemma insert_effect_segments:
  "insert_effect env batch bounds d d' \<Longrightarrow>
    segments d' = segments d @ new_rows env (ib_FlowID batch) (seg_seq d) (zip (ib_Segments batch) bounds)"
  unfolding insert_effect_def by (elim exE conjE) simp

lemma insert_effect_flow:
  assumes "insert_effect env batch bounds d d'"
  shows "\<exists>r. rows_find f_id (ib_FlowID batch) (flows d') = Some r \<and> f_segments_updated r = Some (now env) \<and>
    span_of_rows (flow_rows (ib_FlowID batch) d') = Ok (f_timerange r)"
  using assms unfolding insert_effect_def by (elim exE conjE) (simp add: flows_t.lookup_update)

lemma flow_guard_Exists: "Exists (flow_guard fid d) \<longleftrightarrow> rows_find f_id fid (flows d) \<noteq> None"
  by (auto simp: flow_guard_def split: option.split)

lemma flow_guard_ReadOnly:
  "rows_find f_id fid (flows d) = Some r \<Longrightarrow> ReadOnly (flow_guard fid d) = f_read_only r"
  by (simp add: flow_guard_def)

lemma insert_body_Ok:
  assumes "insert_body env batch bounds d = (Ok (r, c), d')" "length bounds = length (ib_Segments batch)"
  shows "c" "r = \<lparr>AcceptedIndices = [0..<length (ib_Segments batch)], RejectedIndices = [], RejectReasons = []\<rparr>"
    "insert_effect env batch bounds d d'"
proof -
  let ?fid = "ib_FlowID batch" and ?sgs = "ib_Segments batch"
  let ?sbs = "zip ?sgs bounds"
  from assms(1) obtain d1 d2 d3 d4 where
    g: "Exists (flow_guard ?fid d)" "\<not> ReadOnly (flow_guard ?fid d)" and
    l1: "tfor (overlap_step env ?fid) 0 ?sbs d = (Ok (), d1)" and
    l2: "tfor (object_step env (ControlledStorageID batch)) 0 ?sgs d1 = (Ok (), d2)" and
    l3: "tfor (object_timerange_step env) 0 ?sgs d2 = (Ok (), d3)" and
    l4: "tfor (insert_step env ?fid) 0 ?sbs d3 = (Ok (), d4)" and
    l5: "refreshFlowTimerange env ?fid d4 = (Ok (), d')" and
    c: "c" and r: "r = \<lparr>AcceptedIndices = [0..<length ?sgs], RejectedIndices = [], RejectReasons = []\<rparr>"
    unfolding insert_body_def
    by (auto simp: tx_simps GetFlowForSegmentWrite_def Let_def split: option.splits if_splits)
  show "c" by (rule c)
  show "r = \<lparr>AcceptedIndices = [0..<length ?sgs], RejectedIndices = [], RejectReasons = []\<rparr>" by (rule r)
  from object_loop [OF l2] obtain objs where o: "d2 = d1\<lparr>objects := objs\<rparr>"
    "rows_unique o_id (objects d1) \<longrightarrow> rows_unique o_id objs"
    "\<And>k. map_option o_ref_count (rows_find o_id k objs) =
      add_refs (rows_find o_id k (objects d1)) (count_list (map ObjectID ?sgs) k)" by blast
  have e: "d1 = d" "d3 = d2" using overlap_loop [OF l1] object_timerange_loop [OF l3] by auto
  from refresh_Ok [OF l5] obtain span where s: "span_of_rows (flow_rows ?fid d4) = Ok span"
    "d' = d4\<lparr>flows := rows_update f_id ?fid
      (\<lambda>r. r\<lparr>f_segments_updated := Some (now env), f_timerange := span\<rparr>) (flows d4)\<rparr>" by blast
  note i = insert_loop [OF l4]
  from g obtain fr where "rows_find f_id ?fid (flows d) = Some fr" "\<not> f_read_only fr"
    using flow_guard_Exists flow_guard_ReadOnly by fastforce
  moreover have "?sgs \<noteq> [] \<Longrightarrow> bounds \<noteq> []" using assms(2) by auto
  ultimately show "insert_effect env batch bounds d d'"
    unfolding insert_effect_def
    using o e s i assms(2) by (intro exI [of _ objs] exI [of _ span]) (auto simp: flow_rows_def)
qed

section \<open>The invariant is kept by an insert\<close>

lemma unmarshal_marshal_wire: "unmarshal_wire (marshal_wire u) = Ok u"
  by (cases u) (simp add: unmarshal_wire_def marshal_wire_def find_field_def Let_def)

lemma unmarshal_marshal: "g \<noteq> [] \<Longrightarrow> marshalGetURLs g = Some j \<Longrightarrow> unmarshalGetURLs j = Ok g"
proof -
  have "rmap unmarshal_wire (map marshal_wire g) = Ok g" for g
    by (induction g) (auto simp: unmarshal_marshal_wire)
  then show "g \<noteq> [] \<Longrightarrow> marshalGetURLs g = Some j \<Longrightarrow> unmarshalGetURLs j = Ok g"
    by (auto simp: marshalGetURLs_def unmarshalGetURLs_def)
qed

lemma parsed_as_parses: "parsed_as parse raw p \<Longrightarrow> parses parse (nullIfEmpty raw)"
  by (auto simp: parsed_as_def parses_def nullIfEmpty_def split: option.splits)

lemma segment_row_ok:
  assumes "wf_segment sg" "TimeRange_NsBounds (Timerange sg) = Ok b" "\<not> LowerUnbounded b" "\<not> UpperUnbounded b"
  shows "row_ok (segment_row_of n t fid (Lower b) (Upper b) sg)"
proof -
  have "bounds_of_text (TimerangeRaw sg) = Some (Lower b, Upper b)"
    using assms by (simp add: wf_segment_def bounds_of_text_def)
  moreover have "case marshalGetURLs (GetURLs sg) of None \<Rightarrow> True
      | Some j \<Rightarrow> (case unmarshalGetURLs j of Ok _ \<Rightarrow> True | _ \<Rightarrow> False)"
    using unmarshal_marshal [of "GetURLs sg"] by (auto simp: marshalGetURLs_def split: option.split)
  ultimately show ?thesis
    using assms(1) by (auto simp: row_ok_def segment_row_of_def wf_segment_def intro: parsed_as_parses)
qed

lemma row_ok_bounds: "row_ok g \<Longrightarrow> g_lower_ns g < g_upper_ns g"
proof -
  assume "row_ok g"
  then obtain tr b where "Parse (g_timerange g) = Ok tr" "TimeRange_NsBounds tr = Ok b"
    "\<not> LowerUnbounded b" "\<not> UpperUnbounded b" "Lower b = g_lower_ns g" "Upper b = g_upper_ns g"
    by (auto simp: row_ok_def bounds_of_text_def split: res.splits if_splits)
  then show ?thesis using NsBounds_Ok [OF Parse_Ok_wf] by (fastforce simp: wf_bounds_def)
qed

lemma new_rows_ids: "map g_id (new_rows env fid n sbs) = map (\<lambda>i. n + int i) [0..<length sbs]"
  by (simp add: new_rows_def segment_row_of_def enumerate_eq_zip comp_def case_prod_unfold map_fst_zip
      flip: map_map [of "\<lambda>i. n + int i" fst, unfolded comp_def])

lemma new_rows_in:
  assumes "g \<in> set (new_rows env fid n (zip sgs bounds))" "length bounds = length sgs"
  obtains i where "i < length sgs"
    "g = segment_row_of (n + int i) (now env) fid (Lower (bounds ! i)) (Upper (bounds ! i)) (sgs ! i)"
  using assms by (auto simp: new_rows_def enumerate_eq_zip in_set_zip)

lemma new_rows_objects:
  "length bounds = length sgs \<Longrightarrow> map g_object_id (new_rows env fid n (zip sgs bounds)) = map ObjectID sgs"
  by (rule nth_equalityI) (auto simp: new_rows_def segment_row_of_def nth_enumerate_eq)

lemma add_refs_None: "add_refs p n = None \<longleftrightarrow> p = None \<and> n = 0"
  by (auto simp: add_refs_def split: option.splits)

lemma insert_effect_db_ok:
  assumes ok: "db_ok d" and eff: "insert_effect env batch bounds d d'"
    and wf: "list_all wf_segment (ib_Segments batch)"
    and bounds: "segmentBounds (ib_Segments batch) = Ok bounds"
  shows "db_ok d'"
proof -
  let ?sgs = "ib_Segments batch" and ?fid = "ib_FlowID batch"
  note len = segmentBounds_Ok(1) [OF bounds] and nth = segmentBounds_Ok(2) [OF bounds]
  have old: "list_all (\<lambda>g. g_lower_ns g < g_upper_ns g) (segments d)" "sorted_wrt apart (segments d)"
    "rows_unique o_id (objects d)"
    using ok row_ok_bounds by (auto simp: db_ok_def list_all_iff)
  from eff obtain objs span where d': "d' = d\<lparr>objects := objs, seg_seq := seg_seq d + int (length ?sgs),
      segments := segments d @ new_rows env ?fid (seg_seq d) (zip ?sgs bounds),
      flows := rows_update f_id ?fid
        (\<lambda>r. r\<lparr>f_segments_updated := Some (now env), f_timerange := span\<rparr>) (flows d)\<rparr>"
    and u: "rows_unique o_id objs"
    and refs: "\<And>k. map_option o_ref_count (rows_find o_id k objs) =
      add_refs (rows_find o_id k (objects d)) (count_list (map ObjectID ?sgs) k)"
    and bd: "\<forall>(sg, b) \<in> set (zip ?sgs bounds). \<not> LowerUnbounded b \<and> \<not> UpperUnbounded b \<and> Lower b < Upper b"
    and ap: "sorted_wrt apart (segments d')"
    and fl: "\<exists>r. rows_find f_id ?fid (flows d) = Some r"
    and sq: "?sgs \<noteq> [] \<Longrightarrow> seg_seq d + int (length ?sgs) - 1 \<le> MaxInt64"
    using old unfolding insert_effect_def by blast
  have find_f: "rows_find f_id k (flows d') = None \<longleftrightarrow> rows_find f_id k (flows d) = None" for k
    unfolding d' by (simp add: flows_t.lookup_update)
  have find_o: "rows_find o_id k objs = None \<longleftrightarrow> rows_find o_id k (objects d) = None \<and> k \<notin> ObjectID ` set ?sgs" for k
    using refs [of k] add_refs_None by (metis count_list_0_iff image_set option.map_disc_iff)
  have pos: "1 \<le> seg_seq d" using ok by (simp add: db_ok_def)
  have new: "row_ok g \<and> g_id g < seg_seq d' \<and> in_i64 (g_id g) \<and> g_flow_id g = ?fid \<and> g_object_id g \<in> ObjectID ` set ?sgs"
    if g: "g \<in> set (new_rows env ?fid (seg_seq d) (zip ?sgs bounds))" for g
  proof -
    from g len obtain i where i: "i < length ?sgs"
      "g = segment_row_of (seg_seq d + int i) (now env) ?fid (Lower (bounds ! i)) (Upper (bounds ! i)) (?sgs ! i)"
      by (rule new_rows_in)
    have b: "\<not> LowerUnbounded (bounds ! i)" "\<not> UpperUnbounded (bounds ! i)"
      using bd i(1) len by (auto simp: set_zip)
    have "row_ok g" unfolding i(2)
      using segment_row_ok [OF _ conjunct2 [OF nth [OF i(1)]] b] wf i(1) by (auto simp: list_all_iff)
    moreover have "in_i64 (seg_seq d + int i)"
      using sq i(1) pos by (cases "?sgs = []") (auto simp: in_i64_def MinInt64_def)
    ultimately show ?thesis using i by (auto simp: d' segment_row_of_def)
  qed
  have old_ids: "g_id g < seg_seq d" if "g \<in> set (segments d)" for g
    using ok that by (simp add: db_ok_def list_all_iff)
  have ids: "rows_unique g_id (segments d')"
  proof -
    let ?new = "new_rows env ?fid (seg_seq d) (zip ?sgs bounds)"
    have "set (map g_id ?new) \<subseteq> {seg_seq d..}" unfolding new_rows_ids by auto
    moreover have "set (map g_id (segments d)) \<subseteq> {..<seg_seq d}"
      using old_ids by auto
    moreover have "{..<seg_seq d} \<inter> {seg_seq d..} = {}" by auto
    ultimately have "set (map g_id (segments d)) \<inter> set (map g_id ?new) = {}" by blast
    moreover have "distinct (map g_id ?new)"
      unfolding new_rows_ids by (simp add: distinct_map inj_on_def)
    moreover have "distinct (map g_id (segments d))" using ok by (simp add: db_ok_def rows_unique_def)
    ultimately show ?thesis by (simp add: d' rows_unique_def)
  qed
  show ?thesis
    unfolding db_ok_def
  proof (intro conjI)
    show "rows_unique f_id (flows d')" using ok by (auto simp: d' db_ok_def intro!: flows_t.invar_update)
    show "rows_unique o_id (objects d')" using u by (simp add: d')
    show "rows_unique g_id (segments d')" by (rule ids)
    show "list_all row_ok (segments d')" using ok new by (auto simp: d' db_ok_def list_all_iff)
    show "list_all (\<lambda>g. g_id g < seg_seq d' \<and> in_i64 (g_id g)) (segments d')"
      using old_ids new ok by (force simp: d' db_ok_def list_all_iff)
    show "1 \<le> seg_seq d'" using pos by (simp add: d')
    show "list_all (\<lambda>g. rows_find f_id (g_flow_id g) (flows d') \<noteq> None) (segments d')"
      using ok new fl find_f by (auto simp: d' db_ok_def list_all_iff)
    show "list_all (\<lambda>g. rows_find o_id (g_object_id g) (objects d') \<noteq> None) (segments d')"
      using ok new find_o by (auto simp: d' db_ok_def list_all_iff)
    show "sorted_wrt apart (segments d')" by (rule ap)
  qed
qed

lemma references_unknown: "db_ok d \<Longrightarrow> rows_find o_id k (objects d) = None \<Longrightarrow> references d k = 0"
  by (auto simp: references_def db_ok_def list_all_iff count_list_0_iff)

text \<open>Both statements about the counts, for a relation between a count and its references.\<close>

lemma insert_effect_refs:
  assumes ok: "db_ok d" and eff: "insert_effect env batch bounds d d'"
    and bounds: "segmentBounds (ib_Segments batch) = Ok bounds"
    and R: "\<And>x y n. R x y \<Longrightarrow> R (x + int n) (y + int n)" "\<And>n. R (int n) (int n)"
    and old: "list_all (\<lambda>ob. R (o_ref_count ob) (references d (o_id ob))) (objects d)"
  shows "list_all (\<lambda>ob. R (o_ref_count ob) (references d' (o_id ob))) (objects d')"
proof -
  let ?c = "\<lambda>k. count_list (map ObjectID (ib_Segments batch)) k"
  from eff ok have u: "rows_unique o_id (objects d')"
    and refs: "\<And>k. map_option o_ref_count (rows_find o_id k (objects d')) = add_refs (rows_find o_id k (objects d)) (?c k)"
    and segs: "segments d' = segments d @ new_rows env (ib_FlowID batch) (seg_seq d) (zip (ib_Segments batch) bounds)"
    unfolding insert_effect_def by (auto simp: db_ok_def)
  have r: "references d' k = references d k + int (?c k)" for k
    by (simp add: references_def segs new_rows_objects segmentBounds_Ok(1) [OF bounds])
  have "R (o_ref_count ob) (references d' (o_id ob))" if "ob \<in> set (objects d')" for ob
  proof (cases "rows_find o_id (o_id ob) (objects d)")
    case None
    then have "o_ref_count ob = int (?c (o_id ob))"
      using refs [of "o_id ob"] rows_find_unique [OF u that] by (auto simp: add_refs_def split: if_splits)
    then show ?thesis using r references_unknown [OF ok None] R(2) by simp
  next
    case (Some ob0)
    then have "o_ref_count ob = o_ref_count ob0 + int (?c (o_id ob))"
      using refs [of "o_id ob"] rows_find_unique [OF u that] by (simp add: add_refs_def)
    moreover have "R (o_ref_count ob0) (references d (o_id ob))"
      using old rows_find_Some_in [OF Some] by (auto simp: list_all_iff)
    ultimately show ?thesis using r R(1) by simp
  qed
  then show ?thesis by (simp add: list_all_iff)
qed

lemma insert_effect_ref_ok:
  assumes "db_ok d" "insert_effect env batch bounds d d'" "segmentBounds (ib_Segments batch) = Ok bounds"
  shows "ref_ok d \<Longrightarrow> ref_ok d'" "ref_covers d \<Longrightarrow> ref_covers d'"
  using insert_effect_refs [OF assms, of "(=)"] insert_effect_refs [OF assms, of "(\<ge>)"]
  by (auto simp: ref_ok_def ref_covers_def)

section \<open>The sequence only grows\<close>

lemma seq_mono_statements:
  "seq_mono (upsert_object oid sid)" "seq_mono (decrement_object oid n)" "seq_mono (insert_segment env fid b sg)"
  "seq_mono (update_flow fid f)" "seq_mono (delete_segments P)"
  by (auto simp: tx_rel_def upsert_object_def decrement_object_def insert_segment_def update_flow_def
      delete_segments_def Let_def split: option.splits)

lemma seq_mono_steps:
  "seq_mono (overlap_step env fid i sb)" "seq_mono (object_step env cid i sg)"
  "seq_mono (object_timerange_step env i sg)" "seq_mono (insert_step env fid i sb)"
  "seq_mono (refreshFlowTimerange env fid)" "seq_mono (GetFlowForSegmentWrite env fid)"
  "seq_mono (decrement_step env i v)" "seq_mono (delete_scan_step env i v)"
  unfolding overlap_step_def object_step_def object_timerange_step_def insert_step_def refreshFlowTimerange_def
    flowSpan_def GetFlowForSegmentWrite_def decrement_step_def delete_scan_step_def Let_def
  by (auto intro!: seq_grows.rules seq_mono_statements split: prod.split option.split)

lemma insert_body_seq: "seq_mono (insert_body env batch bounds)"
  unfolding insert_body_def Let_def by (auto intro!: seq_grows.rules seq_mono_steps)

lemma db_ok_seq: "db_ok d \<Longrightarrow> seg_seq d \<le> n \<Longrightarrow> db_ok (d\<lparr>seg_seq := n\<rparr>)"
  by (auto simp: db_ok_def list_all_iff)

lemma ref_ok_seq [simp]: "ref_ok (d\<lparr>seg_seq := n\<rparr>) = ref_ok d" "ref_covers (d\<lparr>seg_seq := n\<rparr>) = ref_covers d"
  by (simp_all add: ref_ok_def ref_covers_def references_def)

lemma kept_seq:
  assumes "d' = d\<lparr>seg_seq := n\<rparr>"
  shows "tables d' = tables d" "ref_ok d' = ref_ok d" "ref_covers d' = ref_covers d"
    "segments d' = segments d"
  by (simp_all add: assms tables_def)

section \<open>All outcomes of InsertSegments\<close>

text \<open>The state a batch leads to, when it commits or its lost commit was applied.\<close>

lemma InsertSegments_cases:
  assumes "InsertSegments env batch d = (r, d')"
  obtains (kept) "d' = d\<lparr>seg_seq := seg_seq d'\<rparr>" "seg_seq d \<le> seg_seq d'" "\<And>x. r \<noteq> Ok x"
  | (lost) bounds e where "commit_applied env" "segmentBounds (ib_Segments batch) = Ok bounds"
      "insert_effect env batch bounds d d'" "r = Err e"
  | (finished) bounds where "segmentBounds (ib_Segments batch) = Ok bounds"
      "insert_effect env batch bounds d d'"
      "r = Ok \<lparr>AcceptedIndices = [0..<length (ib_Segments batch)], RejectedIndices = [], RejectReasons = []\<rparr>"
proof (cases "segmentBounds (ib_Segments batch)")
  case (Err e)
  then show ?thesis using assms kept by (auto simp: InsertSegments_def tbind_def tlift_def)
next
  case (Panic p)
  then show ?thesis using segmentBounds_no_panic by blast
next
  case (Ok bounds)
  note len = segmentBounds_Ok(1) [OF Ok]
  show ?thesis
  proof (cases "batch_overlap bounds")
    case (Some ij)
    then show ?thesis using assms Ok kept
      by (auto simp: InsertSegments_def tbind_def tlift_def tfail_def split: prod.splits)
  next
    case None
    have "in_tx env (\<lambda>e. Errorf [Lit ''metastore: InsertSegments: begin: '', W e])
        (\<lambda>e. Errorf [Lit ''metastore: InsertSegments: commit: '', W e]) (insert_body env batch bounds) d = (r, d')"
      using assms Ok None by (simp add: InsertSegments_def tbind_def tlift_def)
    then show ?thesis
    proof (cases rule: in_tx_cases)
      case (begin_failed e)
      then show ?thesis using kept by auto
    next
      case (aborted d1)
      then have "seg_seq d \<le> seg_seq d1" using tx_relD [OF insert_body_seq] by metis
      then show ?thesis using aborted kept by (auto simp: rollback_def dest: insert_body_Ok(1) [OF _ len])
    next
      case (commit_failed x e d1)
      then show ?thesis
        using kept lost [OF _ Ok] insert_body_Ok(3) [OF _ len] tx_relD [OF insert_body_seq commit_failed(2)]
        by (auto simp: rollback_def split: if_splits)
    next
      case (committed x)
      then show ?thesis using finished [OF Ok] insert_body_Ok(2,3) [OF _ len] by auto
    qed
  qed
qed

section \<open>The effect of DeleteSegmentsByTimerange\<close>

definition sub_ref :: "int \<Rightarrow> object_row \<Rightarrow> object_row" where
  "sub_ref n ob = ob\<lparr>o_ref_count := o_ref_count ob - n\<rparr>"

lemma sub_ref_simps [simp]: "o_id (sub_ref n ob) = o_id ob" "o_ref_count (sub_ref n ob) = o_ref_count ob - n"
  "o_reaping (sub_ref n ob) = o_reaping ob" "o_storage_id (sub_ref n ob) = o_storage_id ob"
  by (simp_all add: sub_ref_def)

lemma decrement_loop:
  assumes "tfor (decrement_step env) i vs d = (Ok (), d')"
  shows "d' = d\<lparr>objects := fold (\<lambda>(k, n). rows_update o_id k (sub_ref n)) vs (objects d)\<rparr>"
  using assms
proof (induction vs arbitrary: i d)
  case (Cons v vs)
  then obtain d1 where d1: "decrement_step env i v d = (Ok (), d1)"
    "tfor (decrement_step env) (Suc i) vs d1 = (Ok (), d')" by (auto simp: tx_simps)
  then have "d1 = d\<lparr>objects := rows_update o_id (fst v) (sub_ref (snd v)) (objects d)\<rparr>"
    by (auto simp: decrement_step_def decrement_object_def tx_simps sub_ref_def [abs_def]
        split: option.splits if_splits)
  then show ?case using Cons.IH [OF d1(2)] by (simp add: case_prod_unfold)
qed (simp add: tx_simps)

lemma filter_group_counts:
  "map snd (filter (\<lambda>(k', a). k' = k) (group_counts ids)) = (if k \<in> set ids then [int (count_list ids k)] else [])"
proof -
  have "filter (\<lambda>oid. oid = k) xs = (if k \<in> set xs then [k] else [])" if "distinct xs" for xs :: "string list"
    using that by (induction xs) auto
  then have "filter (\<lambda>oid. oid = k) (remdups ids) = (if k \<in> set ids then [k] else [])" by simp
  then show ?thesis by (simp add: group_counts_def filter_map comp_def)
qed

lemma sum_group_counts: "sum_list (map snd (group_counts ids)) = int (length ids)"
proof -
  have "sum_list (map snd (group_counts ids)) = (\<Sum>x\<in>set ids. int (count_list ids x))"
    by (simp add: group_counts_def comp_def sum_list_distinct_conv_sum_set)
  also have "\<dots> = int (\<Sum>x\<in>set ids. count_list ids x)" by simp
  also have "\<dots> = int (length ids)" by (simp only: sum_count_set [OF subset_refl finite_set])
  finally show ?thesis .
qed

definition delete_effect :: "db_env \<Rightarrow> DeleteQuery \<Rightarrow> int option \<Rightarrow> int option \<Rightarrow> db \<Rightarrow> db \<Rightarrow> bool" where
  "delete_effect env q lo hi d d' \<longleftrightarrow>
     (let gone = filter (delete_where q lo hi) (segments d)
      in \<exists>objs span.
        d' = d\<lparr>segments := filter (\<lambda>g. \<not> delete_where q lo hi g) (segments d), objects := objs,
               flows := rows_update f_id (dq_FlowID q)
                 (\<lambda>r. r\<lparr>f_segments_updated := Some (now env), f_timerange := span\<rparr>) (flows d)\<rparr> \<and>
        span_of_rows (flow_rows (dq_FlowID q) d') = Ok span \<and>
        (rows_unique o_id (objects d) \<longrightarrow> rows_unique o_id objs) \<and>
        (\<forall>k. rows_find o_id k objs =
          map_option (sub_ref (int (count_list (map g_object_id gone) k))) (rows_find o_id k (objects d))) \<and>
        (\<exists>r. rows_find f_id (dq_FlowID q) (flows d) = Some r \<and> \<not> f_read_only r))"

lemma delete_effect_segments:
  "delete_effect env q lo hi d d' \<Longrightarrow> segments d' = filter (\<lambda>g. \<not> delete_where q lo hi g) (segments d)"
  unfolding delete_effect_def Let_def by (elim exE conjE) simp

lemma delete_effect_flow:
  assumes "delete_effect env q lo hi d d'"
  shows "\<exists>r. rows_find f_id (dq_FlowID q) (flows d') = Some r \<and> f_segments_updated r = Some (now env) \<and>
    span_of_rows (flow_rows (dq_FlowID q) d') = Ok (f_timerange r)"
  using assms unfolding delete_effect_def Let_def by (elim exE conjE) (simp add: flows_t.lookup_update)

lemma delete_scan_loop: "tfor (delete_scan_step env) i vs d = (Ok (), d') \<Longrightarrow> d' = d"
  by (induction vs arbitrary: i d) (auto simp: tx_simps delete_scan_step_def split: option.splits)

lemma fold_sub_ref:
  "map_option (fold sub_ref (map snd (filter (\<lambda>(k', a). k' = k) (group_counts ids)))) p =
   map_option (sub_ref (int (count_list ids k))) p"
  by (cases p) (auto simp: filter_group_counts count_list_0_iff sub_ref_def)

lemma delete_body_Ok:
  assumes "delete_body env q d = (Ok (r, c), d')"
  obtains (nothing) "IsEmpty (dq_Timerange q)" "\<not> c" "r = \<lparr>DeletedCount = 0\<rparr>" "d' = d"
  | (deleted) lo hi where "queryBounds (dq_Timerange q) = Ok (lo, hi, False)" "c"
      "r = \<lparr>DeletedCount = int (length (filter (delete_where q lo hi) (segments d)))\<rparr>"
      "delete_effect env q lo hi d d'"
proof -
  let ?fid = "dq_FlowID q"
  from assms obtain lo hi empty where g: "Exists (flow_guard ?fid d)" "\<not> ReadOnly (flow_guard ?fid d)"
    and qb: "queryBounds (dq_Timerange q) = Ok (lo, hi, empty)"
    and rest: "(if empty then tret (\<lparr>DeletedCount = 0\<rparr>, False)
       else
         tbind (twrap (delete_err ''delete'')
           (tcall env ''delete'' 0 (delete_segments (delete_where q lo hi)))) (\<lambda>perObject.
         tbind (tfor (delete_scan_step env) 0 perObject) (\<lambda>_.
         tbind (twrap (delete_err ''rows'') (tcall env ''delete rows'' 0 (tret ()))) (\<lambda>_.
         tbind (tfor (decrement_step env) 0 perObject) (\<lambda>_.
         tbind (twrap (delete_err ''refresh flow'') (refreshFlowTimerange env (dq_FlowID q))) (\<lambda>_.
         tret (\<lparr>DeletedCount = sum_list (map snd perObject)\<rparr>, True))))))) d = (Ok (r, c), d')"
    unfolding delete_body_def
    by (auto simp: tx_simps GetFlowForSegmentWrite_def split: option.splits if_splits)
  show ?thesis
  proof (cases empty)
    case True
    then have "IsEmpty (dq_Timerange q)" "\<not> c" "r = \<lparr>DeletedCount = 0\<rparr>" "d' = d"
      using qb rest by (auto simp: tx_simps queryBounds_def res_simps split: if_splits)
    then show ?thesis by (rule nothing)
  next
    case False
    let ?ids = "map g_object_id (filter (delete_where q lo hi) (segments d))"
    let ?vs = "group_counts ?ids"
    let ?d1 = "d\<lparr>segments := filter (\<lambda>g. \<not> delete_where q lo hi g) (segments d)\<rparr>"
    from rest False obtain d2 d3 where
      l1: "tfor (delete_scan_step env) 0 ?vs ?d1 = (Ok (), d2)" and
      l2: "tfor (decrement_step env) 0 ?vs d2 = (Ok (), d3)" and
      l3: "refreshFlowTimerange env ?fid d3 = (Ok (), d')" and
      rc: "c" "r = \<lparr>DeletedCount = sum_list (map snd ?vs)\<rparr>"
      by (auto simp: tx_simps delete_segments_def split: option.splits)
    let ?objs = "fold (\<lambda>(k, n). rows_update o_id k (sub_ref n)) ?vs (objects d)"
    have d3: "d3 = ?d1\<lparr>objects := ?objs\<rparr>"
      using decrement_loop [OF l2] delete_scan_loop [OF l1] by simp
    have find: "rows_find o_id k ?objs = map_option (sub_ref (int (count_list ?ids k))) (rows_find o_id k (objects d))" for k
      using objects_t.lookup_updates [of sub_ref k ?vs "objects d"] fold_sub_ref by simp
    have uniq: "rows_unique o_id (objects d) \<longrightarrow> rows_unique o_id ?objs"
      using objects_t.invar_updates [of sub_ref "objects d" ?vs] by simp
    from g obtain fr where fr: "rows_find f_id ?fid (flows d) = Some fr" "\<not> f_read_only fr"
      using flow_guard_Exists flow_guard_ReadOnly by fastforce
    from refresh_Ok [OF l3] obtain span where "span_of_rows (flow_rows ?fid d3) = Ok span"
      "d' = d3\<lparr>flows := rows_update f_id ?fid
        (\<lambda>r. r\<lparr>f_segments_updated := Some (now env), f_timerange := span\<rparr>) (flows d3)\<rparr>" by blast
    then have "delete_effect env q lo hi d d'"
      unfolding delete_effect_def Let_def d3
      by (intro exI [of _ ?objs] exI [of _ span]) (use find uniq fr in \<open>auto simp: flow_rows_def\<close>)
    then show ?thesis using deleted qb False rc sum_group_counts by auto
  qed
qed

lemma delete_body_seq: "seq_mono (delete_body env q)"
  unfolding delete_body_def by (auto intro!: seq_grows.rules seq_mono_steps seq_mono_statements)

lemma DeleteSegments_cases:
  assumes "DeleteSegmentsByTimerange env q d = (r, d')"
  obtains (kept) "d' = d\<lparr>seg_seq := seg_seq d'\<rparr>" "seg_seq d \<le> seg_seq d'"
      "\<And>x. r = Ok x \<Longrightarrow> IsEmpty (dq_Timerange q) \<and> x = \<lparr>DeletedCount = 0\<rparr>"
  | (lost) lo hi e where "commit_applied env" "queryBounds (dq_Timerange q) = Ok (lo, hi, False)"
      "delete_effect env q lo hi d d'" "r = Err e"
  | (finished) lo hi where "queryBounds (dq_Timerange q) = Ok (lo, hi, False)"
      "delete_effect env q lo hi d d'"
      "r = Ok \<lparr>DeletedCount = int (length (filter (delete_where q lo hi) (segments d)))\<rparr>"
  using assms [unfolded DeleteSegmentsByTimerange_def]
proof (cases rule: in_tx_cases)
  case (begin_failed e)
  then show ?thesis using kept by auto
next
  case (aborted d1)
  have "seg_seq d \<le> seg_seq d1" using aborted(3) tx_relD [OF delete_body_seq] by metis
  moreover have "IsEmpty (dq_Timerange q) \<and> x = \<lparr>DeletedCount = 0\<rparr>" if "r = Ok x" for x
    using aborted(3) that by (auto elim: delete_body_Ok)
  ultimately show ?thesis using aborted(2) kept by (auto simp: rollback_def)
next
  case (commit_failed x e d1)
  show ?thesis
  proof (cases "commit_applied env")
    case True
    then have "delete_body env q d = (Ok (x, True), d')" using commit_failed by simp
    then show ?thesis using lost True commit_failed(4) by (cases rule: delete_body_Ok) auto
  next
    case False
    then show ?thesis
      using kept commit_failed tx_relD [OF delete_body_seq commit_failed(2)] by (auto simp: rollback_def)
  qed
next
  case (committed x)
  from committed(2) show ?thesis using finished committed(4) by (cases rule: delete_body_Ok) auto
qed

lemma delete_effect_db_ok:
  assumes ok: "db_ok d" and eff: "delete_effect env q lo hi d d'"
  shows "db_ok d'"
proof -
  from eff obtain objs span where d': "d' = d\<lparr>segments := filter (\<lambda>g. \<not> delete_where q lo hi g) (segments d),
      objects := objs, flows := rows_update f_id (dq_FlowID q)
        (\<lambda>r. r\<lparr>f_segments_updated := Some (now env), f_timerange := span\<rparr>) (flows d)\<rparr>"
    and u: "rows_unique o_id objs"
    and refs: "\<And>k. rows_find o_id k objs = None \<longleftrightarrow> rows_find o_id k (objects d) = None"
    using ok unfolding delete_effect_def Let_def by (auto simp: db_ok_def)
  have find_f: "rows_find f_id k (flows d') = None \<longleftrightarrow> rows_find f_id k (flows d) = None" for k
    unfolding d' by (simp add: flows_t.lookup_update)
  show ?thesis
    unfolding db_ok_def
  proof (intro conjI)
    show "rows_unique f_id (flows d')" using ok by (auto simp: d' db_ok_def intro!: flows_t.invar_update)
    show "rows_unique o_id (objects d')" using u by (simp add: d')
    show "rows_unique g_id (segments d')"
      using ok by (simp add: d' db_ok_def rows_unique_def distinct_map_filter)
    show "list_all row_ok (segments d')" using ok by (auto simp: d' db_ok_def list_all_iff)
    show "list_all (\<lambda>g. g_id g < seg_seq d' \<and> in_i64 (g_id g)) (segments d')"
      using ok by (auto simp: d' db_ok_def list_all_iff)
    show "1 \<le> seg_seq d'" using ok by (simp add: d' db_ok_def)
    show "list_all (\<lambda>g. rows_find f_id (g_flow_id g) (flows d') \<noteq> None) (segments d')"
      using ok find_f by (auto simp: d' db_ok_def list_all_iff)
    show "list_all (\<lambda>g. rows_find o_id (g_object_id g) (objects d') \<noteq> None) (segments d')"
      using ok refs by (auto simp: d' db_ok_def list_all_iff)
    show "sorted_wrt apart (segments d')" using ok by (simp add: d' db_ok_def sorted_wrt_filter)
  qed
qed

lemma delete_effect_refs:
  assumes ok: "db_ok d" and eff: "delete_effect env q lo hi d d'"
    and R: "\<And>x y n. R x y \<Longrightarrow> R (x - int n) (y - int n)"
    and old: "list_all (\<lambda>ob. R (o_ref_count ob) (references d (o_id ob))) (objects d)"
  shows "list_all (\<lambda>ob. R (o_ref_count ob) (references d' (o_id ob))) (objects d')"
proof -
  let ?P = "delete_where q lo hi"
  let ?c = "\<lambda>k. count_list (map g_object_id (filter ?P (segments d))) k"
  from eff ok have u: "rows_unique o_id (objects d')"
    and refs: "\<And>k. rows_find o_id k (objects d') = map_option (sub_ref (int (?c k))) (rows_find o_id k (objects d))"
    and segs: "segments d' = filter (\<lambda>g. \<not> ?P g) (segments d)"
    unfolding delete_effect_def Let_def by (auto simp: db_ok_def)
  have split: "int (count_list (map g_object_id gs) k) =
      int (count_list (map g_object_id (filter ?P gs)) k) + int (count_list (map g_object_id (filter (\<lambda>g. \<not> ?P g) gs)) k)"
    for gs k by (induction gs) auto
  have r: "references d' k = references d k - int (?c k)" for k
    using split [of "segments d" k] unfolding references_def segs by linarith
  have "R (o_ref_count ob) (references d' (o_id ob))" if "ob \<in> set (objects d')" for ob
  proof -
    from refs [of "o_id ob"] rows_find_unique [OF u that] obtain ob0 where
      ob0: "rows_find o_id (o_id ob) (objects d) = Some ob0" "ob = sub_ref (int (?c (o_id ob))) ob0"
      by (metis (no_types, lifting) map_option_eq_Some)
    then have "R (o_ref_count ob0) (references d (o_id ob))"
      using old rows_find_Some_in [OF ob0(1)] by (auto simp: list_all_iff)
    moreover have "o_ref_count ob = o_ref_count ob0 - int (?c (o_id ob))"
      using ob0(2) by (metis sub_ref_simps(2))
    ultimately show ?thesis using r R by simp
  qed
  then show ?thesis by (simp add: list_all_iff)
qed

lemma delete_effect_ref_ok:
  assumes "db_ok d" "delete_effect env q lo hi d d'"
  shows "ref_ok d \<Longrightarrow> ref_ok d'" "ref_covers d \<Longrightarrow> ref_covers d'"
  using delete_effect_refs [OF assms, of "(=)"] delete_effect_refs [OF assms, of "(\<ge>)"]
  by (auto simp: ref_ok_def ref_covers_def)

end
