(* ===== verification/Seg_Listing.thy ===== *)
theory Seg_Listing
  imports Seg_Invariant
begin

text \<open>
  Reading the segment store: what \<^verbatim>\<open>ListSegments\<close> returns, that its filters are statements
  about instants, that following the cursors visits every row once, that a stored segment
  reads back as it was sent, and that the span of a flow is the hull of its segments.
\<close>

section \<open>Rows as sets of instants\<close>

definition row_instants :: "segments_row \<Rightarrow> int set" where
  "row_instants g = {g_lower_ns g..<g_upper_ns g}"

lemma row_ok_Parse:
  assumes "row_ok g"
  obtains tr b where "Parse (g_timerange g) = Ok tr" "wf_tr tr" "TimeRange_NsBounds tr = Ok b"
    "\<not> LowerUnbounded b" "\<not> UpperUnbounded b" "Lower b = g_lower_ns g" "Upper b = g_upper_ns g"
    "instants tr = row_instants g"
proof -
  from assms obtain tr b where p: "Parse (g_timerange g) = Ok tr" "TimeRange_NsBounds tr = Ok b"
    "\<not> LowerUnbounded b" "\<not> UpperUnbounded b" "Lower b = g_lower_ns g" "Upper b = g_upper_ns g"
    by (auto simp: row_ok_def bounds_of_text_def split: res.splits if_splits)
  have w: "wf_tr tr" using Parse_Ok_wf p(1) by blast
  moreover have "half_open b = row_instants g"
    unfolding half_open_def row_instants_def p(5,6) using p(3,4) by auto
  then have "instants tr = row_instants g" using NsBounds_Ok [OF w p(2)] by simp
  ultimately show ?thesis using that p by blast
qed

lemma queryBounds_Ok:
  assumes "wf_tr tr" "queryBounds tr = Ok (lo, hi, mt)"
  shows "mt \<longleftrightarrow> instants tr = {}"
    and "\<not> mt \<Longrightarrow> instants tr =
      {n. (case lo of None \<Rightarrow> True | Some l \<Rightarrow> l \<le> n) \<and> (case hi of None \<Rightarrow> True | Some h \<Rightarrow> n < h)}"
proof -
  show "mt \<longleftrightarrow> instants tr = {}"
    using assms(2) IsEmpty_iff [OF assms(1)] by (auto simp: queryBounds_def res_simps split: if_splits)
  assume "\<not> mt"
  then obtain b where b: "TimeRange_NsBounds tr = Ok b" "lo = lowerParam b" "hi = upperParam b"
    using assms(2) by (auto simp: queryBounds_def res_simps split: if_splits)
  show "instants tr =
      {n. (case lo of None \<Rightarrow> True | Some l \<Rightarrow> l \<le> n) \<and> (case hi of None \<Rightarrow> True | Some h \<Rightarrow> n < h)}"
    unfolding NsBounds_Ok [OF assms(1) b(1), THEN conjunct2, THEN conjunct1, symmetric]
    by (auto simp: b(2,3) lowerParam_def upperParam_def half_open_def)
qed

lemma overlapCond_iff:
  assumes "wf_tr tr" "queryBounds tr = Ok (lo, hi, False)" "g_lower_ns g < g_upper_ns g"
  shows "overlapCond lo hi g \<longleftrightarrow> row_instants g \<inter> instants tr \<noteq> {}"
proof -
  note i = queryBounds_Ok [OF assms(1,2)]
  have ne: "instants tr \<noteq> {}" using i(1) by simp
  let ?w = "case lo of None \<Rightarrow> g_lower_ns g | Some l \<Rightarrow> max l (g_lower_ns g)"
  let ?v = "case hi of None \<Rightarrow> g_lower_ns g | Some h \<Rightarrow> min h (g_upper_ns g) - 1"
  show ?thesis
  proof
    assume "overlapCond lo hi g"
    then have "?w \<in> row_instants g \<inter> instants tr"
      using assms(3) i(2) ne by (auto simp: overlapCond_def row_instants_def split: option.splits)
    then show "row_instants g \<inter> instants tr \<noteq> {}" by blast
  next
    assume "row_instants g \<inter> instants tr \<noteq> {}"
    then show "overlapCond lo hi g"
      using i(2) by (auto simp: overlapCond_def row_instants_def split: option.splits)
  qed
qed

lemma delete_where_iff:
  assumes "wf_tr (dq_Timerange q)" "queryBounds (dq_Timerange q) = Ok (lo, hi, False)" "g_lower_ns g < g_upper_ns g"
  shows "delete_where q lo hi g \<longleftrightarrow>
    g_flow_id g = dq_FlowID q \<and> row_instants g \<subseteq> instants (dq_Timerange q) \<and>
    (\<forall>oid. dq_ObjectID q = Some oid \<longrightarrow> g_object_id g = oid)"
proof -
  have "row_instants g \<subseteq> {n. (case lo of None \<Rightarrow> True | Some l \<Rightarrow> l \<le> n) \<and> (case hi of None \<Rightarrow> True | Some h \<Rightarrow> n < h)} \<longleftrightarrow>
      (case lo of None \<Rightarrow> True | Some l \<Rightarrow> g_lower_ns g \<ge> l) \<and> (case hi of None \<Rightarrow> True | Some h \<Rightarrow> g_upper_ns g \<le> h)"
    (is "?L \<longleftrightarrow> ?R")
  proof
    assume L: ?L
    have "g_lower_ns g \<in> row_instants g" "g_upper_ns g - 1 \<in> row_instants g"
      using assms(3) by (auto simp: row_instants_def)
    with L show ?R by (auto split: option.splits)
  next
    assume ?R
    then show ?L by (auto simp: row_instants_def split: option.splits)
  qed
  then show ?thesis
    unfolding delete_where_def queryBounds_Ok(2) [OF assms(1,2), simplified]
    by (auto split: option.splits)
qed

section \<open>Reading a row back\<close>

lemma scan_segment_Ok:
  assumes "row_ok g"
  shows "\<exists>it. scan_segment g = Ok it"
proof -
  from assms obtain tr where "Parse (g_timerange g) = Ok tr" by (rule row_ok_Parse)
  moreover have "\<exists>x. parse_opt parse what p = Ok x" if "parses parse p" for parse :: "string \<Rightarrow> 'x res" and what p
    using that by (auto simp: parse_opt_def parses_def res_simps split: option.splits res.splits)
  ultimately show ?thesis
    using assms unfolding scan_segment_def row_ok_def
    by (auto simp: parse_opt_def parses_def res_simps split: option.splits res.splits)
qed

lemma scan_segment_keys:
  "scan_segment g = Ok it \<Longrightarrow> lowerNs it = g_lower_ns g \<and> upperNs it = g_upper_ns g \<and> segID it = g_id g \<and>
     FlowID (seg it) = g_flow_id g \<and> ObjectID (seg it) = g_object_id g \<and>
     TimerangeRaw (seg it) = g_timerange g \<and> Parse (g_timerange g) = Ok (Timerange (seg it))"
  by (auto simp: scan_segment_def res_simps)

lemma parse_opt_raw:
  "parsed_as parse raw p \<Longrightarrow> parse_opt parse what (nullIfEmpty raw) = Ok p"
  by (auto simp: parsed_as_def parse_opt_def nullIfEmpty_def res_simps split: option.splits)

text \<open>The round trip of a segment through the table.\<close>

lemma scan_segment_row_of:
  assumes "wf_segment sg"
  shows "scan_segment (segment_row_of n t fid lo hi sg) =
    Ok \<lparr>seg = sg\<lparr>FlowID := fid, CreatedAt := t\<rparr>, lowerNs = lo, upperNs = hi, segID = n\<rparr>"
proof -
  have urls: "(case marshalGetURLs (GetURLs sg) of None \<Rightarrow> Ok []
      | Some j \<Rightarrow> rwrap (list_err ''parse get_urls'') (unmarshalGetURLs j)) = Ok (GetURLs sg)"
    using unmarshal_marshal [of "GetURLs sg"] by (auto simp: marshalGetURLs_def)
  have raw: "(case nullIfEmpty s of None \<Rightarrow> [] | Some str \<Rightarrow> str) = s" for s
    by (simp add: nullIfEmpty_def)
  have p: "parse_opt ParseTimestamp w (nullIfEmpty (TSOffsetRaw sg)) = Ok (TSOffset sg)"
    "parse_opt Parse w (nullIfEmpty (ObjectTimerangeRaw sg)) = Ok (ObjectTimerange sg)"
    "parse_opt ParseTimestamp w (nullIfEmpty (LastDurationRaw sg)) = Ok (LastDuration sg)" for w
    using assms by (auto simp: wf_segment_def intro: parse_opt_raw)
  have "Parse (TimerangeRaw sg) = Ok (Timerange sg)" using assms by (simp add: wf_segment_def)
  then show ?thesis
    unfolding scan_segment_def segment_row_of_def by (simp add: p raw urls)
qed

section \<open>Order and pages\<close>

definition after :: "ListQuery \<Rightarrow> int \<times> int \<Rightarrow> segments_row \<Rightarrow> bool" where
  "after q c g \<longleftrightarrow> (if lq_ReverseOrder q then row_key g < c else c < row_key g)"

lemma list_rows_cursor: "list_rows q bounds (Some c) d = filter (after q c) (list_rows q bounds None d)"
proof -
  have "filter (list_where q bounds (Some c)) xs = filter (after q c) (filter (list_where q bounds None) xs)" for xs
    by (auto simp: list_where_def after_def intro: filter_cong)
  then show ?thesis
    unfolding list_rows_def Let_def by (simp add: filter_sort rev_filter [symmetric])
qed

lemma list_rows_sorted:
  assumes "db_ok d"
  shows "sorted_wrt (\<lambda>a b. after q (row_key a) b) (list_rows q bounds c d)"
proof -
  let ?xs = "sort_key row_key (filter (list_where q bounds c) (segments d))"
  have "distinct (map g_id (filter (list_where q bounds c) (segments d)))"
    using assms by (simp add: db_ok_def rows_unique_def distinct_map_filter)
  then have "distinct (map row_key (filter (list_where q bounds c) (segments d)))"
    by (auto simp: distinct_map inj_on_def row_key_def)
  then have "distinct (map row_key ?xs)" by (simp add: distinct_map)
  then have "sorted_wrt (<) (map row_key ?xs)" by (simp add: strict_sorted_iff)
  then have s: "sorted_wrt (\<lambda>a b. row_key a < row_key b) ?xs" by (simp add: sorted_wrt_map)
  then show ?thesis
    by (cases "lq_ReverseOrder q") (simp_all add: list_rows_def Let_def after_def sorted_wrt_rev)
qed

lemma after_filter_drop:
  assumes "sorted_wrt (\<lambda>a b. after q (row_key a) b) xs" "0 < k" "k \<le> length xs"
  shows "filter (after q (row_key (xs ! (k - 1)))) xs = drop k xs"
proof -
  have irr: "\<not> after q (row_key a) a" for a by (simp add: after_def)
  have asym: "\<not> after q (row_key a) b" if "after q (row_key b) a" for a b
    using that by (auto simp: after_def split: if_splits)
  have n: "after q (row_key (xs ! i)) (xs ! j)" if "i < j" "j < length xs" for i j
    using assms(1) that by (simp add: sorted_wrt_iff_nth_less)
  have "filter (after q (row_key (xs ! (k - 1)))) (take k xs) = []"
  proof (rule filter_False, rule ballI)
    fix x assume "x \<in> set (take k xs)"
    then obtain i where i: "i < k" "x = xs ! i" using assms(3) by (auto simp: in_set_conv_nth)
    show "\<not> after q (row_key (xs ! (k - 1))) x"
    proof (cases "i = k - 1")
      case True
      then show ?thesis using irr i by simp
    next
      case False
      then show ?thesis using i n [of i "k - 1"] assms(2,3) asym by auto
    qed
  qed
  moreover have "filter (after q (row_key (xs ! (k - 1)))) (drop k xs) = drop k xs"
  proof (rule filter_True, rule ballI)
    fix x assume "x \<in> set (drop k xs)"
    then obtain j where "j < length xs - k" "x = xs ! (k + j)" by (auto simp: in_set_conv_nth)
    then show "after q (row_key (xs ! (k - 1))) x" using n [of "k - 1" "k + j"] assms(2) by simp
  qed
  ultimately show ?thesis by (metis append_Nil append_take_drop_id filter_append)
qed

lemma encodeSegCursor_not_Nil: "encodeSegCursor a b \<noteq> []"
proof -
  have "b64_groups (n # ns) \<noteq> []" for n ns by (cases ns; cases "tl ns") auto
  then show ?thesis by (simp add: encodeSegCursor_def EncodeToString_def seg_cursor_text_def)
qed

definition row_segment :: "segments_row \<Rightarrow> Segment" where
  "row_segment g = (case scan_segment g of Ok it \<Rightarrow> seg it | _ \<Rightarrow> undefined)"

lemma rmap_scan:
  assumes "no_faults env" "list_all row_ok rows"
  shows "\<exists>items. rmap (scan_row env) (enumerate n rows) = Ok items \<and> map seg items = map row_segment rows \<and>
    map lowerNs items = map g_lower_ns rows \<and> map segID items = map g_id rows \<and> map upperNs items = map g_upper_ns rows"
  using assms(2)
proof (induction rows arbitrary: n)
  case (Cons g rows)
  then obtain it where it: "scan_segment g = Ok it" using scan_segment_Ok by auto
  moreover from Cons obtain items where "rmap (scan_row env) (enumerate (Suc n) rows) = Ok items"
    "map seg items = map row_segment rows" "map lowerNs items = map g_lower_ns rows"
    "map segID items = map g_id rows" "map upperNs items = map g_upper_ns rows" by auto
  moreover have "scan_row env (n, g) = Ok it" using it assms(1) by (simp add: scan_row_def no_faults_def)
  ultimately show ?case
    using scan_segment_keys [OF it]
    by (intro exI [of _ "it # items"]) (simp add: row_segment_def)
qed simp

lemma list_page_Ok:
  assumes "no_faults env" "db_ok d" "0 < limit"
  shows "\<exists>page. list_page env q limit bounds c d = (Ok page, d) \<and>
    Items page = map row_segment (take (nat limit) (list_rows q bounds c d)) \<and>
    Count page = int (length (Items page)) \<and> EffectiveLimit page = limit \<and>
    NextCursor page =
      (if int (length (list_rows q bounds c d)) > limit
       then let g = list_rows q bounds c d ! (nat limit - 1) in encodeSegCursor (g_lower_ns g) (g_id g)
       else [])"
proof -
  let ?all = "list_rows q bounds c d"
  let ?rows = "take (nat (limit + 1)) ?all"
  have "list_all row_ok ?rows"
    using assms(2) by (auto simp: list_rows_def Let_def db_ok_def list_all_iff dest!: in_set_takeD)
  from rmap_scan [OF assms(1) this, of 0] obtain items where it: "rmap (scan_row env) (enumerate 0 ?rows) = Ok items"
    "map seg items = map row_segment ?rows" "map lowerNs items = map g_lower_ns ?rows"
    "map segID items = map g_id ?rows" by blast
  have len: "length items = min (length ?all) (nat (limit + 1))" using it(2) by (metis length_map length_take)
  have page: "list_page env q limit bounds c d = (Ok (make_page limit items), d)"
    using it(1) assms(1) by (simp add: list_page_def tbind_def twrap_def tcall_no_faults tx_defs)
  have more: "int (length items) > limit \<longleftrightarrow> int (length ?all) > limit" using len assms(3) by auto
  have t: "take (nat limit) ?rows = take (nat limit) ?all" using assms(3) by (simp add: min_def)
  have items: "map seg (take (nat limit) items) = map row_segment (take (nat limit) ?all)"
    using it(2) t by (metis take_map)
  have nx: "lowerNs (items ! (nat limit - 1)) = g_lower_ns (?all ! (nat limit - 1))"
    "segID (items ! (nat limit - 1)) = g_id (?all ! (nat limit - 1))" if "int (length ?all) > limit"
  proof -
    have k: "nat limit - 1 < length items" "nat limit - 1 < length ?rows" using that len assms(3) by auto
    show "lowerNs (items ! (nat limit - 1)) = g_lower_ns (?all ! (nat limit - 1))"
      using it(3) k by (metis nth_map nth_take length_take min_less_iff_conj)
    show "segID (items ! (nat limit - 1)) = g_id (?all ! (nat limit - 1))"
      using it(4) k by (metis nth_map nth_take length_take min_less_iff_conj)
  qed
  show ?thesis
    using page items more nx len by (intro exI [of _ "make_page limit items"]) (simp add: make_page_def Let_def)
qed

text \<open>
  The specification of a listing: the rows of the flow that share an instant with the range
  and name the object, ordered by lower bound and id.
\<close>

definition matches :: "ListQuery \<Rightarrow> segments_row \<Rightarrow> bool" where
  "matches q g \<longleftrightarrow>
     g_flow_id g = lq_FlowID q \<and>
     (case lq_Timerange q of None \<Rightarrow> True | Some tr \<Rightarrow> row_instants g \<inter> instants tr \<noteq> {}) \<and>
     (case lq_ObjectID q of None \<Rightarrow> True | Some oid \<Rightarrow> g_object_id g = oid)"

definition listed :: "ListQuery \<Rightarrow> db \<Rightarrow> segments_row list" where
  "listed q d =
     (let rows = sort_key row_key (filter (matches q) (segments d))
      in if lq_ReverseOrder q then rev rows else rows)"

definition query_ok :: "ListQuery \<Rightarrow> bool" where
  "query_ok q = (case lq_Timerange q of None \<Rightarrow> True
     | Some tr \<Rightarrow> wf_tr tr \<and> (case queryBounds tr of Ok _ \<Rightarrow> True | _ \<Rightarrow> False))"

definition query_bounds :: "ListQuery \<Rightarrow> (int option \<times> int option) option" where
  "query_bounds q = (case lq_Timerange q of None \<Rightarrow> None
     | Some tr \<Rightarrow> (case queryBounds tr of Ok (lo, hi, _) \<Rightarrow> Some (lo, hi) | _ \<Rightarrow> None))"

lemma list_rows_listed:
  assumes "db_ok d" "query_ok q" "\<And>tr. lq_Timerange q = Some tr \<Longrightarrow> instants tr \<noteq> {}"
  shows "list_rows q (query_bounds q) None d = listed q d"
proof -
  have "list_where q (query_bounds q) None g = matches q g" if "g \<in> set (segments d)" for g
  proof -
    have lt: "g_lower_ns g < g_upper_ns g"
      using assms(1) that row_ok_bounds by (auto simp: db_ok_def list_all_iff)
    show ?thesis
    proof (cases "lq_Timerange q")
      case None
      then show ?thesis by (auto simp: list_where_def matches_def query_bounds_def)
    next
      case (Some tr)
      then obtain lo hi mt where qb: "wf_tr tr" "queryBounds tr = Ok (lo, hi, mt)"
        using assms(2) by (auto simp: query_ok_def split: res.splits)
      then have "\<not> mt" using queryBounds_Ok(1) assms(3) Some by blast
      then show ?thesis
        using Some qb overlapCond_iff [OF qb(1) _ lt, of lo hi]
        by (auto simp: list_where_def matches_def query_bounds_def)
    qed
  qed
  then show ?thesis unfolding list_rows_def listed_def Let_def by (simp cong: filter_cong)
qed

lemma listed_empty:
  "lq_Timerange q = Some tr \<Longrightarrow> instants tr = {} \<Longrightarrow> listed q d = []"
  by (simp add: listed_def matches_def)

definition flow_known :: "uuid \<Rightarrow> db \<Rightarrow> bool" where
  "flow_known fid d \<longleftrightarrow> rows_find f_id fid (flows d) \<noteq> None"

lemma ListSegments_page:
  assumes "no_faults env" "db_ok d" "query_ok q" "flow_known (lq_FlowID q) d"
    and cur: "lq_Page q = [] \<and> c = None \<or> lq_Page q \<noteq> [] \<and> (\<exists>c'. decodeSegCursor (lq_Page q) = Ok c' \<and> c = Some c')"
  defines "rows \<equiv> case c of None \<Rightarrow> listed q d | Some c' \<Rightarrow> filter (after q c') (listed q d)"
  defines "limit \<equiv> page_limit (lq_Limit q)"
  shows "\<exists>page. ListSegments env q d = (Ok page, d) \<and>
    Items page = map row_segment (take (nat limit) rows) \<and>
    Count page = int (length (Items page)) \<and> EffectiveLimit page = limit \<and>
    NextCursor page =
      (if int (length rows) > limit
       then let g = rows ! (nat limit - 1) in encodeSegCursor (g_lower_ns g) (g_id g)
       else [])"
proof -
  have lim: "0 < limit" by (simp add: limit_def page_limit_def hardLimit_def)
  have guard: "GetFlowForSegmentRead env (lq_FlowID q) d = (Ok (flow_guard (lq_FlowID q) d), d)"
    using assms(1) by (simp add: GetFlowForSegmentRead_def twrap_def tcall_no_faults tx_defs)
  have ex: "Exists (flow_guard (lq_FlowID q) d)" using assms(4) by (simp add: flow_guard_Exists flow_known_def)
  let ?rest = "\<lambda>(bounds, mt). if mt then tret (empty_page limit)
      else if lq_Page q = [] then list_page env q limit bounds None
      else (case decodeSegCursor (lq_Page q) of
              Ok c \<Rightarrow> list_page env q limit bounds (Some c)
            | Err e \<Rightarrow> tfail (Errorf [Lit ''metastore: ListSegments: '', W (Sentinel ErrInvalidCursor)])
            | Panic p \<Rightarrow> tlift (Panic p))"
  consider (mt) tr where "lq_Timerange q = Some tr" "instants tr = {}" "wf_tr tr" "queryBounds tr = Ok (None, None, True)"
    | (some) "\<And>tr. lq_Timerange q = Some tr \<Longrightarrow> instants tr \<noteq> {}"
  proof (cases "\<exists>tr. lq_Timerange q = Some tr \<and> instants tr = {}")
    case True
    then obtain tr where tr: "lq_Timerange q = Some tr" "instants tr = {}" by blast
    then have "wf_tr tr" using assms(3) by (simp add: query_ok_def)
    then show ?thesis using mt tr IsEmpty_iff by (simp add: queryBounds_def)
  qed (use some in blast)
  then show ?thesis
  proof cases
    case (mt tr)
    have "rows = []" unfolding rows_def using listed_empty [OF mt(1,2)] by (simp split: option.split)
    then show ?thesis
      using mt guard ex lim
      by (simp add: ListSegments_def tbind_def twrap_def tx_defs empty_page_def limit_def)
  next
    case some
    have b: "(case lq_Timerange q of None \<Rightarrow> tret (None, False)
        | Some tr \<Rightarrow> tbind (twrap (list_err ''timerange'') (tlift (queryBounds tr)))
            (\<lambda>(lo, hi, mt). tret (Some (lo, hi), mt))) d = (Ok (query_bounds q, False), d)"
    proof (cases "lq_Timerange q")
      case None
      then show ?thesis by (simp add: query_bounds_def tx_defs)
    next
      case (Some tr)
      then obtain lo hi mt where qb: "wf_tr tr" "queryBounds tr = Ok (lo, hi, mt)"
        using assms(3) by (auto simp: query_ok_def split: res.splits)
      then have "\<not> mt" using queryBounds_Ok(1) some Some by blast
      then show ?thesis using Some qb by (simp add: query_bounds_def tbind_def twrap_def tx_defs)
    qed
    have "ListSegments env q d = ?rest (query_bounds q, False) d"
      unfolding ListSegments_def tbind_def [of "GetFlowForSegmentRead env (lq_FlowID q)"] guard limit_def
      using ex b by (simp add: Let_def tbind_def)
    also have "\<dots> = list_page env q limit (query_bounds q) c d" using cur by auto
    finally have l: "ListSegments env q d = list_page env q limit (query_bounds q) c d" .
    have e: "list_rows q (query_bounds q) c d = rows"
      unfolding rows_def using list_rows_listed [OF assms(2,3) some]
      by (simp add: list_rows_cursor split: option.split)
    show ?thesis using list_page_Ok [OF assms(1,2) lim, of q "query_bounds q" c] unfolding l e .
  qed
qed

lemma ListSegments_reads: "reads_only (ListSegments env q)"
  unfolding ListSegments_def list_page_def GetFlowForSegmentRead_def Let_def
  by (auto intro!: unchanged.rules split: option.split res.split)

section \<open>All pages\<close>

text \<open>A client that follows the cursor of each page until there is none.\<close>

fun fetch_pages :: "nat \<Rightarrow> db_env \<Rightarrow> ListQuery \<Rightarrow> db \<Rightarrow> Segment list option" where
  "fetch_pages 0 env q d = None"
| "fetch_pages (Suc n) env q d =
     (case fst (ListSegments env q d) of
        Ok page \<Rightarrow>
          if NextCursor page = [] then Some (Items page)
          else map_option ((@) (Items page)) (fetch_pages n env (q\<lparr>lq_Page := NextCursor page\<rparr>) d)
      | _ \<Rightarrow> None)"

lemma matches_page [simp]: "matches (q\<lparr>lq_Page := p\<rparr>) = matches q"
  by (simp add: matches_def fun_eq_iff)

lemma listed_page [simp]: "listed (q\<lparr>lq_Page := p\<rparr>) d = listed q d" "after (q\<lparr>lq_Page := p\<rparr>) = after q"
  "query_ok (q\<lparr>lq_Page := p\<rparr>) = query_ok q"
  by (simp_all add: listed_def after_def query_ok_def fun_eq_iff)

lemma listed_in: "g \<in> set (listed q d) \<Longrightarrow> g \<in> set (segments d)"
  by (auto simp: listed_def Let_def split: if_splits)

lemma listed_sorted:
  assumes "db_ok d" "query_ok q"
  shows "sorted_wrt (\<lambda>a b. after q (row_key a) b) (listed q d)"
proof (cases "\<exists>tr. lq_Timerange q = Some tr \<and> instants tr = {}")
  case True
  then show ?thesis using listed_empty by fastforce
next
  case False
  then show ?thesis
    using list_rows_listed [OF assms] list_rows_sorted [OF assms(1), of q "query_bounds q" None] by metis
qed

lemma row_key_in_i64:
  assumes "db_ok d" "g \<in> set (segments d)"
  shows "in_i64 (g_lower_ns g)" "in_i64 (g_id g)"
proof -
  have "row_ok g" "in_i64 (g_id g)" using assms by (auto simp: db_ok_def list_all_iff)
  then show "in_i64 (g_id g)" by simp
  from \<open>row_ok g\<close> obtain tr b where "wf_tr tr" "TimeRange_NsBounds tr = Ok b" "Lower b = g_lower_ns g"
    by (rule row_ok_Parse)
  then show "in_i64 (g_lower_ns g)" using NsBounds_Ok by (fastforce simp: wf_bounds_def)
qed

text \<open>From the page that starts at row \<open>k\<close>, the rest of the rows.\<close>

lemma fetch_pages_from:
  assumes "no_faults env" "db_ok d" "query_ok q" "flow_known (lq_FlowID q) d"
    and pos: "k = 0 \<and> p = [] \<or> 0 < k \<and> k \<le> length (listed q d) \<and>
      p = (let g = listed q d ! (k - 1) in encodeSegCursor (g_lower_ns g) (g_id g))"
    and fuel: "length (listed q d) - k < n"
  shows "fetch_pages n env (q\<lparr>lq_Page := p\<rparr>) d = Some (map row_segment (drop k (listed q d)))"
  using pos fuel
proof (induction n arbitrary: k p)
  case (Suc n)
  let ?xs = "listed q d" and ?lim = "page_limit (lq_Limit q)" and ?q = "q\<lparr>lq_Page := p\<rparr>"
  define c where "c = (if k = 0 then None else Some (row_key (?xs ! (k - 1))))"
  have cur: "lq_Page ?q = [] \<and> c = None \<or> lq_Page ?q \<noteq> [] \<and> (\<exists>c'. decodeSegCursor (lq_Page ?q) = Ok c' \<and> c = Some c')"
  proof (cases "k = 0")
    case True
    then show ?thesis using Suc.prems by (simp add: c_def)
  next
    case False
    then have "?xs ! (k - 1) \<in> set (segments d)" using Suc.prems(1) by (intro listed_in [of _ q]) auto
    from row_key_in_i64 [OF assms(2) this] show ?thesis
      using False Suc.prems(1) decode_encodeSegCursor encodeSegCursor_not_Nil
      by (auto simp: c_def row_key_def Let_def)
  qed
  have rows: "(case c of None \<Rightarrow> listed ?q d | Some c' \<Rightarrow> filter (after ?q c') (listed ?q d)) = drop k ?xs"
  proof (cases "k = 0")
    case False
    then show ?thesis
      using after_filter_drop [OF listed_sorted [OF assms(2,3)], of k] Suc.prems(1) by (simp add: c_def)
  qed (simp add: c_def)
  have lim: "0 < ?lim" by (simp add: page_limit_def hardLimit_def)
  from ListSegments_page [OF assms(1,2), of ?q c] assms(3,4) cur obtain page where
    page: "ListSegments env ?q d = (Ok page, d)" "Items page = map row_segment (take (nat ?lim) (drop k ?xs))"
      "NextCursor page = (if int (length (drop k ?xs)) > ?lim
         then let g = drop k ?xs ! (nat ?lim - 1) in encodeSegCursor (g_lower_ns g) (g_id g) else [])"
    unfolding rows by auto
  show ?case
  proof (cases "int (length (drop k ?xs)) > ?lim")
    case False
    then show ?thesis using page by simp
  next
    case True
    let ?k = "k + nat ?lim"
    have k: "0 < ?k \<and> ?k \<le> length ?xs" using True lim by auto
    have nth: "drop k ?xs ! (nat ?lim - 1) = ?xs ! (?k - 1)" using True lim by (simp add: add_diff_assoc)
    have nx: "NextCursor page = (let g = ?xs ! (?k - 1) in encodeSegCursor (g_lower_ns g) (g_id g))"
      using page(3) True nth by simp
    have "fetch_pages n env (q\<lparr>lq_Page := NextCursor page\<rparr>) d = Some (map row_segment (drop ?k ?xs))"
      using Suc.IH [of ?k] k nx Suc.prems(2) lim True by simp
    moreover have "NextCursor page \<noteq> []" using nx encodeSegCursor_not_Nil by (simp add: Let_def)
    moreover have "drop k ?xs = take (nat ?lim) (drop k ?xs) @ drop ?k ?xs"
      by (metis append_take_drop_id drop_drop add.commute)
    then have "map row_segment (drop k ?xs) = Items page @ map row_segment (drop ?k ?xs)"
      using page(2) by (metis map_append)
    ultimately show ?thesis using page(1) by simp
  qed
qed simp

lemma fetch_pages_all:
  assumes "no_faults env" "db_ok d" "query_ok q" "flow_known (lq_FlowID q) d" "lq_Page q = []"
  shows "fetch_pages (Suc (length (listed q d))) env q d = Some (map row_segment (listed q d))"
proof -
  have "q\<lparr>lq_Page := []\<rparr> = q" using assms(5) by simp
  then show ?thesis
    using fetch_pages_from [OF assms(1-4), of 0 "[]" "Suc (length (listed q d))"] by (simp del: fetch_pages.simps)
qed

end
