(* ===== verification/Seg_Span.thy ===== *)
theory Seg_Span
  imports Seg_Listing
begin

text \<open>
  The span of a flow (\<^verbatim>\<open>flowSpan\<close>, \<^verbatim>\<open>joinSpan\<close>) is the hull of its segments, and
  \<^verbatim>\<open>rangeContains\<close>, the check of a new object range against the stored one, is sound for
  the instants of the ranges.
\<close>

section \<open>First and last row\<close>

lemma first_by_spec:
  assumes "rows \<noteq> []"
  shows "\<exists>r. first_by k rows = Some r \<and> r \<in> set rows \<and> (\<forall>x \<in> set rows. k r \<le> k x)"
proof -
  obtain r rs where s: "sort_key k rows = r # rs" using assms by (metis list.exhaust length_sort length_0_conv)
  then have "sorted (map k (r # rs))" "set rows = set (r # rs)" by (metis sorted_sort_key, metis set_sort)
  with s show ?thesis by (auto simp: first_by_def)
qed

lemma last_by_spec:
  assumes "rows \<noteq> []"
  shows "\<exists>r. last_by k rows = Some r \<and> r \<in> set rows \<and> (\<forall>x \<in> set rows. k x \<le> k r)"
proof -
  have "rev (sort_key k rows) \<noteq> []" using assms by (metis rev_is_Nil_conv length_sort length_0_conv)
  then obtain r rs where s: "rev (sort_key k rows) = r # rs" by (cases "rev (sort_key k rows)") auto
  then have s': "sort_key k rows = rev rs @ [r]" by (metis rev.simps(2) rev_rev_ident)
  then have "sorted (map k (rev rs @ [r]))" "set rows = set (rev rs @ [r])" by (metis sorted_sort_key, metis set_sort)
  with s show ?thesis by (auto simp: last_by_def sorted_append)
qed

section \<open>The span is the hull\<close>

lemma apart_pairs:
  "sorted_wrt apart rows \<Longrightarrow> g \<in> set rows \<Longrightarrow> h \<in> set rows \<Longrightarrow> g \<noteq> h \<Longrightarrow> apart g h"
  by (induction rows) (auto simp: apart_sym)

lemma span_of_rows_hull:
  assumes ok: "list_all row_ok rows" "sorted_wrt apart rows" "\<And>g. g \<in> set rows \<Longrightarrow> g_flow_id g = fid"
    and ne: "rows \<noteq> []"
  shows "\<exists>s tr. span_of_rows rows = Ok (Some s) \<and> Parse s = Ok tr \<and>
    instants tr = {Min (g_lower_ns ` set rows)..<Max (g_upper_ns ` set rows)}"
proof -
  from first_by_spec [OF ne, of g_lower_ns] obtain f where f: "first_by g_lower_ns rows = Some f" "f \<in> set rows"
    "\<And>x. x \<in> set rows \<Longrightarrow> g_lower_ns f \<le> g_lower_ns x" by blast
  from last_by_spec [OF ne, of g_lower_ns] obtain l where l: "last_by g_lower_ns rows = Some l" "l \<in> set rows"
    "\<And>x. x \<in> set rows \<Longrightarrow> g_lower_ns x \<le> g_lower_ns l" by blast
  have lt: "g_lower_ns g < g_upper_ns g" if "g \<in> set rows" for g
    using ok(1) that row_ok_bounds by (auto simp: list_all_iff)
  have top: "g_upper_ns x \<le> g_upper_ns l" if "x \<in> set rows" for x
  proof (cases "x = l")
    case False
    then have "apart x l" using apart_pairs ok(2) that l(2) by blast
    then show ?thesis using lt l that ok(3) by (fastforce simp: apart_def)
  qed simp
  have lo: "Min (g_lower_ns ` set rows) = g_lower_ns f" using f by (intro Min_eqI) auto
  have hi: "Max (g_upper_ns ` set rows) = g_upper_ns l" using l(2) top by (intro Max_eqI) auto
  from ok(1) f(2) have "row_ok f" by (simp add: list_all_iff)
  then obtain ft fb where ft: "Parse (g_timerange f) = Ok ft" "wf_tr ft" "TimeRange_NsBounds ft = Ok fb"
    "\<not> LowerUnbounded fb" "Lower fb = g_lower_ns f" by (rule row_ok_Parse)
  from ok(1) l(2) have "row_ok l" by (simp add: list_all_iff)
  then obtain lt' lb where lt': "Parse (g_timerange l) = Ok lt'" "wf_tr lt'" "TimeRange_NsBounds lt' = Ok lb"
    "\<not> UpperUnbounded lb" "Upper lb = g_upper_ns l" by (rule row_ok_Parse)
  let ?j = "joinSpan ft lt'"
  have ne: "\<not> IsEmpty ft" "\<not> IsEmpty lt'" using NsBounds_empty ft(3) lt'(3) by force+
  have j: "wf_tr ?j" "instants ?j = {n. lower_ok (Start ft) (StartType ft) n \<and> upper_ok (End lt') (EndType lt') n}"
    using bound_wf_tr [of ?j] wf_nonempty(1) [OF ft(2) ne(1)] wf_nonempty(2) [OF lt'(2) ne(2)]
    by (auto simp: joinSpan_def)
  then have hull: "instants ?j = {g_lower_ns f..<g_upper_ns l}"
    using NsBounds_sides(1) [OF ft(2,3)] NsBounds_sides(2) [OF lt'(2,3)] ft(4,5) lt'(4,5) by auto
  have "\<not> IsEmpty ?j" using IsEmpty_iff [OF j(1)] hull lt [OF f(2)] top [OF f(2)] by auto
  with TimeRange_String_Parse [OF j(1)] obtain s where "TimeRange_String ?j = Ok s" "Parse s = Ok ?j" by auto
  then show ?thesis
    using f(1) l(1) ft(1) lt'(1) hull lo hi by (auto simp: span_of_rows_def)
qed

lemma span_of_rows_Nil: "span_of_rows [] = Ok None"
  by (simp add: span_of_rows_def first_by_def last_by_def)

lemma flow_rows_ok:
  assumes "db_ok d"
  shows "list_all row_ok (flow_rows fid d)" "sorted_wrt apart (flow_rows fid d)"
    "\<And>g. g \<in> set (flow_rows fid d) \<Longrightarrow> g_flow_id g = fid"
  using assms by (auto simp: db_ok_def flow_rows_def list_all_iff sorted_wrt_filter)

text \<open>The derived column agrees with the rows.\<close>

definition span_current :: "uuid \<Rightarrow> db \<Rightarrow> bool" where
  "span_current fid d =
     (case rows_find f_id fid (flows d) of
        None \<Rightarrow> False
      | Some r \<Rightarrow>
          (case f_timerange r of
             None \<Rightarrow> flow_rows fid d = []
           | Some s \<Rightarrow>
               (case Parse s of
                  Ok tr \<Rightarrow> instants tr = {Min (g_lower_ns ` set (flow_rows fid d))..<Max (g_upper_ns ` set (flow_rows fid d))}
                | _ \<Rightarrow> False)))"

lemma span_currentI:
  assumes "db_ok d" "rows_find f_id fid (flows d) = Some r" "span_of_rows (flow_rows fid d) = Ok (f_timerange r)"
  shows "span_current fid d"
proof (cases "flow_rows fid d = []")
  case True
  then show ?thesis using assms(2,3) span_of_rows_Nil by (simp add: span_current_def)
next
  case False
  have "\<exists>s tr. span_of_rows (flow_rows fid d) = Ok (Some s) \<and> Parse s = Ok tr \<and>
      instants tr = {Min (g_lower_ns ` set (flow_rows fid d))..<Max (g_upper_ns ` set (flow_rows fid d))}"
    by (rule span_of_rows_hull [OF flow_rows_ok(1,2) [OF assms(1)] flow_rows_ok(3) [OF assms(1)] False])
  then show ?thesis using assms(2,3) by (auto simp: span_current_def)
qed

section \<open>Containment of ranges\<close>

lemma compareTS_val:
  assumes "wf_ts a" "wf_ts b"
  shows "compareTS a b < 0 \<longleftrightarrow> ts_val a < ts_val b" "compareTS a b > 0 \<longleftrightarrow> ts_val a > ts_val b"
  using before_iff [OF assms] before_iff [OF assms(2,1)]
  by (auto simp: compareTS_def before_def)

lemma innerStartLess_spec:
  assumes "bound_wf (Start outer) (StartType outer)" "StartType outer \<noteq> Unbounded"
    "bound_wf (Start inner) (StartType inner)" "StartType inner \<noteq> Unbounded"
  shows "\<exists>b. innerStartLess outer inner = Ok b \<and>
    (\<not> b \<longrightarrow> (\<forall>n. lower_ok (Start inner) (StartType inner) n \<longrightarrow> lower_ok (Start outer) (StartType outer) n))"
proof -
  from assms obtain i out where io: "Start inner = Some i" "Start outer = Some out" "wf_ts i" "wf_ts out"
    by (auto simp: bound_wf_def split: option.splits)
  then show ?thesis using assms(2,4) compareTS_val [OF io(3,4)]
    by (cases "StartType inner"; cases "StartType outer")
      (auto simp: innerStartLess_def Let_def lower_ok_def not_less)
qed

lemma innerEndGreater_spec:
  assumes "bound_wf (End outer) (EndType outer)" "EndType outer \<noteq> Unbounded"
    "bound_wf (End inner) (EndType inner)" "EndType inner \<noteq> Unbounded"
  shows "\<exists>b. innerEndGreater outer inner = Ok b \<and>
    (\<not> b \<longrightarrow> (\<forall>n. upper_ok (End inner) (EndType inner) n \<longrightarrow> upper_ok (End outer) (EndType outer) n))"
proof -
  from assms obtain i out where io: "End inner = Some i" "End outer = Some out" "wf_ts i" "wf_ts out"
    by (auto simp: bound_wf_def split: option.splits)
  then show ?thesis using assms(2,4) compareTS_val [OF io(3,4)]
    by (cases "EndType inner"; cases "EndType outer")
      (auto simp: innerEndGreater_def Let_def upper_ok_def not_less)
qed

lemma rangeContains_spec:
  assumes outer: "bound_wf (Start outer) (StartType outer)" "bound_wf (End outer) (EndType outer)"
    and inner: "wf_tr inner"
  shows "\<exists>b. rangeContains outer inner = Ok b \<and> (b \<longrightarrow> instants inner \<subseteq> instants outer)"
proof -
  note io = bound_wf_tr [OF outer, THEN conjunct2]
  consider "IsEternity outer" | "IsEmpty inner" | "IsEternity inner" "\<not> IsEternity outer" "\<not> IsEmpty inner"
    | "\<not> IsEternity outer" "\<not> IsEmpty inner" "\<not> IsEternity inner" by blast
  then show ?thesis
  proof cases
    case 1
    then have "instants outer = UNIV" using IsEternity_iff outer bound_wf_tr by blast
    then show ?thesis using 1 by (auto simp: rangeContains_def)
  next
    case 2
    then show ?thesis using IsEmpty_iff [OF inner] by (auto simp: rangeContains_def)
  next
    case 3
    then show ?thesis by (auto simp: rangeContains_def)
  next
    case 4
    note w = wf_nonempty [OF inner 4(2)]
    let ?lo = "if StartType outer \<noteq> Unbounded then
        if StartType inner = Unbounded then Ok True else innerStartLess outer inner else Ok False"
    let ?hi = "if EndType outer \<noteq> Unbounded then
        if EndType inner = Unbounded then Ok True else innerEndGreater outer inner else Ok False"
    have open_sides: "StartType outer = Unbounded \<Longrightarrow> lower_ok (Start outer) (StartType outer) n"
      "EndType outer = Unbounded \<Longrightarrow> upper_ok (End outer) (EndType outer) n" for n
      using outer by (simp_all add: bound_wf_def lower_ok_def upper_ok_def)
    have "\<exists>x. ?lo = Ok x \<and>
      (\<not> x \<longrightarrow> (\<forall>n. lower_ok (Start inner) (StartType inner) n \<longrightarrow> lower_ok (Start outer) (StartType outer) n))"
      using innerStartLess_spec [OF outer(1) _ w(1)] open_sides(1)
      by (cases "StartType outer = Unbounded"; cases "StartType inner = Unbounded") (simp_all, blast+)
    then obtain x where x: "?lo = Ok x"
      "\<not> x \<longrightarrow> (\<forall>n. lower_ok (Start inner) (StartType inner) n \<longrightarrow> lower_ok (Start outer) (StartType outer) n)"
      by blast
    have "\<exists>y. ?hi = Ok y \<and>
      (\<not> y \<longrightarrow> (\<forall>n. upper_ok (End inner) (EndType inner) n \<longrightarrow> upper_ok (End outer) (EndType outer) n))"
      using innerEndGreater_spec [OF outer(2) _ w(2)] open_sides(2)
      by (cases "EndType outer = Unbounded"; cases "EndType inner = Unbounded") (simp_all, blast+)
    then obtain y where y: "?hi = Ok y"
      "\<not> y \<longrightarrow> (\<forall>n. upper_ok (End inner) (EndType inner) n \<longrightarrow> upper_ok (End outer) (EndType outer) n)"
      by blast
    have "rangeContains outer inner = Ok (\<not> x \<and> \<not> y)"
      unfolding rangeContains_def x(1) y(1) using 4 by (cases x) auto
    then show ?thesis using x(2) y(2) unfolding io w(3) by auto
  qed
qed

text \<open>A stored empty range has no bound to compare with.\<close>

lemma rangeContains_empty_panics:
  assumes "wf_tr inner" "\<not> IsEmpty inner" "StartType inner \<noteq> Unbounded"
  shows "rangeContains emptyRange inner = Panic ''nil pointer dereference''"
proof -
  have "\<not> IsEternity inner" "\<not> IsEternity emptyRange" using assms(3) by (auto simp: IsEternity_def emptyRange_def)
  moreover obtain i where "Start inner = Some i"
    using wf_nonempty(1) [OF assms(1,2)] assms(3) by (auto simp: bound_wf_def)
  ultimately show ?thesis
    using assms by (simp add: rangeContains_def innerStartLess_def emptyRange_def)
qed

end
