(* ===== verification/Seg_Outcomes.thy ===== *)
theory Seg_Outcomes
  imports Seg_Span
begin

text \<open>
  Which batches \<^verbatim>\<open>InsertSegments\<close> accepts and which it rejects when the database answers every
  call: the guards, the overlap rule in terms of instants, and the conditions under which the
  whole batch is stored.
\<close>

lemma segmentBounds_wf:
  assumes "segmentBounds segs = Ok bounds" "list_all wf_segment segs" "i < length segs"
  shows "wf_bounds (bounds ! i)" "half_open (bounds ! i) = instants (Timerange (segs ! i))"
proof -
  have "wf_segment (segs ! i)" using assms(2,3) by (simp add: list_all_iff)
  from NsBounds_Ok [OF wf_segment_tr [OF this]] segmentBounds_Ok(2) [OF assms(1,3)]
  show "wf_bounds (bounds ! i)" "half_open (bounds ! i) = instants (Timerange (segs ! i))" by auto
qed

section \<open>Overlap\<close>

definition meets_row :: "uuid \<Rightarrow> db \<Rightarrow> Segment \<Rightarrow> bool" where
  "meets_row fid d sg \<longleftrightarrow>
     (\<exists>g \<in> set (segments d). g_flow_id g = fid \<and> row_instants g \<inter> instants (Timerange sg) \<noteq> {})"

definition meets_batch :: "Segment list \<Rightarrow> bool" where
  "meets_batch segs \<longleftrightarrow>
     (\<exists>i j. i < j \<and> j < length segs \<and> instants (Timerange (segs ! i)) \<inter> instants (Timerange (segs ! j)) \<noteq> {})"

lemma batch_overlap_meets:
  assumes "segmentBounds segs = Ok bounds" "list_all wf_segment segs"
  shows "batch_overlap bounds = None \<longleftrightarrow> \<not> meets_batch segs"
proof -
  have "boundsOverlap (bounds ! i) (bounds ! j) \<longleftrightarrow> instants (Timerange (segs ! i)) \<inter> instants (Timerange (segs ! j)) \<noteq> {}"
    if "i < j" "j < length segs" for i j
    using boundsOverlap_iff segmentBounds_wf [OF assms] that by simp
  then show ?thesis
    unfolding batch_overlap_None meets_batch_def segmentBounds_Ok(1) [OF assms(1)] by blast
qed

lemma int8range_bounds: "wf_bounds b \<Longrightarrow> int8range (lowerParam b) (upperParam b) = Ok (lowerParam b, upperParam b)"
  by (auto simp: int8range_def lowerParam_def upperParam_def wf_bounds_def)

lemma existingOverlap_meets:
  assumes "db_ok d" "wf_bounds b" "half_open b = instants (Timerange sg)"
  shows "\<exists>p. existingOverlap fid (lowerParam b) (upperParam b) d = Ok p \<and> (p = None \<longleftrightarrow> \<not> meets_row fid d sg)"
proof -
  have "ranges_overlap (Some (g_lower_ns g), Some (g_upper_ns g)) (lowerParam b, upperParam b) \<longleftrightarrow>
      row_instants g \<inter> instants (Timerange sg) \<noteq> {}" if "g \<in> set (segments d)" for g
  proof -
    have lt: "g_lower_ns g < g_upper_ns g"
      using assms(1) that row_ok_bounds by (auto simp: db_ok_def list_all_iff)
    let ?a = "\<lparr>Lower = g_lower_ns g, Upper = g_upper_ns g, LowerUnbounded = False, UpperUnbounded = False\<rparr>"
    have "row_ok g" using assms(1) that by (simp add: db_ok_def list_all_iff)
    then obtain tr b' where "wf_tr tr" "TimeRange_NsBounds tr = Ok b'" "\<not> LowerUnbounded b'"
      "\<not> UpperUnbounded b'" "Lower b' = g_lower_ns g" "Upper b' = g_upper_ns g" by (rule row_ok_Parse)
    then have "wf_bounds ?a" using NsBounds_Ok lt by (fastforce simp: wf_bounds_def)
    moreover have "half_open ?a = row_instants g" by (auto simp: half_open_def row_instants_def)
    ultimately show ?thesis
      using ranges_overlap_params [OF assms(2) lt] boundsOverlap_iff [of ?a b] assms(2,3) by simp
  qed
  then show ?thesis
    unfolding existingOverlap_def int8range_bounds [OF assms(2)] meets_row_def
    by (auto simp: find_None_iff)
qed

text \<open>An error that stands for an overlap and for nothing else.\<close>

definition only_overlap :: "go_error \<Rightarrow> bool" where
  "only_overlap e \<longleftrightarrow> (\<forall>s. errors_Is e s \<longleftrightarrow> s = ErrSegmentOverlap)"

lemma overlap_loop_outcome:
  assumes "no_faults env" "db_ok d"
    and "\<And>sg b. (sg, b) \<in> set sbs \<Longrightarrow> wf_bounds b \<and> half_open b = instants (Timerange sg)"
  shows "if \<exists>(sg, b) \<in> set sbs. meets_row fid d sg
    then \<exists>e. tfor (overlap_step env fid) i sbs d = (Err e, d) \<and> only_overlap e
    else tfor (overlap_step env fid) i sbs d = (Ok (), d)"
  using assms(3)
proof (induction sbs arbitrary: i)
  case (Cons sb sbs)
  obtain sg b where sb: "sb = (sg, b)" by force
  with Cons.prems have b: "wf_bounds b" "half_open b = instants (Timerange sg)" by auto
  from existingOverlap_meets [OF assms(2) b, of fid] obtain p where
    p: "existingOverlap fid (lowerParam b) (upperParam b) d = Ok p" "p = None \<longleftrightarrow> \<not> meets_row fid d sg" by blast
  have step: "overlap_step env fid i sb d = (case p of None \<Rightarrow> (Ok (), d)
      | Some s \<Rightarrow> (Err (Errorf [Lit ''metastore: InsertSegments: segment '', D (int i), Lit '' ('',
               S (TimerangeRaw sg), Lit '') overlaps existing '', S s, Lit '' on flow '', S fid,
               Lit '': '', W (Sentinel ErrSegmentOverlap)]), d))"
    using p(1) by (simp add: overlap_step_def sb tbind_def twrap_def tcall_no_faults [OF assms(1)] tx_defs
        split: option.split)
  show ?case
  proof (cases p)
    case None
    then have "tfor (overlap_step env fid) i (sb # sbs) d = tfor (overlap_step env fid) (Suc i) sbs d"
      using step by (simp add: tbind_def)
    moreover have "if \<exists>(sg, b) \<in> set sbs. meets_row fid d sg
        then \<exists>e. tfor (overlap_step env fid) (Suc i) sbs d = (Err e, d) \<and> only_overlap e
        else tfor (overlap_step env fid) (Suc i) sbs d = (Ok (), d)"
      by (rule Cons.IH) (use Cons.prems in auto)
    moreover have "(\<exists>(sg, b) \<in> set (sb # sbs). meets_row fid d sg) \<longleftrightarrow> (\<exists>(sg, b) \<in> set sbs. meets_row fid d sg)"
      using None p(2) sb by auto
    ultimately show ?thesis by metis
  next
    case (Some s)
    then have "tfor (overlap_step env fid) i (sb # sbs) d = overlap_step env fid i sb d"
      using step by (simp add: tbind_def)
    then show ?thesis using Some step p(2) sb by (auto simp: only_overlap_def)
  qed
qed (simp add: tret_def)

section \<open>Objects\<close>

text \<open>No object of the batch is being reaped, and no count leaves the width of its column.\<close>

definition object_room :: "db \<Rightarrow> Segment list \<Rightarrow> bool" where
  "object_room d sgs \<longleftrightarrow>
     (\<forall>k \<in> ObjectID ` set sgs.
        (case rows_find o_id k (objects d) of None \<Rightarrow> True | Some ob \<Rightarrow> \<not> o_reaping ob \<and> 0 \<le> o_ref_count ob) \<and>
        (case rows_find o_id k (objects d) of None \<Rightarrow> 0 | Some ob \<Rightarrow> o_ref_count ob)
          + int (count_list (map ObjectID sgs) k) \<le> 2147483647)"

definition storage_known :: "string \<Rightarrow> Segment list \<Rightarrow> bool" where
  "storage_known cid sgs \<longleftrightarrow> cid \<noteq> [] \<or> list_all (\<lambda>sg. GetURLs sg \<noteq> []) sgs"

lemma object_step_accepts:
  assumes "no_faults env" "object_room d (sg # sgs)" "storage_known cid (sg # sgs)"
  shows "\<exists>d1. object_step env cid i sg d = (Ok (), d1) \<and> object_room d1 sgs"
proof -
  let ?k = "ObjectID sg" and ?sid = "if GetURLs sg = [] then Some cid else None"
  have room: "case rows_find o_id ?k (objects d) of None \<Rightarrow> True
      | Some ob \<Rightarrow> \<not> o_reaping ob \<and> 0 \<le> o_ref_count ob \<and> o_ref_count ob + 1 \<le> 2147483647"
    using assms(2) by (auto simp: object_room_def split: option.splits)
  then obtain x d1 where up: "upsert_object ?k ?sid d = (Ok (Some x), d1)"
    by (cases "rows_find o_id ?k (objects d)") (auto simp: upsert_object_def int4_ok_def)
  have step: "object_step env cid i sg d = (Ok (), d1)"
    using up assms(3)
    by (auto simp: object_step_def storage_known_def Let_def tbind_def twrap_def tcall_no_faults [OF assms(1)] tx_defs)
  from upsert_object_Ok [OF up] obtain objs where o: "d1 = d\<lparr>objects := objs\<rparr>"
    "\<And>k. rows_find o_id k objs =
      (if k = ?k then Some (case rows_find o_id ?k (objects d) of
           None \<Rightarrow> \<lparr>o_id = ?k, o_ref_count = 1, o_storage_id = ?sid, o_reaping = False\<rparr>
         | Some ob \<Rightarrow> ob\<lparr>o_ref_count := o_ref_count ob + 1\<rparr>)
       else rows_find o_id k (objects d))" by blast
  have "object_room d1 sgs"
    unfolding object_room_def
  proof
    fix k assume k: "k \<in> ObjectID ` set sgs"
    then have "(case rows_find o_id k (objects d) of None \<Rightarrow> True | Some ob \<Rightarrow> \<not> o_reaping ob \<and> 0 \<le> o_ref_count ob) \<and>
        (case rows_find o_id k (objects d) of None \<Rightarrow> 0 | Some ob \<Rightarrow> o_ref_count ob)
          + int (count_list (map ObjectID (sg # sgs)) k) \<le> 2147483647"
      using assms(2) by (auto simp: object_room_def)
    then show "(case rows_find o_id k (objects d1) of None \<Rightarrow> True | Some ob \<Rightarrow> \<not> o_reaping ob \<and> 0 \<le> o_ref_count ob) \<and>
        (case rows_find o_id k (objects d1) of None \<Rightarrow> 0 | Some ob \<Rightarrow> o_ref_count ob)
          + int (count_list (map ObjectID sgs) k) \<le> 2147483647"
      by (cases "k = ?k"; cases "rows_find o_id k (objects d)") (auto simp: o)
  qed
  with step show ?thesis by blast
qed

lemma object_loop_accepts:
  assumes "no_faults env" "object_room d sgs" "storage_known cid sgs"
  shows "\<exists>d'. tfor (object_step env cid) i sgs d = (Ok (), d')"
  using assms(2,3)
proof (induction sgs arbitrary: i d)
  case (Cons sg sgs)
  from object_step_accepts [OF assms(1) Cons.prems] obtain d1 where
    d1: "object_step env cid i sg d = (Ok (), d1)" "object_room d1 sgs" by blast
  moreover have "storage_known cid sgs" using Cons.prems(2) by (auto simp: storage_known_def)
  ultimately show ?case using Cons.IH by (auto simp: tx_simps)
qed (simp add: tret_def)

text \<open>A new object range lies within the stored one, where there is one.\<close>

definition object_range_fits :: "db \<Rightarrow> Segment \<Rightarrow> bool" where
  "object_range_fits d sg =
     (case ObjectTimerange sg of
        None \<Rightarrow> True
      | Some otr \<Rightarrow>
          (case stored_object_timerange (ObjectID sg) d of
             None \<Rightarrow> True
           | Some str \<Rightarrow> (case Parse str of Ok stored \<Rightarrow> rangeContains stored otr = Ok True | _ \<Rightarrow> False)))"

lemma object_timerange_loop_accepts:
  assumes "no_faults env" "list_all (object_range_fits d) sgs"
  shows "tfor (object_timerange_step env) i sgs d = (Ok (), d)"
  using assms(2)
proof (induction sgs arbitrary: i)
  case (Cons sg sgs)
  have "object_timerange_step env i sg d = (Ok (), d)"
    using Cons.prems
    by (auto simp: object_timerange_step_def object_range_fits_def tbind_def twrap_def
        tcall_no_faults [OF assms(1)] tx_defs split: option.splits res.splits)
  then show ?case using Cons by (simp add: tbind_def)
qed (simp add: tret_def)

section \<open>Rows\<close>

definition row_fits :: "uuid \<Rightarrow> db \<Rightarrow> Segment \<times> NsBounds \<Rightarrow> bool" where
  "row_fits fid d sb \<longleftrightarrow>
     (case sb of (sg, b) \<Rightarrow>
        wf_bounds b \<and> \<not> LowerUnbounded b \<and> \<not> UpperUnbounded b \<and>
        (case KeyFrameCount sg of None \<Rightarrow> True | Some k \<Rightarrow> int4_ok k) \<and>
        rows_find o_id (ObjectID sg) (objects d) \<noteq> None \<and>
        (\<forall>g \<in> set (segments d). g_flow_id g = fid \<longrightarrow>
           \<not> ranges_overlap (Some (g_lower_ns g), Some (g_upper_ns g)) (Some (Lower b), Some (Upper b))))"

lemma insert_loop_accepts:
  assumes "no_faults env" "rows_find f_id fid (flows d) \<noteq> None"
    "seg_seq d + int (length sbs) \<le> MaxInt64 + 1" "list_all (row_fits fid d) sbs"
    "\<And>i j. i < j \<Longrightarrow> j < length sbs \<Longrightarrow> \<not> boundsOverlap (snd (sbs ! i)) (snd (sbs ! j))"
  shows "\<exists>d'. tfor (insert_step env fid) n sbs d = (Ok (), d')"
  using assms(2-)
proof (induction sbs arbitrary: n d)
  case (Cons sb sbs)
  obtain sg b where sb: "sb = (sg, b)" by force
  from Cons.prems(3) sb have f: "row_fits fid d (sg, b)" by simp
  let ?row = "segment_row_of (seg_seq d) (now env) fid (Lower b) (Upper b) sg"
  let ?d1 = "d\<lparr>seg_seq := seg_seq d + 1, segments := segments d @ [?row]\<rparr>"
  have lt: "Lower b < Upper b" using f by (auto simp: row_fits_def wf_bounds_def)
  have ins: "insert_segment env fid b sg d = (Ok (), ?d1)"
    using f lt Cons.prems(1,2) unfolding insert_segment_def
    by (auto simp: row_fits_def lowerParam_def upperParam_def rows_insert_def Let_def split: option.splits)
  then have step: "insert_step env fid n sb d = (Ok (), ?d1)"
    by (simp add: insert_step_def sb twrap_def tcall_no_faults [OF assms(1)])
  have "row_fits fid ?d1 sb'" if sb': "sb' \<in> set sbs" for sb'
  proof -
    obtain sg' b' where e: "sb' = (sg', b')" by force
    from sb' obtain j where "j < length sbs" "sbs ! j = sb'" by (auto simp: in_set_conv_nth)
    then have "\<not> boundsOverlap b b'" using Cons.prems(4) [of 0 "Suc j"] sb e by auto
    moreover have "row_fits fid d (sg', b')" using Cons.prems(3) sb' e by (auto simp: list_all_iff)
    ultimately show ?thesis
      using f lt by (auto simp: row_fits_def e segment_row_of_def ranges_overlap_def range_empty_def below_def
          boundsOverlap_def wf_bounds_def)
  qed
  then have fits: "list_all (row_fits fid ?d1) sbs" by (simp add: list_all_iff)
  have disj: "\<not> boundsOverlap (snd (sbs ! i)) (snd (sbs ! j))" if "i < j" "j < length sbs" for i j
    using Cons.prems(4) [of "Suc i" "Suc j"] that by simp
  have "\<exists>d'. tfor (insert_step env fid) (Suc n) sbs ?d1 = (Ok (), d')"
    using Cons.IH [of ?d1 "Suc n"] Cons.prems(1,2) fits disj by simp
  then show ?case using step by (auto simp: tx_simps)
qed (simp add: tret_def)

section \<open>Whole operations\<close>

definition flow_writable :: "uuid \<Rightarrow> db \<Rightarrow> bool" where
  "flow_writable fid d = (case rows_find f_id fid (flows d) of None \<Rightarrow> False | Some r \<Rightarrow> \<not> f_read_only r)"

lemma guard_no_faults:
  "no_faults env \<Longrightarrow> GetFlowForSegmentWrite env fid d = (Ok (flow_guard fid d), d)"
  by (simp add: GetFlowForSegmentWrite_def twrap_def tcall_no_faults tx_defs)

lemma writable_guard:
  "flow_writable fid d \<Longrightarrow> Exists (flow_guard fid d) \<and> \<not> ReadOnly (flow_guard fid d)"
  by (auto simp: flow_writable_def flow_guard_def split: option.splits)

lemma zip_bounds_wf:
  assumes "segmentBounds segs = Ok bounds" "list_all wf_segment segs" "(sg, b) \<in> set (zip segs bounds)"
  shows "wf_bounds b" "half_open b = instants (Timerange sg)"
  using segmentBounds_wf [OF assms(1,2)] assms(3) by (auto simp: set_zip)

lemma zip_bounds_set:
  "segmentBounds segs = Ok bounds \<Longrightarrow> (\<exists>(sg, b) \<in> set (zip segs bounds). P sg) \<longleftrightarrow> (\<exists>sg \<in> set segs. P sg)"
proof -
  assume "segmentBounds segs = Ok bounds"
  then have "length bounds = length segs" by (rule segmentBounds_Ok)
  then have "set segs = fst ` set (zip segs bounds)" by (metis list.set_map map_fst_zip)
  then show ?thesis by (auto simp: case_prod_unfold)
qed

lemma InsertSegments_overlap:
  assumes "no_faults env" "db_ok d" "flow_writable (ib_FlowID batch) d"
    "segmentBounds (ib_Segments batch) = Ok bounds" "list_all wf_segment (ib_Segments batch)"
    "meets_batch (ib_Segments batch) \<or> (\<exists>sg \<in> set (ib_Segments batch). meets_row (ib_FlowID batch) d sg)"
  shows "\<exists>e. InsertSegments env batch d = (Err e, d) \<and> only_overlap e"
proof (cases "meets_batch (ib_Segments batch)")
  case True
  then obtain ij where "batch_overlap bounds = Some ij" using batch_overlap_meets [OF assms(4,5)] by auto
  then show ?thesis using assms(4)
    by (cases ij) (auto simp: InsertSegments_def tbind_def tx_defs only_overlap_def)
next
  case False
  let ?fid = "ib_FlowID batch" and ?sbs = "zip (ib_Segments batch) bounds"
  from False have none: "batch_overlap bounds = None" using batch_overlap_meets [OF assms(4,5)] by simp
  have "\<exists>(sg, b) \<in> set ?sbs. meets_row ?fid d sg" using False assms(6) zip_bounds_set [OF assms(4)] by simp
  with overlap_loop_outcome [OF assms(1,2), of ?sbs ?fid 0] zip_bounds_wf [OF assms(4,5)]
  obtain e where e: "tfor (overlap_step env ?fid) 0 ?sbs d = (Err e, d)" "only_overlap e"
    by (metis (no_types, lifting))
  have "insert_body env batch bounds d = (Err e, d)"
    using guard_no_faults [OF assms(1), of ?fid d] writable_guard [OF assms(3)] e(1)
    by (simp add: insert_body_def tbind_def Let_def)
  then have "InsertSegments env batch d = (Err e, d)"
    using assms(4) none by (simp add: InsertSegments_def tbind_def tlift_def in_tx_no_faults [OF assms(1)])
  then show ?thesis using e(2) by blast
qed

lemma existing_apart:
  assumes "db_ok d" "wf_bounds b" "half_open b = instants (Timerange sg)" "\<not> meets_row fid d sg"
    "\<not> LowerUnbounded b" "\<not> UpperUnbounded b" "g \<in> set (segments d)" "g_flow_id g = fid"
  shows "\<not> ranges_overlap (Some (g_lower_ns g), Some (g_upper_ns g)) (Some (Lower b), Some (Upper b))"
proof -
  have p: "lowerParam b = Some (Lower b)" "upperParam b = Some (Upper b)"
    using assms(5,6) by (simp_all add: lowerParam_def upperParam_def)
  show ?thesis
    using existingOverlap_meets [OF assms(1-3), of fid] int8range_bounds [OF assms(2)] assms(4,7,8)
    unfolding p existingOverlap_def by (auto simp: find_None_iff)
qed

text \<open>A batch that meets the stated conditions is stored whole.\<close>

definition acceptable :: "InsertBatch \<Rightarrow> db \<Rightarrow> bool" where
  "acceptable batch d \<longleftrightarrow>
     (let segs = ib_Segments batch; fid = ib_FlowID batch
      in flow_writable fid d \<and> list_all wf_segment segs \<and>
         list_all (\<lambda>sg. bounds_of_text (TimerangeRaw sg) \<noteq> None) segs \<and>
         \<not> meets_batch segs \<and> list_all (\<lambda>sg. \<not> meets_row fid d sg) segs \<and>
         storage_known (ControlledStorageID batch) segs \<and> object_room d segs \<and>
         list_all (object_range_fits d) segs \<and>
         list_all (\<lambda>sg. case KeyFrameCount sg of None \<Rightarrow> True | Some k \<Rightarrow> int4_ok k) segs \<and>
         seg_seq d + int (length segs) \<le> MaxInt64 + 1)"

lemma rmap_all_Ok: "(\<And>x. x \<in> set xs \<Longrightarrow> \<exists>y. f x = Ok y) \<Longrightarrow> \<exists>ys. rmap f xs = Ok ys"
  by (induction xs) (auto simp: res_simps)

lemma bounded_NsBounds:
  assumes "wf_segment sg" "bounds_of_text (TimerangeRaw sg) \<noteq> None"
  shows "\<exists>b. TimeRange_NsBounds (Timerange sg) = Ok b \<and> \<not> LowerUnbounded b \<and> \<not> UpperUnbounded b"
  using assms by (auto simp: bounds_of_text_def wf_segment_def split: res.splits if_splits)

lemma segmentBounds_accepts:
  assumes "list_all wf_segment segs" "list_all (\<lambda>sg. bounds_of_text (TimerangeRaw sg) \<noteq> None) segs"
  shows "\<exists>bounds. segmentBounds segs = Ok bounds"
  unfolding segmentBounds_def
proof (rule rmap_all_Ok)
  fix x assume "x \<in> set (enumerate 0 segs)"
  then have "snd x \<in> set segs" by (metis enumerate_eq_zip in_set_zipE prod.collapse)
  then have "wf_segment (snd x)" "bounds_of_text (TimerangeRaw (snd x)) \<noteq> None"
    using assms by (auto simp: list_all_iff)
  then show "\<exists>y. (case x of (i, sg) \<Rightarrow> if TimerangeRaw sg = [] then
         Err (Errorf [Lit ''metastore: InsertSegments: segment '', D (int i),
           Lit '' has no client timerange string: '', W (Sentinel ErrBadInput)])
       else rwrap (\<lambda>e. Errorf [Lit ''metastore: InsertSegments: segment '', D (int i), Lit '' ('',
                     S (TimerangeRaw sg), Lit ''): '', W e])
              (TimeRange_NsBounds (Timerange sg))) = Ok y"
    using bounded_NsBounds [of "snd x"] by (auto simp: wf_segment_def case_prod_unfold)
qed

lemma stored_object_timerange_objects [simp]:
  "stored_object_timerange k (d\<lparr>objects := objs\<rparr>) = stored_object_timerange k d"
  by (simp add: stored_object_timerange_def)

lemma object_range_fits_objects [simp]: "object_range_fits (d\<lparr>objects := objs\<rparr>) = object_range_fits d"
  unfolding fun_eq_iff object_range_fits_def stored_object_timerange_objects by simp

lemma refresh_accepts:
  assumes "no_faults env" "span_of_rows (flow_rows fid d) = Ok span"
  shows "\<exists>d'. refreshFlowTimerange env fid d = (Ok (), d')"
  using assms
  by (simp add: refreshFlowTimerange_def flowSpan_def update_flow_def tbind_def twrap_def tcall_no_faults tx_defs)

lemma span_of_ok_rows:
  assumes "list_all row_ok rows" "sorted_wrt apart rows" "\<And>g. g \<in> set rows \<Longrightarrow> g_flow_id g = fid"
  shows "\<exists>span. span_of_rows rows = Ok span"
  using span_of_rows_hull [OF assms] span_of_rows_Nil by (cases "rows = []") auto

lemma insert_body_accepts:
  assumes env: "no_faults env" and ok: "db_ok d" and acc: "acceptable batch d"
    and bounds: "segmentBounds (ib_Segments batch) = Ok bounds"
  shows "\<exists>r d'. insert_body env batch bounds d = (Ok (r, True), d')"
proof -
  let ?fid = "ib_FlowID batch" and ?segs = "ib_Segments batch"
  let ?sbs = "zip ?segs bounds"
  from acc have a: "flow_writable ?fid d" "list_all wf_segment ?segs"
    "list_all (\<lambda>sg. bounds_of_text (TimerangeRaw sg) \<noteq> None) ?segs" "\<not> meets_batch ?segs"
    "list_all (\<lambda>sg. \<not> meets_row ?fid d sg) ?segs" "storage_known (ControlledStorageID batch) ?segs"
    "object_room d ?segs" "list_all (object_range_fits d) ?segs"
    "list_all (\<lambda>sg. case KeyFrameCount sg of None \<Rightarrow> True | Some k \<Rightarrow> int4_ok k) ?segs"
    "seg_seq d + int (length ?segs) \<le> MaxInt64 + 1"
    by (simp_all add: acceptable_def Let_def)
  note len = segmentBounds_Ok(1) [OF bounds]
  have l1: "tfor (overlap_step env ?fid) 0 ?sbs d = (Ok (), d)"
    using overlap_loop_outcome [OF env ok, of ?sbs ?fid 0] zip_bounds_wf [OF bounds a(2)]
      zip_bounds_set [OF bounds] a(5) by (simp add: list_all_iff)
  from object_loop_accepts [OF env a(7,6)] obtain d2 where
    l2: "tfor (object_step env (ControlledStorageID batch)) 0 ?segs d = (Ok (), d2)" by blast
  from object_loop [OF l2] obtain objs where o: "d2 = d\<lparr>objects := objs\<rparr>"
    "\<And>k. map_option o_ref_count (rows_find o_id k objs) =
      add_refs (rows_find o_id k (objects d)) (count_list (map ObjectID ?segs) k)" by blast
  have l3: "tfor (object_timerange_step env) 0 ?segs d2 = (Ok (), d2)"
    using object_timerange_loop_accepts [OF env] a(8) o(1) by simp
  have fits: "row_fits ?fid d2 (sg, b)" if sb: "(sg, b) \<in> set ?sbs" for sg b
  proof -
    have sg: "sg \<in> set ?segs" using sb by (rule set_zip_leftD)
    from sb obtain i where i: "i < length ?segs" "sg = ?segs ! i" "b = bounds ! i" by (auto simp: set_zip)
    have "TimeRange_NsBounds (Timerange sg) = Ok b" using segmentBounds_Ok(2) [OF bounds i(1)] i by simp
    then have bd: "\<not> LowerUnbounded b" "\<not> UpperUnbounded b"
      using bounded_NsBounds [of sg] a(2,3) sg by (auto simp: list_all_iff)
    have "rows_find o_id (ObjectID sg) objs \<noteq> None"
      using o(2) [of "ObjectID sg"] add_refs_None sg
      by (metis count_list_0_iff image_eqI list.set_map option.map_disc_iff)
    then show ?thesis
      using zip_bounds_wf [OF bounds a(2) sb] bd a(5,9) sg existing_apart [OF ok]
      unfolding row_fits_def by (auto simp: o(1) list_all_iff)
  qed
  have disj: "\<not> boundsOverlap (snd (?sbs ! i)) (snd (?sbs ! j))" if "i < j" "j < length ?sbs" for i j
    using batch_overlap_meets [OF bounds a(2)] a(4) that len by (auto simp: batch_overlap_None)
  have l4: "\<exists>d4. tfor (insert_step env ?fid) 0 ?sbs d2 = (Ok (), d4)"
  proof (rule insert_loop_accepts [OF env])
    show "rows_find f_id ?fid (flows d2) \<noteq> None"
      using a(1) by (auto simp: flow_writable_def o(1) split: option.splits)
    show "seg_seq d2 + int (length ?sbs) \<le> MaxInt64 + 1" using a(10) len by (simp add: o(1))
    show "list_all (row_fits ?fid d2) ?sbs" using fits by (auto simp: list_all_iff)
  qed (use disj in blast)
  then obtain d4 where d4: "tfor (insert_step env ?fid) 0 ?sbs d2 = (Ok (), d4)" by blast
  note i = insert_loop [OF d4]
  have old: "list_all row_ok (segments d)" "sorted_wrt apart (segments d)" using ok by (simp_all add: db_ok_def)
  have new: "row_ok g" if g: "g \<in> set (new_rows env ?fid (seg_seq d2) ?sbs)" for g
  proof -
    from g len obtain k where k: "k < length ?segs" "g = segment_row_of (seg_seq d2 + int k) (now env) ?fid
        (Lower (bounds ! k)) (Upper (bounds ! k)) (?segs ! k)" by (rule new_rows_in)
    have "(?segs ! k, bounds ! k) \<in> set ?sbs" using k len by (auto simp: set_zip)
    from fits [OF this] show ?thesis
      unfolding k(2) using segment_row_ok segmentBounds_Ok(2) [OF bounds k(1)] a(2) k(1)
      by (auto simp: row_fits_def list_all_iff)
  qed
  have "list_all row_ok (segments d4)" using old new i(1) by (auto simp: o(1) list_all_iff)
  moreover have "sorted_wrt apart (segments d4)"
    using i(3) old row_ok_bounds by (auto simp: o(1) list_all_iff)
  ultimately have "\<exists>span. span_of_rows (flow_rows ?fid d4) = Ok span"
    by (intro span_of_ok_rows [where fid = ?fid]) (auto simp: flow_rows_def list_all_iff sorted_wrt_filter)
  then obtain d5 where l5: "refreshFlowTimerange env ?fid d4 = (Ok (), d5)" using refresh_accepts [OF env] by blast
  show ?thesis
    using guard_no_faults [OF env, of ?fid d] writable_guard [OF a(1)] l1 l2 l3 d4 l5
    by (simp add: insert_body_def Let_def tbind_def twrap_def tret_def)
qed

lemma InsertSegments_accepts:
  assumes "no_faults env" "db_ok d" "acceptable batch d"
  shows "\<exists>bounds d'. segmentBounds (ib_Segments batch) = Ok bounds \<and>
    InsertSegments env batch d =
      (Ok \<lparr>AcceptedIndices = [0..<length (ib_Segments batch)], RejectedIndices = [], RejectReasons = []\<rparr>, d') \<and>
    insert_effect env batch bounds d d'"
proof -
  from assms(3) have a: "list_all wf_segment (ib_Segments batch)" "\<not> meets_batch (ib_Segments batch)"
    "list_all (\<lambda>sg. bounds_of_text (TimerangeRaw sg) \<noteq> None) (ib_Segments batch)"
    by (simp_all add: acceptable_def Let_def)
  from segmentBounds_accepts [OF a(1,3)] obtain bounds where b: "segmentBounds (ib_Segments batch) = Ok bounds" by blast
  from insert_body_accepts [OF assms b] obtain r d' where body: "insert_body env batch bounds d = (Ok (r, True), d')" by blast
  have "batch_overlap bounds = None" using batch_overlap_meets [OF b a(1)] a(2) by simp
  then have "InsertSegments env batch d = (Ok r, d')"
    using b body by (simp add: InsertSegments_def tbind_def tlift_def in_tx_no_faults [OF assms(1)])
  then show ?thesis using b insert_body_Ok(2,3) [OF body segmentBounds_Ok(1) [OF b]] by blast
qed

end
