(* ===== verification/Segment_Service.thy ===== *)
theory Segment_Service
  imports Seg_Outcomes
begin

text \<open>
  The segment service of \<^verbatim>\<open>internal/service/segment/segment.go\<close>. The operations take the
  store they call as arguments, as the service holds it behind the interface
  \<^verbatim>\<open>metastore.Store\<close>; \<open>segment_store\<close> is that interface with the laws the service relies on,
  and \<open>pg\<close> shows that the PostgreSQL store keeps them. Log lines and counters are left out;
  the label functions \<^verbatim>\<open>classifyErr\<close> and \<^verbatim>\<open>outcomeLabel\<close> are in.
\<close>

definition classifyErr :: "go_error \<Rightarrow> string" where
  "classifyErr err =
     (if errors_Is err Seg_ErrFlowNotFound \<or> errors_Is err Meta_ErrFlowNotFound then slug NotFound
      else if errors_Is err Seg_ErrFlowReadOnly \<or> errors_Is err Meta_ErrFlowReadOnly then slug ReadOnlyCode
      else if errors_Is err ErrInvalidRequest then slug SchemaValidation
      else if errors_Is err ErrSegmentOverlap then slug SegmentOverlap
      else if errors_Is err ErrSegmentObjectReaping then slug ObjectReaping
      else if errors_Is err ErrInvalidCursor then slug SchemaValidation
      else case errors_As err of
             Some (code, status, detail) \<Rightarrow> if code \<noteq> NoCode then slug code else ''internal''
           | None \<Rightarrow> ''internal'')"

definition outcomeLabel :: "RegisterOutcome \<Rightarrow> string" where
  "outcomeLabel out =
     (case out of
        OutcomeAllAccepted \<Rightarrow> ''all_accepted''
      | OutcomePartial \<Rightarrow> ''partial''
      | OutcomeAllRejected \<Rightarrow> ''all_rejected''
      | NoOutcome \<Rightarrow> ''unknown'')"

section \<open>Validation\<close>

definition segmentTimerangeViolation :: "TimeRange \<Rightarrow> string" where
  "segmentTimerangeViolation tr =
     (if IsEmpty tr then ''segment timerange must not be empty''
      else if Start tr = None \<or> End tr = None then ''segment timerange must have a start and an end''
      else if StartType tr \<noteq> Inclusive then ''segment timerange must have an inclusive start''
      else case TimeRange_NsBounds tr of
             Ok _ \<Rightarrow> []
           | _ \<Rightarrow> ''segment timerange bounds must fit in int64 nanoseconds'')"

definition checkQueryTimerange :: "TimeRange \<Rightarrow> unit res" where
  "checkQueryTimerange tr =
     (case TimeRange_NsBounds tr of
        Err err \<Rightarrow>
          if errors_Is err ErrOutOfRange then Err (New InvalidTimerange [Lit ''timerange: '', T err])
          else Ok ()
      | Ok _ \<Rightarrow> Ok ()
      | Panic p \<Rightarrow> Panic p)"

text \<open>\<^verbatim>\<open>apperror.New(code, detail).ToProblemDetails("", "")\<close>.\<close>

definition problem_of :: "ErrorCode \<Rightarrow> message \<Rightarrow> ProblemDetails" where
  "problem_of code detail = ToProblemDetails (the (errors_As (New code detail))) [] []"

definition stamp :: "Segment \<Rightarrow> Segment" where
  "stamp sg = sg\<lparr>GetURLs := map (\<lambda>u. u\<lparr>Controlled := False\<rparr>) (GetURLs sg)\<rparr>"

definition segment_failure :: "Segment \<Rightarrow> FailedSegment option" where
  "segment_failure sg =
     (if ObjectID sg = [] then
        Some \<lparr>fs_Segment = sg, fs_Reason = [Lit ''object_id is required''],
              fs_Type = pd_Type (problem_of SchemaValidation []),
              fs_Title = ''Schema Validation Failed'', fs_Status = 400\<rparr>
      else
        let reason = segmentTimerangeViolation (Timerange sg)
        in if reason \<noteq> [] then
             let pd = problem_of InvalidTimerange [Lit reason]
             in Some \<lparr>fs_Segment = sg, fs_Reason = [Lit reason], fs_Type = pd_Type pd,
                      fs_Title = pd_Title pd, fs_Status = pd_Status pd\<rparr>
           else None)"

definition validate_step ::
    "FailedSegment list \<times> Segment list \<times> nat list \<Rightarrow> nat \<times> Segment \<Rightarrow>
     FailedSegment list \<times> Segment list \<times> nat list" where
  "validate_step st isg =
     (let (failed, survivors, survivorIdx) = st;
          (i, sg0) = isg;
          sg = stamp sg0
      in case segment_failure sg of
           Some f \<Rightarrow> (failed @ [f], survivors, survivorIdx)
         | None \<Rightarrow> (failed, survivors @ [sg], survivorIdx @ [i]))"

definition validate_batch :: "Segment list \<Rightarrow> FailedSegment list \<times> Segment list \<times> nat list" where
  "validate_batch segs = foldl validate_step ([], [], []) (enumerate 0 segs)"

section \<open>RegisterBatch\<close>

definition index_at :: "'a list \<Rightarrow> nat \<Rightarrow> 'a res" where
  "index_at xs i = (if i < length xs then Ok (xs ! i) else Panic ''index out of range'')"

text \<open>The reason the store gave for the survivor \<open>k\<close>: the last parallel entry wins.\<close>

definition reject_reason :: "InsertResult \<Rightarrow> nat \<Rightarrow> message \<times> string" where
  "reject_reason ir k =
     foldl (\<lambda>(reason, typeURI) (ri, idx).
         if idx = k \<and> ri < length (RejectReasons ir) then
           ([S (rr_Detail (RejectReasons ir ! ri))],
            if rr_Type (RejectReasons ir ! ri) \<noteq> [] then rr_Type (RejectReasons ir ! ri) else typeURI)
         else (reason, typeURI))
       ([Lit ''rejected by metastore''], pd_Type (problem_of SchemaValidation []))
       (enumerate 0 (RejectedIndices ir))"

definition rejected_step ::
    "InsertResult \<Rightarrow> Segment list \<Rightarrow> nat \<times> nat \<Rightarrow> FailedSegment list \<Rightarrow> FailedSegment list res" where
  "rejected_step ir survivors kl failed =
     (let (k, localIdx) = kl
      in if k \<in> set (AcceptedIndices ir) then Ok failed
         else
           let (reason, typeURI) = reject_reason ir k
           in rbind (index_at survivors localIdx) (\<lambda>sg.
             Ok (failed @ [\<lparr>fs_Segment = sg, fs_Reason = reason, fs_Type = typeURI,
               fs_Title = ''Schema Validation Failed'', fs_Status = 400\<rparr>])))"

definition outcome_of :: "Segment list \<Rightarrow> FailedSegment list \<Rightarrow> RegisterOutcome" where
  "outcome_of accepted failed =
     (if failed = [] \<and> accepted \<noteq> [] then OutcomeAllAccepted
      else if accepted = [] \<and> failed \<noteq> [] then OutcomeAllRejected
      else OutcomePartial)"

definition assemble ::
    "FailedSegment list \<Rightarrow> Segment list \<Rightarrow> nat list \<Rightarrow> InsertResult \<Rightarrow> RegisterResult res" where
  "assemble failed survivors survivorIdx ir =
     rbind (rmap (index_at survivors) (AcceptedIndices ir)) (\<lambda>accepted.
     rbind (rfold (rejected_step ir survivors) (enumerate 0 survivorIdx) failed) (\<lambda>failed.
     Ok \<lparr>Outcome = outcome_of accepted failed, Accepted = accepted, Failed = failed\<rparr>))"

definition register_error :: "go_error \<Rightarrow> go_error" where
  "register_error err =
     (if errors_Is err Meta_ErrFlowNotFound then
        Errorf [Lit ''segment: register: '', W (Sentinel Seg_ErrFlowNotFound)]
      else if errors_Is err Meta_ErrFlowReadOnly then
        Errorf [Lit ''segment: register: '', W (Sentinel Seg_ErrFlowReadOnly)]
      else if errors_Is err ErrSegmentOverlap \<or> errors_Is err ErrSegmentObjectReaping then err
      else Errorf [Lit ''segment: register: '', W err])"

definition registerBatch ::
    "(InsertBatch \<Rightarrow> InsertResult tx) \<Rightarrow> string \<Rightarrow> RegisterParams \<Rightarrow> RegisterResult tx" where
  "registerBatch ins controlledStorageID req =
     (if rp_Segments req = [] then
        tfail (Errorf [Lit ''segment: register: empty batch: '', W (Sentinel ErrInvalidRequest)])
      else
        let (failed, survivors, survivorIdx) = validate_batch (rp_Segments req)
        in if survivors = [] then
             tret \<lparr>Outcome = OutcomeAllRejected, Accepted = [], Failed = failed\<rparr>
           else
             tbind (twrap register_error
               (ins \<lparr>ib_FlowID = rp_FlowID req, ib_Segments = survivors,
                     ControlledStorageID = controlledStorageID\<rparr>)) (\<lambda>insertRes.
             tlift (assemble failed survivors survivorIdx insertRes)))"

section \<open>List and Delete\<close>

definition list_error :: "go_error \<Rightarrow> go_error" where
  "list_error err =
     (if errors_Is err Meta_ErrFlowNotFound then
        Errorf [Lit ''segment: list: '', W (Sentinel Seg_ErrFlowNotFound)]
      else if errors_Is err ErrInvalidCursor then err
      else Errorf [Lit ''segment: list: '', W err])"

definition query_of :: "ListParams \<Rightarrow> ListQuery" where
  "query_of req =
     \<lparr>lq_FlowID = lp_FlowID req, lq_Timerange = lp_Timerange req, lq_ObjectID = lp_ObjectID req,
      lq_ReverseOrder = lp_ReverseOrder req, lq_VerboseStorage = lp_VerboseStorage req,
      lq_AcceptGetURLs = lp_AcceptGetURLs req, lq_AcceptStorageIDs = lp_AcceptStorageIDs req,
      lq_Presigned = lp_Presigned req, lq_IncludeObjectTimerange = lp_IncludeObjectTimerange req,
      lq_Page = lp_Page req, lq_Limit = lp_Limit req\<rparr>"

definition segment_list :: "(ListQuery \<Rightarrow> SegmentPage tx) \<Rightarrow> ListParams \<Rightarrow> SegmentPage tx" where
  "segment_list lst req =
     tbind (case lp_Timerange req of None \<Rightarrow> tret () | Some tr \<Rightarrow> tlift (checkQueryTimerange tr)) (\<lambda>_.
       twrap list_error (lst (query_of req)))"

definition delete_error :: "go_error \<Rightarrow> go_error" where
  "delete_error err =
     (if errors_Is err Meta_ErrFlowNotFound then
        Errorf [Lit ''segment: delete: '', W (Sentinel Seg_ErrFlowNotFound)]
      else if errors_Is err Meta_ErrFlowReadOnly then
        Errorf [Lit ''segment: delete: '', W (Sentinel Seg_ErrFlowReadOnly)]
      else Errorf [Lit ''segment: delete: '', W err])"

definition segment_delete :: "(DeleteQuery \<Rightarrow> DeleteResult tx) \<Rightarrow> DeleteParams \<Rightarrow> DeleteResult tx" where
  "segment_delete del req =
     tbind (tlift (checkQueryTimerange (dp_Timerange req))) (\<lambda>_.
     tbind (twrap delete_error
       (del \<lparr>dq_FlowID = dp_FlowID req, dq_Timerange = dp_Timerange req, dq_ObjectID = dp_ObjectID req\<rparr>)) (\<lambda>mres.
     tret \<lparr>DeletedCount = DeletedCount mres\<rparr>))"

section \<open>What validation keeps\<close>

definition valid_segment :: "Segment \<Rightarrow> bool" where
  "valid_segment sg \<longleftrightarrow> segment_failure (stamp sg) = None"

lemma stamp_simps [simp]:
  "ObjectID (stamp sg) = ObjectID sg" "Timerange (stamp sg) = Timerange sg" "TimerangeRaw (stamp sg) = TimerangeRaw sg"
  "wf_segment (stamp sg) = wf_segment sg" "KeyFrameCount (stamp sg) = KeyFrameCount sg"
  "ObjectTimerange (stamp sg) = ObjectTimerange sg" "GetURLs (stamp sg) = [] \<longleftrightarrow> GetURLs sg = []"
  by (simp_all add: stamp_def wf_segment_def)

lemma foldl_validate:
  "foldl validate_step (fs, ss, ix) (enumerate n segs) =
     (fs @ List.map_filter (\<lambda>sg. segment_failure (stamp sg)) segs,
      ss @ map stamp (filter valid_segment segs),
      ix @ map fst (filter (\<lambda>(i, sg). valid_segment sg) (enumerate n segs)))"
  by (induction segs arbitrary: fs ss ix n)
    (auto simp: validate_step_def valid_segment_def map_filter_simps split: option.split)

lemma validate_batch_spec:
  "validate_batch segs =
     (List.map_filter (\<lambda>sg. segment_failure (stamp sg)) segs, map stamp (filter valid_segment segs),
      map fst (filter (\<lambda>(i, sg). valid_segment sg) (enumerate 0 segs)))"
  by (simp add: validate_batch_def foldl_validate)

lemma length_filter_enumerate:
  "length (filter (\<lambda>(i, sg). P sg) (enumerate n segs)) = length (filter P segs)"
  by (induction segs arbitrary: n) auto

lemma segment_failure_segment: "segment_failure sg = Some f \<Longrightarrow> fs_Segment f = sg"
  by (auto simp: segment_failure_def Let_def split: if_splits)

lemma map_filter_failed:
  "map fs_Segment (List.map_filter (\<lambda>sg. segment_failure (stamp sg)) segs) =
   map stamp (filter (\<lambda>sg. \<not> valid_segment sg) segs)"
  by (induction segs) (auto simp: map_filter_simps valid_segment_def dest: segment_failure_segment split: option.split)

lemma valid_segment_iff:
  "valid_segment sg \<longleftrightarrow> ObjectID sg \<noteq> [] \<and> segmentTimerangeViolation (Timerange sg) = []"
  by (simp add: valid_segment_def segment_failure_def Let_def)

lemma no_violation:
  assumes "segmentTimerangeViolation tr = []"
  shows "\<not> IsEmpty tr" "Start tr \<noteq> None" "End tr \<noteq> None" "StartType tr = Inclusive"
    "\<exists>b. TimeRange_NsBounds tr = Ok b"
  using assms by (auto simp: segmentTimerangeViolation_def split: if_splits res.splits)

lemma NsBounds_unbounded:
  assumes "TimeRange_NsBounds tr = Ok b"
  shows "LowerUnbounded b \<longleftrightarrow> Start tr = None" "UpperUnbounded b \<longleftrightarrow> End tr = None"
  using assms
  by (auto simp: TimeRange_NsBounds_def res_simps zeroBounds_def split: if_splits option.splits)

text \<open>A valid segment has bounds the table can hold.\<close>

lemma valid_segment_bounded:
  assumes "wf_segment sg" "valid_segment sg"
  shows "bounds_of_text (TimerangeRaw sg) \<noteq> None"
proof -
  have v: "segmentTimerangeViolation (Timerange sg) = []" using assms(2) by (simp add: valid_segment_iff)
  from no_violation(5) [OF v] obtain b where b: "TimeRange_NsBounds (Timerange sg) = Ok b" by blast
  have "\<not> LowerUnbounded b" "\<not> UpperUnbounded b"
    using NsBounds_unbounded [OF b] no_violation(2,3) [OF v] by auto
  then show ?thesis using assms(1) b by (simp add: bounds_of_text_def wf_segment_def)
qed

lemma assemble_all:
  assumes "length idx = length survivors"
  shows "assemble failed survivors idx
      \<lparr>AcceptedIndices = [0..<length survivors], RejectedIndices = [], RejectReasons = []\<rparr> =
    Ok \<lparr>Outcome = outcome_of survivors failed, Accepted = survivors, Failed = failed\<rparr>"
proof -
  let ?ir = "\<lparr>AcceptedIndices = [0..<length survivors], RejectedIndices = [], RejectReasons = []\<rparr>"
  have a: "rmap (index_at survivors) [0..<length survivors] = Ok survivors"
    unfolding rmap_Ok_list_all2 by (simp add: list_all2_conv_all_nth index_at_def)
  have "rfold (rejected_step ?ir survivors) (enumerate n idx) failed = Ok failed" if "n + length idx \<le> length survivors" for n
    using that by (induction idx arbitrary: n) (auto simp: rejected_step_def)
  then have "rfold (rejected_step ?ir survivors) (enumerate 0 idx) failed = Ok failed" using assms by simp
  then show ?thesis using a by (simp add: assemble_def)
qed

section \<open>The store interface\<close>

text \<open>The batch the store is asked to insert.\<close>

definition sent :: "string \<Rightarrow> RegisterParams \<Rightarrow> InsertBatch" where
  "sent cid req = \<lparr>ib_FlowID = rp_FlowID req, ib_Segments = map stamp (filter valid_segment (rp_Segments req)),
     ControlledStorageID = cid\<rparr>"

locale segment_store =
  fixes ins :: "InsertBatch \<Rightarrow> InsertResult tx"
    and lst :: "ListQuery \<Rightarrow> SegmentPage tx"
    and del :: "DeleteQuery \<Rightarrow> DeleteResult tx"
    and inv :: "db \<Rightarrow> bool"
  assumes ins_all: "ins b d = (Ok r, d') \<Longrightarrow>
      r = \<lparr>AcceptedIndices = [0..<length (ib_Segments b)], RejectedIndices = [], RejectReasons = []\<rparr>"
    and ins_inv: "inv d \<Longrightarrow> list_all wf_segment (ib_Segments b) \<Longrightarrow> ins b d = (r'', d') \<Longrightarrow> inv d'"
    and del_inv: "inv d \<Longrightarrow> del q d = (r', d') \<Longrightarrow> inv d'"
    and lst_reads: "lst q' d = (r''', d') \<Longrightarrow> d' = d"
begin

lemma register_Ok:
  assumes "registerBatch ins cid req d = (Ok res, d')"
  shows "Accepted res = map stamp (filter valid_segment (rp_Segments req))"
    and "map fs_Segment (Failed res) = map stamp (filter (\<lambda>sg. \<not> valid_segment sg) (rp_Segments req))"
    and "Outcome res = outcome_of (Accepted res) (Failed res)"
    and "filter valid_segment (rp_Segments req) = [] \<and> d' = d \<or> (\<exists>r. ins (sent cid req) d = (Ok r, d'))"
proof -
  let ?segs = "rp_Segments req"
  let ?failed = "List.map_filter (\<lambda>sg. segment_failure (stamp sg)) ?segs"
  let ?surv = "map stamp (filter valid_segment ?segs)"
  let ?idx = "map fst (filter (\<lambda>(i, sg). valid_segment sg) (enumerate 0 ?segs))"
  have ne: "?segs \<noteq> []" using assms by (auto simp: registerBatch_def tx_simps split: if_splits)
  have "Accepted res = ?surv \<and> Failed res = ?failed \<and> Outcome res = outcome_of ?surv ?failed \<and>
      (?surv = [] \<and> d' = d \<or> (\<exists>r. ins (sent cid req) d = (Ok r, d')))"
  proof (cases "filter valid_segment ?segs = []")
    case True
    then have "map fs_Segment ?failed = map stamp ?segs" using map_filter_failed [of ?segs] by (simp add: filter_empty_conv)
    then have "?failed \<noteq> []" using ne by (metis Nil_is_map_conv)
    then show ?thesis
      using assms True ne by (auto simp: registerBatch_def validate_batch_spec tx_simps outcome_of_def)
  next
    case False
    from assms False ne obtain r where
      r: "ins (sent cid req) d = (Ok r, d')" "assemble ?failed ?surv ?idx r = Ok res"
      by (auto simp: registerBatch_def validate_batch_spec tx_simps sent_def)
    have "r = \<lparr>AcceptedIndices = [0..<length ?surv], RejectedIndices = [], RejectReasons = []\<rparr>"
      using ins_all [OF r(1)] by (simp add: sent_def)
    then show ?thesis
      using r assemble_all [of ?idx ?surv ?failed] by (auto simp: length_filter_enumerate)
  qed
  then show "Accepted res = ?surv" "Outcome res = outcome_of (Accepted res) (Failed res)"
    "filter valid_segment ?segs = [] \<and> d' = d \<or> (\<exists>r. ins (sent cid req) d = (Ok r, d'))"
    "map fs_Segment (Failed res) = map stamp (filter (\<lambda>sg. \<not> valid_segment sg) ?segs)"
    using map_filter_failed by auto
qed

lemma register_counts:
  assumes "registerBatch ins cid req d = (Ok res, d')"
  shows "length (Accepted res) + length (Failed res) = length (rp_Segments req)"
proof -
  have "length (Failed res) = length (filter (\<lambda>sg. \<not> valid_segment sg) (rp_Segments req))"
    using register_Ok(2) [OF assms] by (metis length_map)
  then show ?thesis
    using register_Ok(1) [OF assms] sum_length_filter_compl [of valid_segment "rp_Segments req"] by simp
qed

lemma register_inv:
  assumes "inv d" "list_all wf_segment (rp_Segments req)" "registerBatch ins cid req d = (r, d')"
  shows "inv d'"
proof -
  have wf: "list_all wf_segment (ib_Segments (sent cid req))"
    using assms(2) by (auto simp: sent_def list_all_iff)
  have "d' = d \<or> d' = snd (ins (sent cid req) d)"
    using assms(3)
    by (auto simp: registerBatch_def validate_batch_spec sent_def tbind_def twrap_def tx_defs
        split: if_splits prod.splits res.splits)
  then show ?thesis using assms(1) ins_inv [OF assms(1) wf] by (metis prod.collapse)
qed

lemma delete_inv:
  assumes "inv d" "segment_delete del req d = (r, d')"
  shows "inv d'"
proof -
  have "d' = d \<or> d' = snd (del \<lparr>dq_FlowID = dp_FlowID req, dq_Timerange = dp_Timerange req,
      dq_ObjectID = dp_ObjectID req\<rparr> d)"
    using assms(2) by (auto simp: segment_delete_def tbind_def twrap_def tx_defs split: prod.splits res.splits)
  then show ?thesis using assms(1) del_inv [OF assms(1)] by (metis prod.collapse)
qed

lemma list_reads: "segment_list lst req d = (r, d') \<Longrightarrow> d' = d"
  using lst_reads
  by (auto simp: segment_list_def tbind_def twrap_def tx_defs split: prod.splits res.splits option.splits)

end

section \<open>The PostgreSQL store\<close>

lemma InsertSegments_db_ok:
  assumes "db_ok d" "list_all wf_segment (ib_Segments batch)" "InsertSegments env batch d = (r, d')"
  shows "db_ok d'"
  using assms(3)
proof (cases rule: InsertSegments_cases)
  case kept
  then show ?thesis using db_ok_seq [OF assms(1) kept(2)] by simp
next
  case (lost bounds e)
  then show ?thesis using insert_effect_db_ok [OF assms(1) _ assms(2)] by blast
next
  case (finished bounds)
  then show ?thesis using insert_effect_db_ok [OF assms(1) _ assms(2)] by blast
qed

lemma DeleteSegments_db_ok:
  assumes "db_ok d" "DeleteSegmentsByTimerange env q d = (r, d')"
  shows "db_ok d'"
  using assms(2)
proof (cases rule: DeleteSegments_cases)
  case kept
  then show ?thesis using db_ok_seq [OF assms(1) kept(2)] by simp
next
  case (lost lo hi e)
  then show ?thesis using delete_effect_db_ok [OF assms(1)] by blast
next
  case (finished lo hi)
  then show ?thesis using delete_effect_db_ok [OF assms(1)] by blast
qed

lemma InsertSegments_all:
  "InsertSegments env b d = (Ok r, d') \<Longrightarrow>
    r = \<lparr>AcceptedIndices = [0..<length (ib_Segments b)], RejectedIndices = [], RejectReasons = []\<rparr>"
  by (erule InsertSegments_cases) auto

interpretation pg: segment_store "InsertSegments env" "ListSegments env" "DeleteSegmentsByTimerange env" db_ok for env
  by unfold_locales
    (auto intro: InsertSegments_all InsertSegments_db_ok DeleteSegments_db_ok
      dest: tx_relD [OF ListSegments_reads])

end
