(* ===== verification/Idempotency.thy ===== *)
theory Idempotency
  imports Seg_Store
begin

text \<open>
  The idempotency store of \<^verbatim>\<open>internal/idempotency/idempotency.go\<close>: claiming a key, recording the
  response, releasing the key, and the two reapers. Durations are in the resolution of the
  time columns. \<open>clock\<close> is the clock of the process, \<^verbatim>\<open>now\<close> that of the server.
\<close>

datatype Status = StatusAcquired | StatusInFlight | StatusCached | StatusConflict

record CachedResponse =
  cr_Status :: int
  cr_Body :: "json option"

record AcquireResult =
  ar_Status :: Status
  ar_Cached :: "CachedResponse option"

definition validateKey :: "string \<Rightarrow> unit res" where
  "validateKey key =
     (if key = [] then Err (New SchemaValidation [Lit ''idempotency key must not be empty''])
      else if length key > 255 then Err (New SchemaValidation [Lit ''idempotency key exceeds 255 characters''])
      else Ok ())"

section \<open>Statements\<close>

definition delete_keys :: "(idempotency_row \<Rightarrow> bool) \<Rightarrow> int tx" where
  "delete_keys P = (\<lambda>d.
     (Ok (int (length (filter P (idempotency_keys d)))),
      d\<lparr>idempotency_keys := filter (\<lambda>r. \<not> P r) (idempotency_keys d)\<rparr>))"

definition expired :: "db_env \<Rightarrow> idempotency_row \<Rightarrow> bool" where
  "expired env r \<longleftrightarrow> k_expires_at r \<le> now env"

definition insert_key :: "db_env \<Rightarrow> string \<Rightarrow> string \<Rightarrow> time \<Rightarrow> unit tx" where
  "insert_key env key bodyHash expires = (\<lambda>d.
     if rows_find k_key key (idempotency_keys d) \<noteq> None then (Err (PgError ''23505''), d)
     else (Ok (), d\<lparr>idempotency_keys := rows_insert
       \<lparr>k_key = key, k_body_hash = bodyHash, k_in_flight = True, k_response_status = 0,
        k_response_body = None, k_expires_at = expires, k_acquired_at = now env\<rparr> (idempotency_keys d)\<rparr>))"

section \<open>Operations\<close>

definition classify_row :: "string \<Rightarrow> idempotency_row \<Rightarrow> AcquireResult" where
  "classify_row bodyHash r =
     (if k_body_hash r \<noteq> bodyHash then \<lparr>ar_Status = StatusConflict, ar_Cached = None\<rparr>
      else if k_in_flight r then \<lparr>ar_Status = StatusInFlight, ar_Cached = None\<rparr>
      else \<lparr>ar_Status = StatusCached,
            ar_Cached = Some \<lparr>cr_Status = k_response_status r, cr_Body = k_response_body r\<rparr>\<rparr>)"

definition Acquire :: "db_env \<Rightarrow> time \<Rightarrow> string \<Rightarrow> string \<Rightarrow> int \<Rightarrow> AcquireResult tx" where
  "Acquire env clock key bodyHash ttl =
     tbind (tlift (validateKey key)) (\<lambda>_.
     in_tx env (\<lambda>e. e) (\<lambda>e. e)
       (tbind (tcall env ''idempotency expire'' 0 (delete_keys (\<lambda>r. k_key r = key \<and> expired env r))) (\<lambda>_.
        tbind (tcall env ''idempotency select'' 0 (tread (\<lambda>d. Ok (rows_find k_key key (idempotency_keys d)))))
        (\<lambda>row. case row of
           None \<Rightarrow>
             tbind (tcall env ''idempotency insert'' 0 (insert_key env key bodyHash (clock + ttl)))
               (\<lambda>_. tret (\<lparr>ar_Status = StatusAcquired, ar_Cached = None\<rparr>, True))
         | Some r \<Rightarrow> tret (classify_row bodyHash r, False)))))"

definition Complete :: "db_env \<Rightarrow> string \<Rightarrow> int \<Rightarrow> json option \<Rightarrow> unit tx" where
  "Complete env key statusCode body =
     tbind (tlift (validateKey key)) (\<lambda>_.
       tcall env ''idempotency complete'' 0 (\<lambda>d.
         if \<not> int4_ok statusCode then (Err encode_error, d)
         else (Ok (), d\<lparr>idempotency_keys := rows_update k_key key
           (\<lambda>r. r\<lparr>k_in_flight := False, k_response_status := statusCode, k_response_body := body\<rparr>)
           (idempotency_keys d)\<rparr>)))"

definition Release :: "db_env \<Rightarrow> string \<Rightarrow> unit tx" where
  "Release env key =
     tbind (tlift (validateKey key)) (\<lambda>_.
     tbind (tcall env ''idempotency release'' 0 (delete_keys (\<lambda>r. k_key r = key))) (\<lambda>_. tret ()))"

definition Prune :: "db_env \<Rightarrow> int tx" where
  "Prune env = tcall env ''idempotency prune'' 0 (delete_keys (expired env))"

definition ReapStale :: "db_env \<Rightarrow> int \<Rightarrow> int tx" where
  "ReapStale env threshold =
     tcall env ''idempotency reap'' 0
       (delete_keys (\<lambda>r. k_in_flight r \<and> k_acquired_at r \<le> now env - threshold))"

section \<open>What the operations do\<close>

interpretation keys_t: keyed_table k_key "rows_unique k_key" "rows_find k_key" rows_insert
    "rows_update k_key" "rows_delete k_key"
  by (rule rows_keyed_table)

text \<open>The row of a key that has not expired.\<close>

definition live :: "db_env \<Rightarrow> string \<Rightarrow> db \<Rightarrow> idempotency_row option" where
  "live env key d = rows_find k_key key (filter (\<lambda>r. \<not> expired env r) (idempotency_keys d))"

lemma live_after_expiry:
  "rows_find k_key key (filter (\<lambda>r. k_key r = key \<longrightarrow> \<not> expired env r) rows) =
    rows_find k_key key (filter (\<lambda>r. \<not> expired env r) rows)"
  by (induction rows) (auto simp: rows_find_def)

lemma live_unique:
  assumes "rows_unique k_key (idempotency_keys d)"
  shows "live env key d = (case rows_find k_key key (idempotency_keys d) of
    None \<Rightarrow> None | Some r \<Rightarrow> if expired env r then None else Some r)"
proof -
  have "rows_unique k_key rows \<Longrightarrow> rows_find k_key key (filter (\<lambda>r. \<not> expired env r) rows) =
      (case rows_find k_key key rows of None \<Rightarrow> None | Some r \<Rightarrow> if expired env r then None else Some r)" for rows
    by (induction rows) (auto simp: rows_find_def rows_unique_def find_None_iff dest!: find_Some_in split: option.splits)
  then show ?thesis using assms by (simp add: live_def)
qed

definition new_key_row :: "db_env \<Rightarrow> string \<Rightarrow> string \<Rightarrow> time \<Rightarrow> idempotency_row" where
  "new_key_row env key bodyHash expires = \<lparr>k_key = key, k_body_hash = bodyHash, k_in_flight = True,
     k_response_status = 0, k_response_body = None, k_expires_at = expires, k_acquired_at = now env\<rparr>"

definition claimed :: "db_env \<Rightarrow> string \<Rightarrow> string \<Rightarrow> time \<Rightarrow> db \<Rightarrow> db" where
  "claimed env key bodyHash expires d = d\<lparr>idempotency_keys := rows_insert (new_key_row env key bodyHash expires)
     (filter (\<lambda>r. \<not> (k_key r = key \<and> expired env r)) (idempotency_keys d))\<rparr>"

text \<open>\<^verbatim>\<open>Acquire\<close> answers from the unexpired row of the key, and claims the key when there is none.\<close>

lemma Acquire_no_faults:
  assumes "no_faults env" "validateKey key = Ok ()"
  shows "Acquire env clock key bodyHash ttl d =
    (case live env key d of
       Some r \<Rightarrow> (Ok (classify_row bodyHash r), d)
     | None \<Rightarrow> (Ok \<lparr>ar_Status = StatusAcquired, ar_Cached = None\<rparr>, claimed env key bodyHash (clock + ttl) d))"
  using assms(2)
  by (auto simp: Acquire_def tbind_def tlift_def in_tx_no_faults [OF assms(1)] tcall_no_faults [OF assms(1)]
      delete_keys_def tread_def tret_def insert_key_def live_def live_after_expiry claimed_def new_key_row_def
      rollback_def split: option.split)

lemma Complete_no_faults:
  assumes "no_faults env" "validateKey key = Ok ()" "int4_ok st"
  shows "Complete env key st body d = (Ok (), d\<lparr>idempotency_keys := rows_update k_key key
     (\<lambda>r. r\<lparr>k_in_flight := False, k_response_status := st, k_response_body := body\<rparr>) (idempotency_keys d)\<rparr>)"
  using assms(2,3) by (simp add: Complete_def tbind_def tlift_def tcall_no_faults [OF assms(1)])

lemma Release_no_faults:
  assumes "no_faults env" "validateKey key = Ok ()"
  shows "Release env key d = (Ok (), d\<lparr>idempotency_keys := rows_delete k_key key (idempotency_keys d)\<rparr>)"
  using assms(2)
  by (simp add: Release_def tbind_def tlift_def tcall_no_faults [OF assms(1)] delete_keys_def tret_def rows_delete_def)

section \<open>Only the keys change\<close>

definition other_tables :: "db \<Rightarrow> db" where
  "other_tables d = d\<lparr>idempotency_keys := []\<rparr>"

interpretation keys_only: tx_relation "\<lambda>a b. other_tables a = other_tables b"
  by unfold_locales auto

lemma keys_only_in_tx:
  assumes "tx_rel (\<lambda>a b. other_tables a = other_tables b) body"
  shows "tx_rel (\<lambda>a b. other_tables a = other_tables b) (in_tx env wb wc body)"
  unfolding tx_rel_def
proof
  fix d0
  obtain r d' where run: "in_tx env wb wc body d0 = (r, d')" by force
  have roll: "other_tables (rollback d0 d) = other_tables d0" if "other_tables d0 = other_tables d" for d
    using that by (cases d; cases d0) (simp add: other_tables_def rollback_def)
  from run have "other_tables d0 = other_tables d'"
  proof (cases rule: in_tx_cases)
    case (aborted d)
    then show ?thesis using tx_relD [OF assms] roll by metis
  next
    case (commit_failed x e d)
    then show ?thesis using tx_relD [OF assms] roll by (metis (no_types, lifting))
  next
    case (committed x)
    then show ?thesis using tx_relD [OF assms] by blast
  qed simp
  then show "other_tables d0 = other_tables (snd (in_tx env wb wc body d0))" by (simp add: run)
qed

lemma keys_only_statements:
  "tx_rel (\<lambda>a b. other_tables a = other_tables b) (delete_keys P)"
  "tx_rel (\<lambda>a b. other_tables a = other_tables b) (insert_key env key h t)"
  by (auto simp: tx_rel_def delete_keys_def insert_key_def other_tables_def)

lemma keys_only_operations:
  "tx_rel (\<lambda>a b. other_tables a = other_tables b) (Acquire env clock key h ttl)"
  "tx_rel (\<lambda>a b. other_tables a = other_tables b) (Complete env key st body)"
  "tx_rel (\<lambda>a b. other_tables a = other_tables b) (Release env key)"
  "tx_rel (\<lambda>a b. other_tables a = other_tables b) (Prune env)"
  "tx_rel (\<lambda>a b. other_tables a = other_tables b) (ReapStale env n)"
  unfolding Acquire_def Complete_def Release_def Prune_def ReapStale_def
  by (auto intro!: keys_only.rules keys_only_in_tx keys_only_statements split: option.split)
    (auto simp: tx_rel_def other_tables_def)

end
