(* ===== verification/Conversion.thy ===== *)
theory Conversion
  imports Domain Json
begin

text \<open>
  The conversion between wire and domain in \<^verbatim>\<open>internal/httpx/conversion\<close>, with the wire types it
  uses from \<^verbatim>\<open>gen/api\<close>. The body of a registration is its JSON text; \<open>decode_struct\<close> is
  \<^verbatim>\<open>json.Unmarshal\<close> into a struct: a member whose name matches no field is skipped, and a
  member of the wrong type makes the call fail.
\<close>

section \<open>Wire types\<close>

record PostGetUrl =
  pu_Label :: string
  pu_Url :: string

record FlowSegmentPost =
  po_GetUrls :: "PostGetUrl list option"
  po_KeyFrameCount :: "int option"
  po_LastDuration :: "string option"
  po_ObjectId :: string
  po_ObjectTimerange :: "string option"
  po_SampleCount :: "int option"
  po_SampleOffset :: "int option"
  po_Timerange :: string
  po_TsOffset :: "string option"

record getUrlEntry =
  ge_Controlled :: "bool option"
  ge_Label :: "string option"
  ge_Presigned :: "bool option"
  ge_StorageId :: "string option"
  ge_Url :: string

record FlowSegment =
  as_GetUrls :: "getUrlEntry list option"
  as_KeyFrameCount :: "int option"
  as_LastDuration :: "string option"
  as_ObjectId :: string
  as_ObjectTimerange :: "string option"
  as_SampleCount :: "int option"
  as_SampleOffset :: "int option"
  as_Timerange :: string
  as_TsOffset :: "string option"

record failedEntry =
  fe_Type :: string
  fe_Title :: string
  fe_Detail :: message
  fe_ObjectId :: string
  fe_Timerange :: "string option"

record GetFlowSegmentsParams =
  gp_ObjectId :: "string option"
  gp_Timerange :: "string option"
  gp_ReverseOrder :: "bool option"
  gp_VerboseStorage :: "bool option"
  gp_AcceptGetUrls :: "string option"
  gp_AcceptStorageIds :: "string option"
  gp_Presigned :: "bool option"
  gp_IncludeObjectTimerange :: "bool option"
  gp_Page :: "string option"
  gp_Limit :: "int option"
  gp_XRequestID :: "string option"

record DeleteFlowSegmentsParams =
  xp_ObjectId :: "string option"
  xp_Timerange :: "string option"
  xp_XRequestID :: "string option"

section \<open>JSON into structs\<close>

fun decode_struct ::
    "string list \<Rightarrow> (string \<Rightarrow> json \<Rightarrow> 'a \<Rightarrow> 'a option) \<Rightarrow> (string \<times> json) list \<Rightarrow> 'a \<times> bool \<Rightarrow> 'a \<times> bool" where
  "decode_struct names put [] st = st"
| "decode_struct names put ((k, v) # ms) (x, failed) =
     (case find_field names k of
        None \<Rightarrow> decode_struct names put ms (x, failed)
      | Some f \<Rightarrow>
          (case put f v x of
             None \<Rightarrow> decode_struct names put ms (x, True)
           | Some y \<Rightarrow> decode_struct names put ms (y, failed)))"

definition decode_object ::
    "string list \<Rightarrow> (string \<Rightarrow> json \<Rightarrow> 'a \<Rightarrow> 'a option) \<Rightarrow> 'a \<Rightarrow> json \<Rightarrow> 'a option" where
  "decode_object names put zero j =
     (case j of
        JNull \<Rightarrow> Some zero
      | JObj ms \<Rightarrow> (case decode_struct names put ms (zero, False) of (x, failed) \<Rightarrow> if failed then None else Some x)
      | _ \<Rightarrow> None)"

text \<open>A \<^verbatim>\<open>string\<close>, a \<^verbatim>\<open>*string\<close> and a \<^verbatim>\<open>*int\<close>: \<^verbatim>\<open>null\<close> leaves the first and clears the others.\<close>

definition dec_string :: "json \<Rightarrow> string \<Rightarrow> string option" where
  "dec_string j old = (case j of JNull \<Rightarrow> Some old | JStr s \<Rightarrow> Some s | _ \<Rightarrow> None)"

definition dec_opt_string :: "json \<Rightarrow> string option option" where
  "dec_opt_string j = (case j of JNull \<Rightarrow> Some None | JStr s \<Rightarrow> Some (Some s) | _ \<Rightarrow> None)"

definition dec_opt_int :: "json \<Rightarrow> int option option" where
  "dec_opt_int j =
     (case j of
        JNull \<Rightarrow> Some None
      | JNum l \<Rightarrow> (case ParseInt l 64 of (n, None) \<Rightarrow> Some (Some n) | (_, Some _) \<Rightarrow> None)
      | _ \<Rightarrow> None)"

fun all_Some :: "'a option list \<Rightarrow> 'a list option" where
  "all_Some [] = Some []"
| "all_Some (x # xs) = (case (x, all_Some xs) of (Some y, Some ys) \<Rightarrow> Some (y # ys) | _ \<Rightarrow> None)"

definition zeroPostGetUrl :: PostGetUrl where
  "zeroPostGetUrl = \<lparr>pu_Label = [], pu_Url = []\<rparr>"

definition dec_post_url :: "json \<Rightarrow> PostGetUrl option" where
  "dec_post_url = decode_object [''label'', ''url'']
     (\<lambda>f j x. if f = ''label'' then map_option (\<lambda>s. x\<lparr>pu_Label := s\<rparr>) (dec_string j (pu_Label x))
              else map_option (\<lambda>s. x\<lparr>pu_Url := s\<rparr>) (dec_string j (pu_Url x))) zeroPostGetUrl"

definition dec_post_urls :: "json \<Rightarrow> PostGetUrl list option option" where
  "dec_post_urls j =
     (case j of
        JNull \<Rightarrow> Some None
      | JArr js \<Rightarrow> map_option Some (all_Some (map dec_post_url js))
      | _ \<Rightarrow> None)"

definition zeroPost :: FlowSegmentPost where
  "zeroPost = \<lparr>po_GetUrls = None, po_KeyFrameCount = None, po_LastDuration = None, po_ObjectId = [],
     po_ObjectTimerange = None, po_SampleCount = None, po_SampleOffset = None, po_Timerange = [], po_TsOffset = None\<rparr>"

definition post_fields :: "string list" where
  "post_fields = [''get_urls'', ''key_frame_count'', ''last_duration'', ''object_id'', ''object_timerange'',
     ''sample_count'', ''sample_offset'', ''timerange'', ''ts_offset'']"

definition dec_post_field :: "string \<Rightarrow> json \<Rightarrow> FlowSegmentPost \<Rightarrow> FlowSegmentPost option" where
  "dec_post_field f j p =
     (if f = ''get_urls'' then map_option (\<lambda>v. p\<lparr>po_GetUrls := v\<rparr>) (dec_post_urls j)
      else if f = ''key_frame_count'' then map_option (\<lambda>v. p\<lparr>po_KeyFrameCount := v\<rparr>) (dec_opt_int j)
      else if f = ''last_duration'' then map_option (\<lambda>v. p\<lparr>po_LastDuration := v\<rparr>) (dec_opt_string j)
      else if f = ''object_id'' then map_option (\<lambda>v. p\<lparr>po_ObjectId := v\<rparr>) (dec_string j (po_ObjectId p))
      else if f = ''object_timerange'' then map_option (\<lambda>v. p\<lparr>po_ObjectTimerange := v\<rparr>) (dec_opt_string j)
      else if f = ''sample_count'' then map_option (\<lambda>v. p\<lparr>po_SampleCount := v\<rparr>) (dec_opt_int j)
      else if f = ''sample_offset'' then map_option (\<lambda>v. p\<lparr>po_SampleOffset := v\<rparr>) (dec_opt_int j)
      else if f = ''timerange'' then map_option (\<lambda>v. p\<lparr>po_Timerange := v\<rparr>) (dec_string j (po_Timerange p))
      else map_option (\<lambda>v. p\<lparr>po_TsOffset := v\<rparr>) (dec_opt_string j))"

definition AsFlowSegmentPost :: "json \<Rightarrow> FlowSegmentPost option" where
  "AsFlowSegmentPost = decode_object post_fields dec_post_field zeroPost"

definition AsFlowSegmentPostBody1 :: "json \<Rightarrow> FlowSegmentPost list option" where
  "AsFlowSegmentPostBody1 j =
     (case j of
        JNull \<Rightarrow> Some []
      | JArr js \<Rightarrow> all_Some (map AsFlowSegmentPost js)
      | _ \<Rightarrow> None)"

section \<open>Small helpers\<close>

definition optionalRaw :: "string \<Rightarrow> string option" where
  "optionalRaw raw = (if raw = [] then None else Some raw)"

text \<open>\<^verbatim>\<open>csvSplit\<close>: the loop keeps the parts so far and the bytes since the last comma.\<close>

fun csv_loop :: "string list \<Rightarrow> string \<Rightarrow> string \<Rightarrow> string list" where
  "csv_loop parts cur [] = parts @ [cur]"
| "csv_loop parts cur (c # s) =
     (if c = CHR '','' then csv_loop (parts @ [cur]) [] s else csv_loop parts (cur @ [c]) s)"

definition csvSplit :: "string \<Rightarrow> string list" where
  "csvSplit s = (if s = [] then [] else csv_loop [] [] s)"

text \<open>\<^verbatim>\<open>itoa\<close>: the loop runs while \<open>i > 0\<close> and fills the buffer from its end.\<close>

function itoa_loop :: "int \<Rightarrow> string \<Rightarrow> string" where
  "itoa_loop i buf = (if i > 0 then itoa_loop (i div 10) (char_of (nat (48 + i mod 10)) # buf) else buf)"
  by auto
termination by (relation "measure (\<lambda>(i, _). nat i)") auto

definition itoa :: "int \<Rightarrow> string" where
  "itoa i =
     (if i = 0 then ''0''
      else let neg = i < 0; n = (if neg then i64 (- i) else i); digits = itoa_loop n []
           in if neg then CHR ''-'' # digits else digits)"

definition fieldIdx :: "string \<Rightarrow> int \<Rightarrow> string" where
  "fieldIdx field i = field @ ''['' @ itoa i @ '']''"

section \<open>Segments\<close>

definition SegmentToAPI :: "Segment \<Rightarrow> FlowSegment" where
  "SegmentToAPI s = \<lparr>
     as_GetUrls = (if GetURLs s = [] then None
       else Some (map (\<lambda>g. \<lparr>ge_Controlled = Some (Controlled g), ge_Label = Some (Label g), ge_Presigned = None,
         ge_StorageId = None, ge_Url = URL g\<rparr>) (GetURLs s))),
     as_KeyFrameCount = KeyFrameCount s,
     as_LastDuration = optionalRaw (LastDurationRaw s),
     as_ObjectId = ObjectID s,
     as_ObjectTimerange = optionalRaw (ObjectTimerangeRaw s),
     as_SampleCount = SampleCount s,
     as_SampleOffset = SampleOffset s,
     as_Timerange = TimerangeRaw s,
     as_TsOffset = optionalRaw (TSOffsetRaw s)\<rparr>"

definition zeroSegment :: Segment where
  "zeroSegment = \<lparr>FlowID = ''00000000-0000-0000-0000-000000000000'', ObjectID = [], Timerange = zeroRange,
     TSOffset = None, ObjectTimerange = None, LastDuration = None, KeyFrameCount = None, GetURLs = [],
     TimerangeRaw = [], TSOffsetRaw = [], ObjectTimerangeRaw = [], LastDurationRaw = [], SampleOffset = None,
     SampleCount = None, CreatedAt = -62135596800000000\<rparr>"

text \<open>One optional field of \<^verbatim>\<open>setTimeFields\<close>: absent, or parsed and kept with its text.\<close>

definition time_field ::
    "string \<Rightarrow> (string \<Rightarrow> 'a res) \<Rightarrow> ('a \<Rightarrow> string \<Rightarrow> Segment \<Rightarrow> Segment) \<Rightarrow> string option \<Rightarrow> Segment \<Rightarrow> Segment res" where
  "time_field name parse put p seg =
     (case p of
        None \<Rightarrow> Ok seg
      | Some raw \<Rightarrow>
          rbind (rwrap (\<lambda>e. Errorf [Lit (name @ '': ''), W e]) (parse raw)) (\<lambda>x. Ok (put x raw seg)))"

definition setTimeFields ::
    "Segment \<Rightarrow> string \<Rightarrow> string option \<Rightarrow> string option \<Rightarrow> string option \<Rightarrow> Segment res" where
  "setTimeFields seg tr tsOffset objectTimerange lastDuration =
     rbind (rwrap (\<lambda>e. Errorf [Lit ''timerange: '', W e]) (Parse tr)) (\<lambda>parsed.
     rbind (time_field ''ts_offset'' ParseTimestamp (\<lambda>x raw s. s\<lparr>TSOffset := Some x, TSOffsetRaw := raw\<rparr>) tsOffset
       (seg\<lparr>Timerange := parsed, TimerangeRaw := tr\<rparr>)) (\<lambda>seg.
     rbind (time_field ''object_timerange'' Parse (\<lambda>x raw s. s\<lparr>ObjectTimerange := Some x, ObjectTimerangeRaw := raw\<rparr>)
       objectTimerange seg) (\<lambda>seg.
     time_field ''last_duration'' ParseTimestamp (\<lambda>x raw s. s\<lparr>LastDuration := Some x, LastDurationRaw := raw\<rparr>)
       lastDuration seg)))"

definition SegmentFromAPI :: "FlowSegment \<Rightarrow> Segment res" where
  "SegmentFromAPI a =
     rbind (rwrap (\<lambda>e. New SchemaValidation [T e])
       (setTimeFields (zeroSegment\<lparr>ObjectID := as_ObjectId a\<rparr>) (as_Timerange a) (as_TsOffset a)
         (as_ObjectTimerange a) (as_LastDuration a))) (\<lambda>out.
     Ok (out\<lparr>KeyFrameCount := as_KeyFrameCount a, SampleOffset := as_SampleOffset a, SampleCount := as_SampleCount a\<rparr>))"

definition postToSegment :: "FlowSegmentPost \<Rightarrow> Segment res" where
  "postToSegment p =
     rbind (setTimeFields (zeroSegment\<lparr>ObjectID := po_ObjectId p\<rparr>) (po_Timerange p) (po_TsOffset p)
       (po_ObjectTimerange p) (po_LastDuration p)) (\<lambda>seg.
     Ok (seg\<lparr>KeyFrameCount := po_KeyFrameCount p, SampleOffset := po_SampleOffset p, SampleCount := po_SampleCount p,
       GetURLs := (case po_GetUrls p of
          None \<Rightarrow> []
        | Some us \<Rightarrow> map (\<lambda>g. \<lparr>URL = pu_Url g, Label = pu_Label g, Controlled = False\<rparr>) us)\<rparr>))"

definition registerParamsFromPostArray :: "FlowSegmentPost list \<Rightarrow> RegisterParams res" where
  "registerParamsFromPostArray ps =
     rbind (rmap (\<lambda>(i, p). rwrap (\<lambda>e. New SchemaValidation [Lit (fieldIdx ''segments'' (int i) @ '': ''), T e])
       (postToSegment p)) (enumerate 0 ps)) (\<lambda>segs.
     Ok \<lparr>rp_FlowID = FlowID zeroSegment, rp_Segments = segs\<rparr>)"

definition RegisterParamsFromAPI :: "json \<Rightarrow> RegisterParams res" where
  "RegisterParamsFromAPI body =
     (case AsFlowSegmentPostBody1 body of
        Some (p # ps) \<Rightarrow> registerParamsFromPostArray (p # ps)
      | _ \<Rightarrow>
          (case AsFlowSegmentPost body of
             Some single \<Rightarrow>
               if po_ObjectId single \<noteq> [] then registerParamsFromPostArray [single]
               else Err (New SchemaValidation [Lit ''request body: expected FlowSegmentPost or [FlowSegmentPost]''])
           | None \<Rightarrow> Err (New SchemaValidation [Lit ''request body: expected FlowSegmentPost or [FlowSegmentPost]''])))"

definition RegisterAcceptedToAPI :: "Segment list \<Rightarrow> FlowSegment list" where
  "RegisterAcceptedToAPI segs = map SegmentToAPI segs"

definition RegisterFailureToAPI :: "FailedSegment list \<Rightarrow> failedEntry list" where
  "RegisterFailureToAPI failed = map (\<lambda>f. \<lparr>fe_Type = fs_Type f, fe_Title = fs_Title f, fe_Detail = fs_Reason f,
     fe_ObjectId = ObjectID (fs_Segment f), fe_Timerange = optionalRaw (TimerangeRaw (fs_Segment f))\<rparr>) failed"

definition SegmentPageToAPI :: "SegmentPage \<Rightarrow> FlowSegment list" where
  "SegmentPageToAPI p = RegisterAcceptedToAPI (Items p)"

section \<open>Query parameters\<close>

definition defaultListLimit :: int where
  "defaultListLimit = 100"

definition maxListLimit :: int where
  "maxListLimit = 1000"

definition ListParamsFromAPI :: "GetFlowSegmentsParams \<Rightarrow> ListParams res" where
  "ListParamsFromAPI p =
     rbind (case gp_Timerange p of
         None \<Rightarrow> Ok None
       | Some s \<Rightarrow> rbind (rwrap (\<lambda>e. New SchemaValidation [Lit ''timerange: '', T e]) (Parse s)) (\<lambda>tr. Ok (Some tr)))
     (\<lambda>tr.
     rbind (case gp_Limit p of
         None \<Rightarrow> Ok defaultListLimit
       | Some limit \<Rightarrow>
           if limit \<le> 0 then Err (New SchemaValidation [Lit ''limit must be >= 1''])
           else Ok (if limit > maxListLimit then maxListLimit else limit))
     (\<lambda>limit.
     Ok \<lparr>lp_FlowID = FlowID zeroSegment, lp_Timerange = tr, lp_ObjectID = gp_ObjectId p,
         lp_ReverseOrder = (case gp_ReverseOrder p of None \<Rightarrow> False | Some b \<Rightarrow> b),
         lp_VerboseStorage = (case gp_VerboseStorage p of None \<Rightarrow> False | Some b \<Rightarrow> b),
         lp_AcceptGetURLs = map_option csvSplit (gp_AcceptGetUrls p),
         lp_AcceptStorageIDs = map_option csvSplit (gp_AcceptStorageIds p),
         lp_Presigned = gp_Presigned p,
         lp_IncludeObjectTimerange = (case gp_IncludeObjectTimerange p of None \<Rightarrow> False | Some b \<Rightarrow> b),
         lp_Page = (case gp_Page p of None \<Rightarrow> [] | Some s \<Rightarrow> s),
         lp_Limit = limit\<rparr>))"

definition DeleteParamsFromAPI :: "DeleteFlowSegmentsParams \<Rightarrow> DeleteParams res" where
  "DeleteParamsFromAPI p =
     rbind (rwrap (\<lambda>e. New SchemaValidation [Lit ''timerange: '', T e])
       (Parse (case xp_Timerange p of None \<Rightarrow> ''_'' | Some s \<Rightarrow> s))) (\<lambda>tr.
     Ok \<lparr>dp_FlowID = FlowID zeroSegment, dp_Timerange = tr, dp_ObjectID = xp_ObjectId p\<rparr>)"

section \<open>What the conversion gives\<close>

lemma Parse_Nil: "(case Parse [] of Err _ \<Rightarrow> True | _ \<Rightarrow> False)" "(case ParseTimestamp [] of Err _ \<Rightarrow> True | _ \<Rightarrow> False)"
  by code_simp+

text \<open>The loop of \<^verbatim>\<open>itoa\<close> writes the decimal digits.\<close>

declare itoa_loop.simps [simp del]

lemma itoa_loop_0: "itoa_loop 0 buf = buf"
  by (subst itoa_loop.simps) simp

lemma itoa_loop_dec: "0 < i \<Longrightarrow> itoa_loop i buf = dec (nat i) @ buf"
proof (induction "nat i" arbitrary: i buf rule: less_induct)
  case less
  have n: "nat i mod 10 = nat (i mod 10)" "nat i div 10 = nat (i div 10)"
    using less.prems by (simp_all add: nat_mod_distrib nat_div_distrib)
  then have "char_of (nat (48 + i mod 10)) = digit_char (nat i mod 10)" by (simp add: digit_char_def nat_add_distrib)
  then have step: "itoa_loop i buf = itoa_loop (i div 10) (digit_char (nat i mod 10) # buf)"
    using less.prems itoa_loop.simps [of i buf] by simp
  show ?case
  proof (cases "i < 10")
    case True
    then have "i div 10 = 0" "nat i < 10" using less.prems by simp_all
    then show ?thesis using step dec.simps [of "nat i"] itoa_loop_0 by simp
  next
    case False
    then have "itoa_loop (i div 10) (digit_char (nat i mod 10) # buf) =
        dec (nat (i div 10)) @ digit_char (nat i mod 10) # buf"
      by (intro less.hyps) auto
    moreover have "dec (nat i) = dec (nat i div 10) @ [digit_char (nat i mod 10)]"
      using False dec.simps [of "nat i"] by simp
    ultimately show ?thesis using step n(2) by simp
  qed
qed

lemma itoa_fmt_d:
  assumes "in_i64 i" "i \<noteq> MinInt64"
  shows "itoa i = fmt_d i"
proof -
  have "i64 (- i) = - i" using assms by (intro i64_id) (auto simp: in_i64_def MinInt64_def MaxInt64_def)
  moreover have "dec 0 = ''0''" by code_simp
  ultimately show ?thesis
    by (cases "i = 0"; cases "i < 0") (simp_all add: itoa_def fmt_d_def itoa_loop_dec Let_def)
qed

text \<open>\<^verbatim>\<open>csvSplit\<close> cuts at the commas and loses nothing.\<close>

fun join :: "string \<Rightarrow> string list \<Rightarrow> string" where
  "join sep [] = []"
| "join sep [p] = p"
| "join sep (p # q # ps) = p @ sep @ join sep (q # ps)"

lemma join_snoc: "ps \<noteq> [] \<Longrightarrow> join sep (ps @ [q]) = join sep ps @ sep @ q"
  by (induction sep ps rule: join.induct) (auto simp: neq_Nil_conv)

lemma join_last: "join sep (ps @ [q @ [c]]) = join sep (ps @ [q]) @ [c]"
  by (cases "ps = []") (simp_all add: join_snoc)

lemma csv_loop_spec:
  assumes "CHR '','' \<notin> set cur" "\<forall>p \<in> set parts. CHR '','' \<notin> set p"
  shows "join '','' (csv_loop parts cur s) = join '','' (parts @ [cur]) @ s \<and>
    (\<forall>p \<in> set (csv_loop parts cur s). CHR '','' \<notin> set p)"
  using assms
proof (induction s arbitrary: parts cur)
  case (Cons c s)
  show ?case
  proof (cases "c = CHR '',''")
    case True
    have eq: "csv_loop parts cur (c # s) = csv_loop (parts @ [cur]) [] s" using True by simp
    have snoc: "join '','' ((parts @ [cur]) @ [[]]) = join '','' (parts @ [cur]) @ '',''" by (subst join_snoc) simp_all
    have "join '','' (csv_loop (parts @ [cur]) [] s) = join '','' ((parts @ [cur]) @ [[]]) @ s \<and>
        (\<forall>p \<in> set (csv_loop (parts @ [cur]) [] s). CHR '','' \<notin> set p)"
      by (rule Cons.IH) (use Cons.prems in auto)
    then show ?thesis unfolding eq snoc using True by simp
  next
    case False
    have "join '','' (csv_loop parts (cur @ [c]) s) = join '','' (parts @ [cur @ [c]]) @ s \<and>
        (\<forall>p \<in> set (csv_loop parts (cur @ [c]) s). CHR '','' \<notin> set p)"
      by (rule Cons.IH) (use Cons.prems False in auto)
    then show ?thesis unfolding join_last using False by simp
  qed
qed simp

text \<open>Every segment that the decoder accepts carries parsed fields that agree with its text.\<close>

lemma time_field_Ok:
  "time_field name parse put p seg = Ok seg' \<longleftrightarrow>
    (case p of None \<Rightarrow> seg' = seg | Some raw \<Rightarrow> \<exists>x. parse raw = Ok x \<and> seg' = put x raw seg)"
  by (auto simp: time_field_def res_simps split: option.split)

lemma parsed_as_intro:
  assumes "case parse [] of Err _ \<Rightarrow> True | _ \<Rightarrow> False"
  shows "parse raw = Ok x \<Longrightarrow> parsed_as parse raw (Some x)" "parsed_as parse [] None"
  using assms by (auto simp: parsed_as_def)

lemmas parsed_intros = parsed_as_intro [of Parse, OF Parse_Nil(1)] parsed_as_intro [of ParseTimestamp, OF Parse_Nil(2)]

lemma zeroSegment_simps [simp]: "TSOffset zeroSegment = None" "TSOffsetRaw zeroSegment = []" "ObjectTimerange zeroSegment = None"
  "ObjectTimerangeRaw zeroSegment = []" "LastDuration zeroSegment = None" "LastDurationRaw zeroSegment = []"
  "GetURLs zeroSegment = []"
  by (simp_all add: zeroSegment_def)

definition raw_of :: "string option \<Rightarrow> string" where
  "raw_of p = (case p of None \<Rightarrow> [] | Some s \<Rightarrow> s)"

lemma setTimeFields_Ok:
  "setTimeFields seg tr ts otr ld = Ok seg' \<longleftrightarrow>
    (\<exists>p s1 s2. Parse tr = Ok p \<and>
       time_field ''ts_offset'' ParseTimestamp (\<lambda>x raw s. s\<lparr>TSOffset := Some x, TSOffsetRaw := raw\<rparr>) ts
         (seg\<lparr>Timerange := p, TimerangeRaw := tr\<rparr>) = Ok s1 \<and>
       time_field ''object_timerange'' Parse (\<lambda>x raw s. s\<lparr>ObjectTimerange := Some x, ObjectTimerangeRaw := raw\<rparr>) otr s1 = Ok s2 \<and>
       time_field ''last_duration'' ParseTimestamp (\<lambda>x raw s. s\<lparr>LastDuration := Some x, LastDurationRaw := raw\<rparr>) ld s2 = Ok seg')"
  by (auto simp: setTimeFields_def res_simps)

lemma setTimeFields_wf:
  assumes "setTimeFields (zeroSegment\<lparr>ObjectID := oid\<rparr>) tr ts otr ld = Ok seg"
  shows "wf_segment seg" "ObjectID seg = oid"
proof -
  from assms obtain p s1 s2 where p: "Parse tr = Ok p"
    and 1: "time_field ''ts_offset'' ParseTimestamp (\<lambda>x raw s. s\<lparr>TSOffset := Some x, TSOffsetRaw := raw\<rparr>) ts
         (zeroSegment\<lparr>ObjectID := oid, Timerange := p, TimerangeRaw := tr\<rparr>) = Ok s1"
    and 2: "time_field ''object_timerange'' Parse (\<lambda>x raw s. s\<lparr>ObjectTimerange := Some x, ObjectTimerangeRaw := raw\<rparr>) otr s1 = Ok s2"
    and 3: "time_field ''last_duration'' ParseTimestamp (\<lambda>x raw s. s\<lparr>LastDuration := Some x, LastDurationRaw := raw\<rparr>) ld s2 = Ok seg"
    unfolding setTimeFields_Ok by blast
  have tr: "tr \<noteq> []" using p Parse_Nil(1) by auto
  let ?A = "\<lambda>s. ObjectID s = oid \<and> Timerange s = p \<and> TimerangeRaw s = tr \<and> parsed_as ParseTimestamp (TSOffsetRaw s) (TSOffset s)"
  let ?B = "\<lambda>s. parsed_as Parse (ObjectTimerangeRaw s) (ObjectTimerange s)"
  have s1: "?A s1 \<and> ObjectTimerangeRaw s1 = [] \<and> ObjectTimerange s1 = None \<and> LastDurationRaw s1 = [] \<and> LastDuration s1 = None"
    using 1 by (cases ts) (auto simp: time_field_Ok parsed_intros)
  have s2: "?A s2 \<and> ?B s2 \<and> LastDurationRaw s2 = [] \<and> LastDuration s2 = None"
    using 2 s1 by (cases otr) (auto simp: time_field_Ok parsed_intros)
  have "?A seg \<and> ?B seg \<and> parsed_as ParseTimestamp (LastDurationRaw seg) (LastDuration seg)"
    using 3 s2 by (cases ld) (auto simp: time_field_Ok parsed_intros)
  then show "wf_segment seg" "ObjectID seg = oid" using tr p by (auto simp: wf_segment_def)
qed

lemma wf_segment_cong:
  "wf_segment (s\<lparr>KeyFrameCount := k, SampleOffset := so, SampleCount := sc, GetURLs := us\<rparr>) = wf_segment s"
  by (simp add: wf_segment_def)

lemma postToSegment_wf:
  assumes "postToSegment p = Ok seg"
  shows "wf_segment seg \<and> (\<forall>g \<in> set (GetURLs seg). \<not> Controlled g) \<and> ObjectID seg = po_ObjectId p"
proof -
  from assms obtain s where s: "setTimeFields (zeroSegment\<lparr>ObjectID := po_ObjectId p\<rparr>) (po_Timerange p) (po_TsOffset p)
      (po_ObjectTimerange p) (po_LastDuration p) = Ok s"
    and seg: "seg = s\<lparr>KeyFrameCount := po_KeyFrameCount p, SampleOffset := po_SampleOffset p, SampleCount := po_SampleCount p,
      GetURLs := (case po_GetUrls p of None \<Rightarrow> [] | Some us \<Rightarrow>
        map (\<lambda>g. \<lparr>URL = pu_Url g, Label = pu_Label g, Controlled = False\<rparr>) us)\<rparr>"
    by (auto simp: postToSegment_def res_simps)
  show ?thesis using setTimeFields_wf [OF s] unfolding seg wf_segment_cong by (auto split: option.split)
qed

lemma registerParams_wf:
  assumes "registerParamsFromPostArray ps = Ok params"
  shows "list_all wf_segment (rp_Segments params) \<and> length (rp_Segments params) = length ps \<and>
    map ObjectID (rp_Segments params) = map po_ObjectId ps \<and>
    (\<forall>seg \<in> set (rp_Segments params). \<forall>g \<in> set (GetURLs seg). \<not> Controlled g)"
proof -
  from assms have "list_all2 (\<lambda>(i, p) seg. postToSegment p = Ok seg) (enumerate 0 ps) (rp_Segments params)"
    by (auto simp: registerParamsFromPostArray_def res_simps rmap_Ok_list_all2 elim!: list_all2_mono)
  then have l: "list_all2 (\<lambda>p seg. postToSegment p = Ok seg) ps (rp_Segments params)"
    by (auto simp: list_all2_conv_all_nth nth_enumerate_eq)
  then have "list_all2 (\<lambda>p seg. wf_segment seg \<and> (\<forall>g \<in> set (GetURLs seg). \<not> Controlled g) \<and> ObjectID seg = po_ObjectId p)
      ps (rp_Segments params)"
    by (rule list_all2_mono) (rule postToSegment_wf)
  then have n: "length ps = length (rp_Segments params)"
    "\<And>i. i < length ps \<Longrightarrow> wf_segment (rp_Segments params ! i) \<and>
      (\<forall>g \<in> set (GetURLs (rp_Segments params ! i)). \<not> Controlled g) \<and> ObjectID (rp_Segments params ! i) = po_ObjectId (ps ! i)"
    by (simp_all add: list_all2_conv_all_nth)
  have "map ObjectID (rp_Segments params) = map po_ObjectId ps" using n by (intro nth_equalityI) simp_all
  then show ?thesis using n by (auto simp: list_all_length set_conv_nth)
qed

lemma postToSegment_no_panic: "postToSegment p \<noteq> Panic x"
  using Parse_no_panic ParseTimestamp_no_panic
  by (auto simp: postToSegment_def setTimeFields_def time_field_def res_simps split: option.splits)

lemma registerArray_errors:
  "registerParamsFromPostArray ps \<noteq> Panic x"
  "registerParamsFromPostArray ps = Err e \<Longrightarrow> \<exists>detail. e = New SchemaValidation detail"
proof -
  let ?f = "\<lambda>(i, p). rwrap (\<lambda>e. New SchemaValidation [Lit (fieldIdx ''segments'' (int i) @ '': ''), T e]) (postToSegment p)"
  have "rmap ?f xs \<noteq> Panic y" for xs y
    using postToSegment_no_panic by (induction xs) (auto simp: res_simps)
  then show "registerParamsFromPostArray ps \<noteq> Panic x"
    unfolding registerParamsFromPostArray_def by (auto simp: res_simps)
  have "rmap ?f xs = Err e \<Longrightarrow> \<exists>detail. e = New SchemaValidation detail" for xs
    by (induction xs) (auto simp: res_simps)
  then show "registerParamsFromPostArray ps = Err e \<Longrightarrow> \<exists>detail. e = New SchemaValidation detail"
    unfolding registerParamsFromPostArray_def by (simp add: res_simps)
qed

lemma registerArray_Ok:
  assumes "registerParamsFromPostArray (p # ps) = Ok params"
  shows "rp_Segments params \<noteq> [] \<and> list_all wf_segment (rp_Segments params) \<and>
    list_all (\<lambda>s. list_all (\<lambda>g. \<not> Controlled g) (GetURLs s)) (rp_Segments params)"
  using registerParams_wf [OF assms] by (auto simp: list_all_iff)

text \<open>Reading a segment back from its wire form.\<close>

lemma optionalRaw_simps [simp]: "optionalRaw [] = None" "s \<noteq> [] \<Longrightarrow> optionalRaw s = Some s"
  by (simp_all add: optionalRaw_def)

section \<open>Properties\<close>

text \<open>C24: Decoding a registration never panics, and every segment it accepts has a time range that is there
  and parses to the stored value, optional fields that agree with their text, and only
  uncontrolled URLs, whatever the client claimed. Every refusal is a schema validation error.\<close>

theorem decoded_segments_well_formed:
  "case RegisterParamsFromAPI body of
     Ok params \<Rightarrow> rp_Segments params \<noteq> [] \<and> list_all wf_segment (rp_Segments params) \<and>
       list_all (\<lambda>s. list_all (\<lambda>g. \<not> Controlled g) (GetURLs s)) (rp_Segments params)
   | Err e \<Rightarrow> (\<exists>detail. e = New SchemaValidation detail)
   | Panic p \<Rightarrow> False"
  using registerArray_errors registerArray_Ok
  by (auto simp: RegisterParamsFromAPI_def split: option.split list.split res.split)

text \<open>Writing a well-formed segment to the wire and reading it back returns it, apart from the flow, the
  URLs and the creation time, which the wire form does not carry back.\<close>

theorem segment_wire_round_trip:
  assumes "wf_segment s"
  shows "SegmentFromAPI (SegmentToAPI s) =
    Ok (s\<lparr>FlowID := FlowID zeroSegment, GetURLs := [], CreatedAt := CreatedAt zeroSegment\<rparr>)"
  using assms
  by (cases "TSOffset s"; cases "ObjectTimerange s"; cases "LastDuration s")
    (simp_all add: SegmentFromAPI_def SegmentToAPI_def setTimeFields_def time_field_def wf_segment_def parsed_as_def
      Segment.equality)

definition ex_wire :: Segment where
  "ex_wire = zeroSegment\<lparr>ObjectID := ''o'', TimerangeRaw := ''()'', Timerange := emptyRange, KeyFrameCount := Some 2\<rparr>"

theorem segment_wire_round_trip_witness: "SegmentFromAPI (SegmentToAPI ex_wire) = Ok ex_wire"
proof -
  have "wf_segment ex_wire" by code_simp
  moreover have "ex_wire\<lparr>FlowID := FlowID zeroSegment, GetURLs := [], CreatedAt := CreatedAt zeroSegment\<rparr> = ex_wire"
    by (simp add: ex_wire_def zeroSegment_def)
  ultimately show ?thesis using segment_wire_round_trip by simp
qed

text \<open>The hand-written \<^verbatim>\<open>itoa\<close> prints what the format verb \<^verbatim>\<open>%d\<close> prints, for every \<^verbatim>\<open>int\<close> but the least
  one, whose negation overflows; its text fits the buffer of twenty bytes.\<close>

lemma itoa_is_decimal:
  assumes "in_i64 i" "i \<noteq> MinInt64"
  shows "itoa i = fmt_d i \<and> length (itoa i) \<le> 20"
proof -
  have len: "n < 10 ^ k \<Longrightarrow> 0 < k \<Longrightarrow> length (dec n) \<le> k" for n k
  proof (induction n arbitrary: k rule: dec.induct)
    case (1 n)
    show ?case
    proof (cases "n < 10")
      case True
      then show ?thesis using 1(3) dec.simps [of n] by simp
    next
      case False
      then have "k \<noteq> 0" "k \<noteq> 1" using 1(2,3) by (auto intro: ccontr)
      then obtain k' where k: "k = Suc k'" "0 < k'" by (cases k) auto
      have "n div 10 < 10 ^ k'" using 1(2) k(1) by (simp add: less_mult_imp_div_less mult.commute)
      then have "length (dec (n div 10)) \<le> k'" using 1(1) [OF False] k(2) by blast
      then show ?thesis using False k(1) dec.simps [of n] by simp
    qed
  qed
  have "nat (if i < 0 then - i else i) < 10 ^ 19" using assms by (auto simp: in_i64_def MinInt64_def MaxInt64_def)
  then show ?thesis using itoa_fmt_d [OF assms] len [of "nat (if i < 0 then - i else i)" 19]
    by (auto simp: fmt_d_def split: if_splits)
qed

text \<open>\<^verbatim>\<open>csvSplit\<close> returns no part for the empty text; otherwise its parts hold no comma and joined with
  commas they are the text again.\<close>

lemma csv_split_exact:
  "csvSplit [] = [] \<and>
   (s = [] \<or> join '','' (csvSplit s) = s \<and> list_all (\<lambda>p. CHR '','' \<notin> set p) (csvSplit s))"
  using csv_loop_spec [of "[]" "[]" s] by (auto simp: csvSplit_def list_all_iff)

text \<open>A listing is asked for at least one and at most a thousand segments: a missing limit becomes a
  hundred, a larger one is lowered, and one below one is refused.\<close>

theorem list_limit_bounds:
  assumes "ListParamsFromAPI p = Ok lp"
  shows "1 \<le> lp_Limit lp \<and> lp_Limit lp \<le> 1000 \<and>
    lp_Limit lp = (case gp_Limit p of None \<Rightarrow> 100 | Some n \<Rightarrow> min n 1000) \<and>
    (case lp_Timerange lp of None \<Rightarrow> gp_Timerange p = None | Some tr \<Rightarrow> wf_tr tr)"
  using assms
  by (auto simp: ListParamsFromAPI_def res_simps defaultListLimit_def maxListLimit_def Parse_Ok_wf
      split: option.splits if_splits)

definition ex_gp :: GetFlowSegmentsParams where
  "ex_gp = \<lparr>gp_ObjectId = None, gp_Timerange = Some ''_'', gp_ReverseOrder = None, gp_VerboseStorage = None,
     gp_AcceptGetUrls = Some ''a,b'', gp_AcceptStorageIds = None, gp_Presigned = None,
     gp_IncludeObjectTimerange = None, gp_Page = None, gp_Limit = Some 5000, gp_XRequestID = None\<rparr>"

lemma ex_gp_Ok: "map_option lp_Limit (case ListParamsFromAPI ex_gp of Ok lp \<Rightarrow> Some lp | _ \<Rightarrow> None) = Some 1000"
  by code_simp

theorem list_limit_bounds_witness: "\<exists>lp. ListParamsFromAPI ex_gp = Ok lp \<and> lp_Limit lp \<le> 1000"
proof -
  obtain lp where "ListParamsFromAPI ex_gp = Ok lp" using ex_gp_Ok by (auto split: res.splits)
  then show ?thesis using list_limit_bounds by blast
qed

end
