(* ===== verification/Error_Text.thy ===== *)
theory Error_Text
  imports App_Error
begin

text \<open>
  The text of an error, \<^verbatim>\<open>err.Error()\<close>. The texts of the sentinels are those of their
  declarations; \<open>texts\<close> holds what the server does not write itself: \<^verbatim>\<open>strconv.Quote\<close>, which
  goes by the tables of Unicode, and the texts of the errors of the database and of other libraries.
\<close>

record texts =
  tx_quote :: "string \<Rightarrow> string"
  tx_pg :: "string \<Rightarrow> string"
  tx_extern :: "nat \<Rightarrow> string"

fun sentinel_text :: "sentinel \<Rightarrow> string" where
  "sentinel_text ErrOutOfRange = ''timerange: bound outside the int64 nanosecond range''"
| "sentinel_text ErrEmptyRange = ''timerange: empty range has no bounds''"
| "sentinel_text Meta_ErrFlowNotFound = ''metastore: flow not found''"
| "sentinel_text Meta_ErrFlowReadOnly = ''metastore: flow is read-only''"
| "sentinel_text ErrInvalidCursor = ''metastore: invalid pagination cursor''"
| "sentinel_text ErrBadInput = ''metastore: invalid input''"
| "sentinel_text ErrSegmentOverlap = ''metastore: batch contains overlap''"
| "sentinel_text ErrSegmentObjectReaping =
     ''metastore: object is being reaped by GC; retry with fresh object_id''"
| "sentinel_text ErrControlledStorageNotConfigured =
     ''metastore: controlled segment registered but InsertBatch.ControlledStorageID is empty''"
| "sentinel_text ErrSchemaNotMigrated = ''schema_migrations: not migrated''"
| "sentinel_text ErrSchemaDirty = ''schema_migrations: dirty''"
| "sentinel_text ErrSchemaTooOld = ''schema_migrations: version older than required''"
| "sentinel_text Seg_ErrFlowNotFound = ''segment: flow not found''"
| "sentinel_text Seg_ErrFlowReadOnly = ''segment: flow is read-only''"
| "sentinel_text ErrInvalidRequest = ''segment: invalid request''"
| "sentinel_text ErrTransient = ''objectstore: transient error (retry eligible)''"
| "sentinel_text ErrAuth = ''objectstore: authentication failure''"
| "sentinel_text ErrInvalidInput = ''objectstore: invalid input''"

fun error_text :: "texts \<Rightarrow> go_error \<Rightarrow> string"
  and message_text :: "texts \<Rightarrow> message \<Rightarrow> string" where
  "error_text tx (Sentinel s) = sentinel_text s"
| "error_text tx (Errorf ps) = message_text tx ps"
| "error_text tx (AppError code status detail) =
     ''apperror: '' @ (if code \<noteq> NoCode then slug code else fmt_d status) @ '': '' @ message_text tx detail"
| "error_text tx (PgError code) = tx_pg tx code"
| "error_text tx (Extern n) = tx_extern tx n"
| "message_text tx [] = []"
| "message_text tx (Lit s # ps) = s @ message_text tx ps"
| "message_text tx (S s # ps) = s @ message_text tx ps"
| "message_text tx (Q s # ps) = tx_quote tx s @ message_text tx ps"
| "message_text tx (D n # ps) = fmt_d n @ message_text tx ps"
| "message_text tx (W e # ps) = error_text tx e @ message_text tx ps"
| "message_text tx (T e # ps) = error_text tx e @ message_text tx ps"

text \<open>The text of an application error is the text of the message \<^verbatim>\<open>AppError.Error\<close> builds.\<close>

lemma error_text_AppError:
  "error_text tx (AppError code status detail) = message_text tx (AppError_Error code status detail)"
  by (simp add: AppError_Error_def)

end
