(* ===== verification/Problem.thy ===== *)
theory Problem
  imports Conversion Error_Text
begin

text \<open>
  The problem documents of the HTTP layer: the wire type \<^verbatim>\<open>api.ProblemDetails\<close> with its JSON
  form, and the helpers of \<^verbatim>\<open>handlers/segments.go\<close> that fill it. A stored response is read back with
  the decoder of the standard library; the round trip shows that nothing is lost.
\<close>

record api_ProblemDetails =
  ap_Detail :: "string option"
  ap_Instance :: "string option"
  ap_RequestId :: "string option"
  ap_Status :: "int option"
  ap_Title :: "string option"
  ap_Type :: "string option"

definition problemTypeBase :: string where
  "problemTypeBase = ''https://github.com/amagioss/opentams/problems/''"

definition problemType :: "string \<Rightarrow> string" where
  "problemType s = problemTypeBase @ s"

definition zeroProblem :: api_ProblemDetails where
  "zeroProblem = \<lparr>ap_Detail = None, ap_Instance = None, ap_RequestId = None, ap_Status = None,
     ap_Title = None, ap_Type = None\<rparr>"

definition problemPtrs :: "string \<Rightarrow> string \<Rightarrow> string \<Rightarrow> int \<Rightarrow> api_ProblemDetails" where
  "problemPtrs typ title detail status =
     zeroProblem\<lparr>ap_Type := Some typ, ap_Title := Some title, ap_Detail := Some detail, ap_Status := Some status\<rparr>"

section \<open>JSON\<close>

text \<open>\<^verbatim>\<open>omitempty\<close> on a pointer leaves the member out when the pointer is nil.\<close>

definition omit_nil :: "string \<Rightarrow> json option \<Rightarrow> (string \<times> json) list" where
  "omit_nil name v = (case v of None \<Rightarrow> [] | Some j \<Rightarrow> [(name, j)])"

definition marshal_problem :: "api_ProblemDetails \<Rightarrow> json" where
  "marshal_problem p = JObj
     (omit_nil ''detail'' (map_option JStr (ap_Detail p)) @
      omit_nil ''instance'' (map_option JStr (ap_Instance p)) @
      omit_nil ''request_id'' (map_option JStr (ap_RequestId p)) @
      omit_nil ''status'' (map_option (\<lambda>n. JNum (fmt_d n)) (ap_Status p)) @
      omit_nil ''title'' (map_option JStr (ap_Title p)) @
      omit_nil ''type'' (map_option JStr (ap_Type p)))"

definition problem_fields :: "string list" where
  "problem_fields = [''detail'', ''instance'', ''request_id'', ''status'', ''title'', ''type'']"

definition dec_problem_field :: "string \<Rightarrow> json \<Rightarrow> api_ProblemDetails \<Rightarrow> api_ProblemDetails option" where
  "dec_problem_field f j p =
     (if f = ''detail'' then map_option (\<lambda>v. p\<lparr>ap_Detail := v\<rparr>) (dec_opt_string j)
      else if f = ''instance'' then map_option (\<lambda>v. p\<lparr>ap_Instance := v\<rparr>) (dec_opt_string j)
      else if f = ''request_id'' then map_option (\<lambda>v. p\<lparr>ap_RequestId := v\<rparr>) (dec_opt_string j)
      else if f = ''status'' then map_option (\<lambda>v. p\<lparr>ap_Status := v\<rparr>) (dec_opt_int j)
      else if f = ''title'' then map_option (\<lambda>v. p\<lparr>ap_Title := v\<rparr>) (dec_opt_string j)
      else map_option (\<lambda>v. p\<lparr>ap_Type := v\<rparr>) (dec_opt_string j))"

definition unmarshal_problem :: "json \<Rightarrow> api_ProblemDetails option" where
  "unmarshal_problem = decode_object problem_fields dec_problem_field zeroProblem"

section \<open>The round trip\<close>

lemma ParseInt_status: "0 \<le> n \<Longrightarrow> n < 2 ^ 63 \<Longrightarrow> ParseInt (fmt_d n) 64 = (n, None)"
  using ParseInt_digits [of "dec (nat n)" 64] by (simp add: fmt_d_def dec_digits)

lemma find_field_member: "k \<in> set names \<Longrightarrow> find_field names k = Some k"
  by (simp add: find_field_def)

lemma decode_struct_append:
  "decode_struct names put (xs @ ys) st = decode_struct names put ys (decode_struct names put xs st)"
proof (induction xs arbitrary: st)
  case (Cons kv xs)
  obtain k v where "kv = (k, v)" by force
  moreover obtain x failed where "st = (x, failed)" by force
  ultimately show ?case using Cons by (simp split: option.split)
qed simp

lemma unmarshal_marshal_problem:
  assumes "\<And>n. ap_Status p = Some n \<Longrightarrow> 0 \<le> n \<and> n < 2 ^ 63"
  shows "unmarshal_problem (marshal_problem p) = Some p"
proof -
  note defs = unmarshal_problem_def marshal_problem_def decode_object_def omit_nil_def dec_problem_field_def
    find_field_member problem_fields_def dec_opt_string_def dec_opt_int_def zeroProblem_def decode_struct_append
  show ?thesis
    using assms
    by (cases p) (auto simp: defs ParseInt_status split: option.split)
qed

lemma problemPtrs_status: "ap_Status (problemPtrs t ti de st) = Some st"
  by (simp add: problemPtrs_def)

end
