(* ===== verification/Page_Cursor.thy ===== *)
theory Page_Cursor
  imports Database "HOL-Library.Product_Lexorder" "HOL-Library.List_Lexorder"
begin

text \<open>
  The page cursor of \<^verbatim>\<open>ListFlows\<close> and \<^verbatim>\<open>ListSources\<close> in \<^verbatim>\<open>internal/metastore/store.go\<close>: the
  pair of the last row's \<^verbatim>\<open>created\<close> and \<^verbatim>\<open>id\<close> as JSON in base64; and keyset pagination, the
  way both listings cut their sorted rows into pages. The text of a time depends on the zone
  of the process and that of a UUID is read by \<^verbatim>\<open>google/uuid\<close>, so both are parameters
  (\<open>libs\<close>). \<open>keyset_paging\<close> is the contract of a listing that is paged by cursor, with the
  theorem that its pages together are the listing.
\<close>

record libs =
  time_text :: "time \<Rightarrow> string"
  time_parse :: "string \<Rightarrow> time option"
  uuid_Parse :: "string \<Rightarrow> uuid option"
  int4in :: "string \<Rightarrow> int res"

text \<open>What the cursor relies on: the text of a time and of a stored UUID reads back as written,
  and neither needs an escape inside a JSON string.\<close>

definition plain :: "string \<Rightarrow> bool" where
  "plain s \<longleftrightarrow> list_all (\<lambda>c. c \<noteq> CHR 0x22 \<and> c \<noteq> CHR 0x5C \<and> (of_char c :: nat) \<ge> 32) s"

definition time_lib_ok :: "libs \<Rightarrow> bool" where
  "time_lib_ok l \<longleftrightarrow> (\<forall>t. time_parse l (time_text l t) = Some t \<and> plain (time_text l t))"

definition uuid_ok :: "libs \<Rightarrow> uuid \<Rightarrow> bool" where
  "uuid_ok l u \<longleftrightarrow> uuid_Parse l u = Some u \<and> plain u"

section \<open>The cursor\<close>

text \<open>The zero values of \<^verbatim>\<open>time.Time\<close>, in microseconds, and of \<^verbatim>\<open>uuid.UUID\<close>.\<close>

definition time_zero :: time where
  "time_zero = -62135596800000000"

definition uuid_Nil :: uuid where
  "uuid_Nil = ''00000000-0000-0000-0000-000000000000''"

definition cursor_text :: "libs \<Rightarrow> time \<Rightarrow> uuid \<Rightarrow> string" where
  "cursor_text l ts uid =
     CHR ''{'' # CHR 0x22 # ''ts'' @ CHR 0x22 # CHR '':'' # CHR 0x22 # time_text l ts @ CHR 0x22 #
     CHR '','' # CHR 0x22 # ''id'' @ CHR 0x22 # CHR '':'' # CHR 0x22 # uid @ CHR 0x22 # ''}''"

definition encodeCursor :: "libs \<Rightarrow> time \<Rightarrow> uuid \<Rightarrow> string" where
  "encodeCursor l ts uid = EncodeToString (cursor_text l ts uid)"

text \<open>One member of the object: the field it names is set, and \<^verbatim>\<open>null\<close> sets nothing.\<close>

fun cursor_members ::
    "libs \<Rightarrow> (string \<times> json) list \<Rightarrow> time \<times> uuid \<Rightarrow> (time \<times> uuid) option" where
  "cursor_members l [] v = Some v"
| "cursor_members l ((k, j) # ms) (ts, uid) =
     (case (find_field [''ts'', ''id''] k, j) of
        (None, _) \<Rightarrow> cursor_members l ms (ts, uid)
      | (Some f, JNull) \<Rightarrow> cursor_members l ms (ts, uid)
      | (Some f, JStr s) \<Rightarrow>
          if f = ''ts'' then
            (case time_parse l s of None \<Rightarrow> None | Some t \<Rightarrow> cursor_members l ms (t, uid))
          else
            (case uuid_Parse l s of None \<Rightarrow> None | Some u \<Rightarrow> cursor_members l ms (ts, u))
      | (Some f, _) \<Rightarrow> None)"

text \<open>The caller replaces every error, so its value is left open.\<close>

definition decodeCursor :: "libs \<Rightarrow> string \<Rightarrow> (time \<times> uuid) res" where
  "decodeCursor l s =
     (case DecodeString s of
        None \<Rightarrow> Err (Extern 0)
      | Some b \<Rightarrow>
          (case json_parse b of
             Some JNull \<Rightarrow> Ok (time_zero, uuid_Nil)
           | Some (JObj ms) \<Rightarrow>
               (case cursor_members l ms (time_zero, uuid_Nil) of
                  None \<Rightarrow> Err (Extern 0) | Some v \<Rightarrow> Ok v)
           | _ \<Rightarrow> Err (Extern 0)))"

lemma scan_str_plain: "plain s \<Longrightarrow> scan_str (s @ CHR 0x22 # r) = Some (map Inl s, r)"
  by (induction s) (auto simp: plain_def)

lemma join_units_Inl [simp]: "join_units (map Inl s) = s"
  by (induction s) auto

lemma pstr_plain: "plain s \<Longrightarrow> pstr (s @ CHR 0x22 # r) = Some (s, r)"
  by (simp add: pstr_def scan_str_plain)

lemma pval_plain: "plain s \<Longrightarrow> pval (Suc n) d (CHR 0x22 # s @ CHR 0x22 # r) = Some (JStr s, r)"
  by (simp add: skip_def is_ws_def pstr_plain)

lemma pmembers_plain:
  assumes "plain k"
  shows "pmembers (Suc n) d (CHR 0x22 # k @ CHR 0x22 # CHR '':'' # r) =
    (case pval n d r of None \<Rightarrow> None | Some (v, r3) \<Rightarrow>
      (case skip r3 of
         x # r4 \<Rightarrow> if x = CHR ''}'' then Some ([(k, v)], r4)
           else if x = CHR '','' then map_option (\<lambda>(ms, r). ((k, v) # ms, r)) (pmembers n d r4) else None
       | [] \<Rightarrow> None))"
  using pmembers_key [OF pstr_plain [OF assms]] .

lemma json_parse_page_cursor:
  assumes "plain (time_text l ts)" "plain uid"
  shows "json_parse (cursor_text l ts uid) = Some (JObj [(''ts'', JStr (time_text l ts)), (''id'', JStr uid)])"
proof -
  let ?t = "time_text l ts"
  let ?r2 = "CHR 0x22 # ''id'' @ CHR 0x22 # CHR '':'' # CHR 0x22 # uid @ CHR 0x22 # ''}''"
  let ?r1 = "CHR 0x22 # ''ts'' @ CHR 0x22 # CHR '':'' # CHR 0x22 # ?t @ CHR 0x22 # CHR '','' # ?r2"
  have t: "cursor_text l ts uid = CHR ''{'' # ?r1" by (simp add: cursor_text_def)
  define n where "n = 2 * length ?r1"
  have fuel: "2 * length (cursor_text l ts uid) + 2 = Suc (Suc (Suc (Suc n)))"
    unfolding t n_def by simp
  have k: "plain ''ts''" "plain ''id''" by (simp_all add: plain_def)
  have m2: "pmembers (Suc (Suc m)) k ?r2 = Some ([(''id'', JStr uid)], [])" for m k
    unfolding pmembers_plain [OF k(2)] pval_plain [OF assms(2)] by (simp add: skip_def is_ws_def)
  have m1: "pmembers (Suc (Suc (Suc m))) k ?r1 = Some ([(''ts'', JStr ?t), (''id'', JStr uid)], [])" for m k
    unfolding pmembers_plain [OF k(1)] pval_plain [OF assms(1)] using m2 [of m k]
    by (simp add: skip_def is_ws_def del: pmembers.simps)
  have "pval (Suc (Suc (Suc (Suc m)))) maxNestingDepth (CHR ''{'' # ?r1) =
      Some (JObj [(''ts'', JStr ?t), (''id'', JStr uid)], [])" for m
    unfolding pval.simps(2) using m1 [of m "maxNestingDepth - 1"]
    by (simp add: skip_def is_ws_def maxNestingDepth_def del: pmembers.simps)
  then show ?thesis unfolding json_parse_def fuel unfolding t by (simp add: skip_def)
qed

lemma decode_encodeCursor:
  assumes "time_lib_ok l" "uuid_ok l uid"
  shows "decodeCursor l (encodeCursor l ts uid) = Ok (ts, uid)"
  using assms by (simp add: decodeCursor_def encodeCursor_def Decode_Encode json_parse_page_cursor
      time_lib_ok_def uuid_ok_def find_field_def)

section \<open>Keyset pagination\<close>

text \<open>The tail of both listings: one row more than the page is read, and when it is there the
  last row of the page gives the cursor.\<close>

definition key_page :: "('i \<Rightarrow> string) \<Rightarrow> int \<Rightarrow> 'i list \<Rightarrow> 'i list \<times> string option" where
  "key_page enc limit items =
     (if int (length items) > limit
      then (take (nat limit) items, Some (enc (items ! (nat limit - 1))))
      else (items, None))"

text \<open>A client that follows the cursors, for at most the given number of pages.\<close>

fun walk :: "(string option \<Rightarrow> ('i list \<times> string option) option) \<Rightarrow> nat \<Rightarrow> string option \<Rightarrow> 'i list option" where
  "walk page 0 c = None"
| "walk page (Suc n) c =
     (case page c of
        None \<Rightarrow> None
      | Some (items, None) \<Rightarrow> Some items
      | Some (items, Some c') \<Rightarrow> map_option ((@) items) (walk page n (Some c')))"

text \<open>
  A listing in a state \<open>s\<close>: its rows in strict key order, and its page after a cursor, which is
  the beginning of the rows past the cursor's row.
\<close>

locale keyset_paging =
  fixes ok :: "'s \<Rightarrow> bool"
    and rows :: "'s \<Rightarrow> 'r list"
    and key :: "'r \<Rightarrow> 'k::linorder"
    and limit :: "'s \<Rightarrow> int"
    and enc :: "'s \<Rightarrow> 'r \<Rightarrow> string"
    and scan :: "'s \<Rightarrow> 'r \<Rightarrow> 'i"
    and page :: "'s \<Rightarrow> string option \<Rightarrow> ('i list \<times> string option) option"
  assumes strict: "ok s \<Longrightarrow> sorted_wrt (\<lambda>a b. key a < key b) (rows s)"
    and limit: "ok s \<Longrightarrow> 0 < limit s"
    and first_page: "ok s \<Longrightarrow> page s None =
      map_option (apfst (map (scan s))) (Some (key_page (enc s) (limit s) (rows s)))"
    and next_page: "ok s \<Longrightarrow> r \<in> set (rows s) \<Longrightarrow> page s (Some (enc s r)) =
      map_option (apfst (map (scan s)))
        (Some (key_page (enc s) (limit s) (filter (\<lambda>x. key r < key x) (rows s))))"
begin

lemma after_row:
  assumes "ok s" "rows s = pre @ ys" "0 < n" "n \<le> length ys"
  shows "filter (\<lambda>x. key (ys ! (n - 1)) < key x) (rows s) = drop n ys"
proof -
  have split: "ys = take (n - 1) ys @ ys ! (n - 1) # drop n ys"
    using assms(3,4) id_take_nth_drop [of "n - 1" ys] by simp
  have "sorted_wrt (\<lambda>a b. key a < key b) (pre @ take (n - 1) ys @ ys ! (n - 1) # drop n ys)"
    using strict [OF assms(1)] assms(2) split by metis
  then have "\<forall>x\<in>set pre \<union> set (take (n - 1) ys). \<not> key (ys ! (n - 1)) < key x"
    and "\<forall>x\<in>set (drop n ys). key (ys ! (n - 1)) < key x"
    by (auto simp: sorted_wrt_append)
  then have "filter (\<lambda>x. key (ys ! (n - 1)) < key x) (pre @ take (n - 1) ys @ ys ! (n - 1) # drop n ys) = drop n ys"
    by (simp add: filter_empty_conv)
  then show ?thesis using assms(2) split by metis
qed

lemma walk_suffix:
  assumes "ok s" "rows s = pre @ ys" "length ys < n"
    and "page s c = Some (apfst (map (scan s)) (key_page (enc s) (limit s) ys))"
  shows "walk (page s) n c = Some (map (scan s) ys)"
  using assms(2-)
proof (induction n arbitrary: pre ys c)
  case 0
  then show ?case by simp
next
  case (Suc n)
  show ?case
  proof (cases "int (length ys) > limit s")
    case False
    then show ?thesis using Suc.prems by (simp add: key_page_def)
  next
    case True
    let ?m = "nat (limit s)"
    let ?r = "ys ! (?m - 1)"
    have m: "0 < ?m" "?m < length ys" using limit [OF assms(1)] True by auto
    have "?r \<in> set (rows s)" using m Suc.prems(1) by simp
    then have "page s (Some (enc s ?r)) = Some (apfst (map (scan s)) (key_page (enc s) (limit s) (drop ?m ys)))"
      using next_page [OF assms(1), of ?r] after_row [OF assms(1) Suc.prems(1), of ?m] m by simp
    moreover have "rows s = (pre @ take ?m ys) @ drop ?m ys" using Suc.prems(1) by simp
    moreover have "length (drop ?m ys) < n" using m Suc.prems(2) by simp
    ultimately have "walk (page s) n (Some (enc s ?r)) = Some (map (scan s) (drop ?m ys))"
      using Suc.IH by blast
    then show ?thesis using Suc.prems(3) True by (simp add: key_page_def flip: map_append)
  qed
qed

text \<open>Following the cursors ends after at most one page more than there are rows, and gives
  every row once, in order.\<close>

lemma walk_all: "ok s \<Longrightarrow> length (rows s) < n \<Longrightarrow> walk (page s) n None = Some (map (scan s) (rows s))"
  using walk_suffix [of s "[]" "rows s" n None] first_page by simp

end

end
