(* ===== verification/Object_Store.thy ===== *)
theory Object_Store
  imports Prelude App_Error
begin

text \<open>
  The object store of \<^verbatim>\<open>internal/objectstore/objectstore.go\<close>. The S3 client and the signer are
  parameters: \<open>s3\<close> gives the reply to the n-th \<^verbatim>\<open>DeleteObjects\<close> call for its keys, and the
  presigner the signed URL of a bucket and a key, or its error.
\<close>

record s3_error =
  se_code :: "string option"
  se_canceled :: bool
  se_err :: go_error

datatype s3_reply = S3Fail s3_error | S3Out "(string \<times> string \<times> string) list"

record BackendInfo =
  bi_StorageID :: string
  bi_Provider :: string
  bi_Region :: string
  bi_StoreProduct :: string

record presigner =
  PresignGetObject :: "string \<Rightarrow> string \<Rightarrow> string res"
  PresignPutObject :: "string \<Rightarrow> string \<Rightarrow> string \<Rightarrow> string res"

record S3Store =
  st_bucket :: string
  st_presign :: "presigner option"
  st_backend :: BackendInfo

record DownloadURLSet =
  du_StorageID :: string
  du_StorageURI :: string
  du_PresignedURL :: string
  du_Backend :: BackendInfo

record s3_DeleteResult =
  sd_ID :: string
  sd_Error :: "go_error option"

section \<open>URLs\<close>

definition no_presigner :: go_error where
  "no_presigner = Errorf [W (Sentinel ErrInvalidInput), Lit '': presign client not configured'']"

definition GenerateUploadURL :: "S3Store \<Rightarrow> string \<Rightarrow> string \<Rightarrow> string res" where
  "GenerateUploadURL st objectID contentType =
     (case st_presign st of
        None \<Rightarrow> Err no_presigner
      | Some p \<Rightarrow> rwrap (\<lambda>e. Errorf [Lit ''objectstore: GenerateUploadURL: '', W e])
          (PresignPutObject p (st_bucket st) objectID contentType))"

definition GenerateDownloadURL :: "S3Store \<Rightarrow> string \<Rightarrow> bool option \<Rightarrow> DownloadURLSet res" where
  "GenerateDownloadURL st objectID presigned =
     (let url_set = \<lparr>du_StorageID = bi_StorageID (st_backend st),
        du_StorageURI = ''s3://'' @ st_bucket st @ ''/'' @ objectID, du_PresignedURL = [],
        du_Backend = st_backend st\<rparr>
      in if presigned = Some False then Ok url_set
         else (case st_presign st of
            None \<Rightarrow> Err no_presigner
          | Some p \<Rightarrow>
              rbind (rwrap (\<lambda>e. Errorf [Lit ''objectstore: GenerateDownloadURL: '', W e])
                (PresignGetObject p (st_bucket st) objectID)) (\<lambda>url.
              Ok (url_set\<lparr>du_PresignedURL := url\<rparr>))))"

section \<open>DeleteObjects\<close>

definition deleteBatchSize :: nat where
  "deleteBatchSize = 1000"

definition classifyAuth :: "s3_error \<Rightarrow> bool" where
  "classifyAuth e =
     (case se_code e of
        None \<Rightarrow> False
      | Some code \<Rightarrow> code \<in> {''AccessDenied'', ''InvalidAccessKeyId'', ''SignatureDoesNotMatch'', ''Unauthorized''})"

definition classifyChunkErr :: "s3_error \<Rightarrow> go_error" where
  "classifyChunkErr e = Errorf [W (Sentinel ErrTransient), Lit '': '', W (se_err e)]"

definition classifyAPIError :: "string \<Rightarrow> string \<Rightarrow> go_error" where
  "classifyAPIError code msg =
     (if code \<in> {''InternalError'', ''ServiceUnavailable'', ''SlowDown'', ''RequestTimeout''} then
        Errorf [W (Sentinel ErrTransient), Lit '': '', S code, Lit '': '', S msg]
      else if code \<in> {''AccessDenied'', ''InvalidAccessKeyId'', ''SignatureDoesNotMatch''} then
        Errorf [W (Sentinel ErrAuth), Lit '': '', S code, Lit '': '', S msg]
      else Errorf [Lit ''objectstore: '', S code, Lit '': '', S msg])"

text \<open>The ids once each, in the order of their first occurrence.\<close>

fun dedup :: "string list \<Rightarrow> string list \<Rightarrow> string list" where
  "dedup seen [] = []"
| "dedup seen (x # xs) = (if x \<in> set seen then dedup seen xs else x # dedup (x # seen) xs)"

text \<open>The slices of a batch; a slice is never empty.\<close>

function chunks :: "nat \<Rightarrow> 'a list \<Rightarrow> 'a list list" where
  "chunks n xs = (if xs = [] \<or> n = 0 then [] else take n xs # chunks n (drop n xs))"
  by auto
termination by (relation "measure (\<lambda>(n, xs). length xs)") auto

declare chunks.simps [simp del]

type_synonym outcome = "string \<Rightarrow> go_error option"

definition set_all :: "string list \<Rightarrow> go_error option \<Rightarrow> outcome \<Rightarrow> outcome" where
  "set_all ids e out = (\<lambda>k. if k \<in> set ids then e else out k)"

definition set_errors :: "(string \<times> string \<times> string) list \<Rightarrow> outcome \<Rightarrow> outcome" where
  "set_errors errs out = foldl (\<lambda>o' (k, code, msg). o'(k := Some (classifyAPIError code msg))) out errs"

fun delete_chunks ::
    "(nat \<Rightarrow> string list \<Rightarrow> s3_reply) \<Rightarrow> nat \<Rightarrow> string list list \<Rightarrow> outcome \<Rightarrow> outcome res" where
  "delete_chunks s3 i [] out = Ok out"
| "delete_chunks s3 i (chunk # rest) out =
     (case s3 i chunk of
        S3Fail e \<Rightarrow>
          if classifyAuth e then Err (Errorf [W (Sentinel ErrAuth), Lit '': '', W (se_err e)])
          else if se_canceled e then
            Ok (set_all (concat rest) (Some (classifyChunkErr e)) (set_all chunk (Some (classifyChunkErr e)) out))
          else delete_chunks s3 (Suc i) rest (set_all chunk (Some (classifyChunkErr e)) out)
      | S3Out errs \<Rightarrow> delete_chunks s3 (Suc i) rest (set_errors errs (set_all chunk None out)))"

definition DeleteObjects ::
    "(nat \<Rightarrow> string list \<Rightarrow> s3_reply) \<Rightarrow> go_error option \<Rightarrow> string list \<Rightarrow> s3_DeleteResult list res" where
  "DeleteObjects s3 ctxErr ids =
     (if ids = [] then Ok []
      else case ctxErr of
        Some e \<Rightarrow> Err (Errorf [Lit ''objectstore: DeleteObjects: '', W e])
      | None \<Rightarrow>
          rbind (delete_chunks s3 0 (chunks deleteBatchSize (dedup [] ids)) (\<lambda>_. None)) (\<lambda>out.
          Ok (map (\<lambda>k. \<lparr>sd_ID = k, sd_Error = out k\<rparr>) ids)))"

section \<open>What a deletion reports\<close>

lemma dedup_set: "set (dedup seen xs) = set xs - set seen"
  by (induction xs arbitrary: seen) auto

lemma dedup_distinct: "distinct (dedup seen xs)"
  by (induction xs arbitrary: seen) (auto simp: dedup_set)

lemma chunks_concat: "0 < n \<Longrightarrow> concat (chunks n xs) = xs"
  by (induction n xs rule: chunks.induct) (subst chunks.simps, auto)

lemma chunks_size: "c \<in> set (chunks n xs) \<Longrightarrow> c \<noteq> [] \<and> length c \<le> n"
proof (induction n xs rule: chunks.induct)
  case (1 n xs)
  then show ?case by (subst (asm) (2) chunks.simps) (auto split: if_splits)
qed

text \<open>A key that a reply of the server confirms: its call returned and named no error for it.\<close>

definition confirmed :: "(nat \<Rightarrow> string list \<Rightarrow> s3_reply) \<Rightarrow> nat \<Rightarrow> string list list \<Rightarrow> string \<Rightarrow> bool" where
  "confirmed s3 i cs k \<longleftrightarrow>
     (\<exists>j < length cs. k \<in> set (cs ! j) \<and> (\<exists>errs. s3 (i + j) (cs ! j) = S3Out errs \<and> k \<notin> fst ` set errs))"

lemma set_errors_None: "set_errors errs out k = None \<longleftrightarrow> k \<notin> fst ` set errs \<and> out k = None"
  by (induction errs arbitrary: out) (auto simp: set_errors_def split: if_splits)

lemma confirmed_Cons:
  "confirmed s3 i (c # cs) k \<longleftrightarrow>
    (k \<in> set c \<and> (\<exists>errs. s3 i c = S3Out errs \<and> k \<notin> fst ` set errs)) \<or> confirmed s3 (Suc i) cs k"
  unfolding confirmed_def by (auto simp: less_Suc_eq_0_disj)

lemma delete_chunks_untouched:
  "delete_chunks s3 i cs out = Ok out' \<Longrightarrow> k \<notin> set (concat cs) \<Longrightarrow> out' k = None \<Longrightarrow> out k = None"
proof (induction s3 i cs out rule: delete_chunks.induct)
  case (2 s3 i c rest out)
  then show ?case by (auto simp: set_all_def set_errors_None split: s3_reply.splits if_splits)
qed simp

lemma delete_chunks_confirmed:
  assumes "delete_chunks s3 i cs out = Ok out'" "k \<in> set (concat cs)" "out' k = None"
  shows "confirmed s3 i cs k"
  using assms
proof (induction s3 i cs out rule: delete_chunks.induct)
  case (1 s3 i out)
  then show ?case by simp
next
  case (2 s3 i c rest out)
  show ?case
  proof (cases "k \<in> set (concat rest)")
    case True
    then show ?thesis
      using 2 by (auto simp: confirmed_Cons set_all_def split: s3_reply.splits if_splits)
  next
    case False
    then have c: "k \<in> set c" using 2(4) by simp
    show ?thesis
    proof (cases "s3 i c")
      case (S3Fail e)
      then show ?thesis
        using 2(3,5) False c delete_chunks_untouched [OF _ False, of s3 "Suc i" _ out']
        by (force simp: set_all_def split: if_splits)
    next
      case (S3Out errs)
      then have "set_errors errs (set_all c None out) k = None"
        using 2(3,5) delete_chunks_untouched [OF _ False] by simp
      then show ?thesis
        using S3Out c by (simp add: confirmed_Cons set_errors_None)
    qed
  qed
qed

text \<open>C26: \<^verbatim>\<open>DeleteObjects\<close> reports one outcome per requested id, in the order of the request, and the same
  for equal ids. It sends every id once, in calls of at most a thousand ids, and reports a success only for an
  id that a reply of the server confirms, so that no object whose bytes may still exist counts as deleted.\<close>

theorem delete_objects_reports:
  assumes "DeleteObjects s3 ctxErr ids = Ok results"
  shows "map sd_ID results = ids \<and>
    (\<forall>r \<in> set results. \<forall>r' \<in> set results. sd_ID r = sd_ID r' \<longrightarrow> sd_Error r = sd_Error r') \<and>
    (let calls = chunks deleteBatchSize (dedup [] ids)
     in distinct (concat calls) \<and> set (concat calls) = set ids \<and> list_all (\<lambda>c. length c \<le> 1000) calls \<and>
        (\<forall>r \<in> set results. sd_Error r = None \<longrightarrow> confirmed s3 0 calls (sd_ID r)))"
proof -
  let ?calls = "chunks deleteBatchSize (dedup [] ids)"
  have cat: "concat ?calls = dedup [] ids" by (rule chunks_concat) (simp add: deleteBatchSize_def)
  have size: "list_all (\<lambda>c. length c \<le> 1000) ?calls"
    using chunks_size [of _ deleteBatchSize "dedup [] ids"] by (auto simp: list_all_iff deleteBatchSize_def)
  show ?thesis
  proof (cases "ids = []")
    case True
    then show ?thesis using assms by (simp add: DeleteObjects_def chunks.simps [of _ "[]"])
  next
    case False
    from assms False obtain out where out: "delete_chunks s3 0 ?calls (\<lambda>_. None) = Ok out"
        "results = map (\<lambda>k. \<lparr>sd_ID = k, sd_Error = out k\<rparr>) ids"
      by (auto simp: DeleteObjects_def res_simps split: option.splits)
    have "confirmed s3 0 ?calls k" if "k \<in> set ids" "out k = None" for k
      using delete_chunks_confirmed [OF out(1)] that cat by (simp add: dedup_set)
    moreover have "set (concat ?calls) = set ids" by (simp only: cat dedup_set) simp
    ultimately show ?thesis
      using size dedup_distinct by (auto simp: out(2) cat Let_def comp_def simp del: set_concat)
  qed
qed

definition ex_s3 :: "nat \<Rightarrow> string list \<Rightarrow> s3_reply" where
  "ex_s3 i keys = S3Out [(''b'', ''SlowDown'', ''later'')]"

theorem delete_objects_reports_witness:
  "case DeleteObjects ex_s3 None [''a'', ''b'', ''a''] of
     Ok results \<Rightarrow> map sd_ID results = [''a'', ''b'', ''a''] \<and> map (\<lambda>r. sd_Error r = None) results = [True, False, True]
   | _ \<Rightarrow> False"
proof -
  have run: "DeleteObjects ex_s3 None [''a'', ''b'', ''a''] = Ok
      [\<lparr>sd_ID = ''a'', sd_Error = None\<rparr>, \<lparr>sd_ID = ''b'', sd_Error = Some (classifyAPIError ''SlowDown'' ''later'')\<rparr>,
       \<lparr>sd_ID = ''a'', sd_Error = None\<rparr>]"
    by code_simp
  show ?thesis using delete_objects_reports [OF run] by (simp add: run)
qed

lemma dedup_id: "distinct xs \<Longrightarrow> set xs \<inter> set seen = {} \<Longrightarrow> dedup seen xs = xs"
  by (induction xs arbitrary: seen) auto

text \<open>C27: When the credentials are refused on the second call, \<^verbatim>\<open>DeleteObjects\<close> returns only the error: the
  outcomes of the first call, whose objects are gone, are lost, although the comment says that the error
  is only for a call that could not begin.\<close>

theorem delete_objects_drops_outcomes:
  assumes "deleteBatchSize < length (dedup [] ids)" "\<And>c. s3 0 c = S3Out []" "\<And>c. s3 1 c = S3Fail e" "classifyAuth e"
  shows "DeleteObjects s3 None ids = Err (Errorf [W (Sentinel ErrAuth), Lit '': '', W (se_err e)])"
proof -
  let ?u = "dedup [] ids"
  have ne: "?u \<noteq> []" "ids \<noteq> []" "drop deleteBatchSize ?u \<noteq> []" using assms(1) by auto
  have "chunks deleteBatchSize ?u = take deleteBatchSize ?u # take deleteBatchSize (drop deleteBatchSize ?u) #
      chunks deleteBatchSize (drop deleteBatchSize (drop deleteBatchSize ?u))"
    using ne chunks.simps [of deleteBatchSize ?u] chunks.simps [of deleteBatchSize "drop deleteBatchSize ?u"]
    by (simp add: deleteBatchSize_def)
  then show ?thesis
    using ne assms(2-4) by (simp add: DeleteObjects_def)
qed

theorem delete_objects_drops_outcomes_witness:
  "DeleteObjects (\<lambda>i c. if i = 0 then S3Out [] else S3Fail \<lparr>se_code = Some ''AccessDenied'', se_canceled = False, se_err = Extern 0\<rparr>)
     None (map dec [0..<1001]) = Err (Errorf [W (Sentinel ErrAuth), Lit '': '', W (Extern 0)])"
proof -
  have "inj dec" by (rule inj_on_inverseI [of _ dec_val]) simp
  then have "distinct (map dec [0..<1001])" by (auto simp: distinct_map intro: inj_on_subset)
  then have "dedup [] (map dec [0..<1001]) = map dec [0..<1001]" by (rule dedup_id) simp
  then have "deleteBatchSize < length (dedup [] (map dec [0..<1001]))" by (simp only: length_map length_upt) (simp add: deleteBatchSize_def)
  from delete_objects_drops_outcomes [OF this, of "\<lambda>i c. if i = 0 then S3Out [] else
      S3Fail \<lparr>se_code = Some ''AccessDenied'', se_canceled = False, se_err = Extern 0\<rparr>"
      "\<lparr>se_code = Some ''AccessDenied'', se_canceled = False, se_err = Extern 0\<rparr>"]
  show ?thesis by (simp add: classifyAuth_def)
qed

end
