(* ===== verification/Segment_Handlers.thy ===== *)
theory Segment_Handlers
  imports Segment_Service Idempotency Problem Page_Cursor Object_Store
begin

text \<open>
  The segment endpoints of \<^verbatim>\<open>internal/httpx/handlers/segments.go\<close>. A handler takes the request
  and the server and returns one of the responses of its operation, or an error, which the server
  turns into a problem document. The tables change through the store and the idempotency store.
  Log lines are left out.
\<close>

text \<open>What a handler holds and calls. The store, the idempotency store and the deferred release
  each run on statements of their own, so each has its own faults and its own clock.\<close>

record server =
  sv_libs :: libs
  sv_texts :: texts
  sv_hash :: "string \<Rightarrow> string"
  sv_env :: db_env
  sv_idem :: db_env
  sv_defer :: db_env
  sv_clock :: time
  sv_ttl :: int
  sv_storage :: string
  sv_objects :: S3Store

record paging_headers =
  ph_Limit :: int
  ph_Count :: int
  ph_ReverseOrder :: bool
  ph_Timerange :: string
  ph_NextKey :: "string option"
  ph_Link :: "string option"

record bulkEntry =
  be_Detail :: string
  be_Title :: string
  be_Type :: string
  be_ObjectId :: string
  be_Timerange :: "string option"

datatype GetSegmentsResponse =
    Get200 "FlowSegment list" paging_headers | Get400 api_ProblemDetails | Get404 api_ProblemDetails

datatype HeadSegmentsResponse = Head200 paging_headers | Head400 api_ProblemDetails

datatype PostSegmentsResponse =
    Post200 "bulkEntry list option" | Post201 | Post400 api_ProblemDetails | Post403 api_ProblemDetails
  | Post404 api_ProblemDetails | Post409 api_ProblemDetails | Post422 api_ProblemDetails

datatype DeleteSegmentsResponse =
    Delete204 | Delete400 api_ProblemDetails | Delete403 api_ProblemDetails | Delete404 api_ProblemDetails

section \<open>Problem builders\<close>

definition getSegments400 :: "string \<Rightarrow> string \<Rightarrow> string \<Rightarrow> GetSegmentsResponse" where
  "getSegments400 typ title detail = Get400 (problemPtrs typ title detail 400)"

definition getSegments404 :: "string \<Rightarrow> GetSegmentsResponse" where
  "getSegments404 detail = Get404 (problemPtrs (problemType ''not-found'') ''Not Found'' detail 404)"

definition deleteSegments400 :: "string \<Rightarrow> string \<Rightarrow> DeleteSegmentsResponse" where
  "deleteSegments400 typ detail = Delete400 (problemPtrs typ ''Bad Request'' detail 400)"

definition deleteSegments403 :: "string \<Rightarrow> DeleteSegmentsResponse" where
  "deleteSegments403 detail = Delete403 (problemPtrs (problemType ''read-only'') ''Forbidden'' detail 403)"

definition deleteSegments404 :: "string \<Rightarrow> DeleteSegmentsResponse" where
  "deleteSegments404 detail = Delete404 (problemPtrs (problemType ''not-found'') ''Not Found'' detail 404)"

definition postSegments400 :: "string \<Rightarrow> string \<Rightarrow> PostSegmentsResponse" where
  "postSegments400 typ detail = Post400 (problemPtrs typ ''Bad Request'' detail 400)"

definition postSegments403 :: "string \<Rightarrow> PostSegmentsResponse" where
  "postSegments403 detail = Post403 (problemPtrs (problemType ''read-only'') ''Forbidden'' detail 403)"

definition postSegments404 :: "string \<Rightarrow> PostSegmentsResponse" where
  "postSegments404 detail = Post404 (problemPtrs (problemType ''not-found'') ''Not Found'' detail 404)"

definition postSegments409 :: "string \<Rightarrow> string \<Rightarrow> PostSegmentsResponse" where
  "postSegments409 typ detail = Post409 (problemPtrs typ ''Conflict'' detail 409)"

definition postSegments422 :: "string \<Rightarrow> string \<Rightarrow> string \<Rightarrow> PostSegmentsResponse" where
  "postSegments422 typ title detail = Post422 (problemPtrs typ title detail 422)"

definition postSegmentsCachedConflict :: "string \<Rightarrow> PostSegmentsResponse" where
  "postSegmentsCachedConflict detail = postSegments409 (problemType ''idempotency-conflict'') detail"

section \<open>Projection of URLs\<close>

definition optStr :: "string \<Rightarrow> string option" where
  "optStr s = (if s = [] then None else Some s)"

definition backendLabel :: "BackendInfo \<Rightarrow> string" where
  "backendLabel b = bi_Provider b @ ''.'' @ bi_Region b @ '':'' @ bi_StoreProduct b @ '':opentams''"

definition controlledGetURLs :: "S3Store \<Rightarrow> string \<Rightarrow> bool option \<Rightarrow> getUrlEntry list res" where
  "controlledGetURLs st objectID presigned =
     rbind (GenerateDownloadURL st objectID presigned) (\<lambda>url_set.
       let label = optStr (backendLabel (du_Backend url_set));
           storageID = optStr (du_StorageID url_set)
       in Ok ((if presigned \<noteq> Some True then
                 [\<lparr>ge_Controlled = None, ge_Label = label, ge_Presigned = None, ge_StorageId = storageID,
                   ge_Url = du_StorageURI url_set\<rparr>] else []) @
              (if presigned \<noteq> Some False \<and> du_PresignedURL url_set \<noteq> [] then
                 [\<lparr>ge_Controlled = None, ge_Label = label, ge_Presigned = Some True, ge_StorageId = storageID,
                   ge_Url = du_PresignedURL url_set\<rparr>] else [])))"

definition byosGetURLs :: "GetURL list \<Rightarrow> bool option \<Rightarrow> getUrlEntry list" where
  "byosGetURLs stored presigned =
     (if presigned = Some True then []
      else map (\<lambda>g. \<lparr>ge_Controlled = Some False, ge_Label = optStr (Label g), ge_Presigned = None,
        ge_StorageId = None, ge_Url = URL g\<rparr>) stored)"

definition project_one :: "S3Store \<Rightarrow> bool option \<Rightarrow> Segment \<Rightarrow> FlowSegment \<Rightarrow> FlowSegment res" where
  "project_one st presigned sg out =
     (if GetURLs sg = [] then
        (case controlledGetURLs st (ObjectID sg) presigned of
           Err e \<Rightarrow> Ok (out\<lparr>as_GetUrls := None\<rparr>)
         | Ok entries \<Rightarrow> Ok (out\<lparr>as_GetUrls := Some entries\<rparr>)
         | Panic p \<Rightarrow> Panic p)
      else
        let entries = byosGetURLs (GetURLs sg) presigned
        in Ok (out\<lparr>as_GetUrls := (if entries = [] then None else Some entries)\<rparr>))"

definition projectSegmentURLs ::
    "S3Store \<Rightarrow> SegmentPage \<Rightarrow> FlowSegment list \<Rightarrow> bool option \<Rightarrow> FlowSegment list res" where
  "projectSegmentURLs st page out presigned =
     rmap (\<lambda>(sg, w). project_one st presigned sg w) (zip (Items page) out)"

section \<open>GET and HEAD\<close>

text \<open>\<^verbatim>\<open>strings.HasPrefix(ae.Detail, "timerange:")\<close> looks at the text of the detail.\<close>

definition listParamsErrorType :: "texts \<Rightarrow> go_error \<Rightarrow> string" where
  "listParamsErrorType tx err =
     (case errors_As err of
        Some (code, status, detail) \<Rightarrow>
          if code = SchemaValidation then
            if HasPrefix (message_text tx detail) ''timerange:'' then problemType ''invalid-timerange''
            else problemType ''schema-validation''
          else problemType ''invalid-timerange''
      | None \<Rightarrow> problemType ''invalid-timerange'')"

definition invalidTimerangeDetail :: "texts \<Rightarrow> go_error \<Rightarrow> string option" where
  "invalidTimerangeDetail tx err =
     (case errors_As err of
        Some (code, status, detail) \<Rightarrow> if code = InvalidTimerange then Some (message_text tx detail) else None
      | None \<Rightarrow> None)"

definition sanitiseHeaderValue :: "string \<Rightarrow> string" where
  "sanitiseHeaderValue s =
     (if s = [] \<or> (CHR 0x0D \<notin> set s \<and> CHR 0x0A \<notin> set s) then s
      else filter (\<lambda>c. c \<noteq> CHR 0x0D \<and> c \<noteq> CHR 0x0A) s)"

definition link_next :: "string \<Rightarrow> string" where
  "link_next cursor = ''<>; rel=\"next\"; key=\"'' @ cursor @ ''\"''"

definition headers_of :: "SegmentPage \<Rightarrow> nat \<Rightarrow> ListParams \<Rightarrow> paging_headers res" where
  "headers_of page count params =
     (let safeCursor = sanitiseHeaderValue (NextCursor page)
      in rbind (TimeRange_String (sp_Timerange page)) (\<lambda>tr.
         Ok \<lparr>ph_Limit = EffectiveLimit page, ph_Count = int count, ph_ReverseOrder = lp_ReverseOrder params,
          ph_Timerange = tr,
          ph_NextKey = (if safeCursor \<noteq> [] then Some safeCursor else None),
          ph_Link = (if safeCursor \<noteq> [] then Some (link_next safeCursor) else None)\<rparr>))"

definition GetFlowSegments :: "server \<Rightarrow> string \<Rightarrow> GetFlowSegmentsParams \<Rightarrow> GetSegmentsResponse tx" where
  "GetFlowSegments sv flowId qp = (\<lambda>d.
     case uuid_Parse (sv_libs sv) flowId of
       None \<Rightarrow> (Ok (getSegments400 (problemType ''invalid-uuid'') ''Bad Request'' ''flow_id is not a valid UUID''), d)
     | Some flowID \<Rightarrow>
         (case ListParamsFromAPI qp of
            Panic p \<Rightarrow> (Panic p, d)
          | Err err \<Rightarrow>
              (Ok (getSegments400 (listParamsErrorType (sv_texts sv) err) ''Bad Request'' (error_text (sv_texts sv) err)), d)
          | Ok params0 \<Rightarrow>
              let params = params0\<lparr>lp_FlowID := flowID\<rparr>
              in case segment_list (ListSegments (sv_env sv)) params d of
                   (Panic p, d1) \<Rightarrow> (Panic p, d1)
                 | (Err err, d1) \<Rightarrow>
                     (if errors_Is err Seg_ErrFlowNotFound then Ok (getSegments404 ''flow not found'')
                      else if errors_Is err ErrInvalidCursor then
                        Ok (getSegments400 (problemType ''invalid-cursor'') ''Bad Request'' (error_text (sv_texts sv) err))
                      else case invalidTimerangeDetail (sv_texts sv) err of
                             Some detail \<Rightarrow> Ok (getSegments400 (problemType ''invalid-timerange'') ''Bad Request'' detail)
                           | None \<Rightarrow> Err err, d1)
                 | (Ok page, d1) \<Rightarrow>
                     (rbind (projectSegmentURLs (sv_objects sv) page (SegmentPageToAPI page) (lp_Presigned params)) (\<lambda>body.
                      rbind (headers_of page (length body) params) (\<lambda>headers.
                      Ok (Get200 body headers))), d1)))"

definition HeadFlowSegments :: "server \<Rightarrow> string \<Rightarrow> GetFlowSegmentsParams \<Rightarrow> HeadSegmentsResponse tx" where
  "HeadFlowSegments sv flowId qp = (\<lambda>d.
     case uuid_Parse (sv_libs sv) flowId of
       None \<Rightarrow> (Ok (Head400 zeroProblem), d)
     | Some flowID \<Rightarrow>
         (case ListParamsFromAPI qp of
            Panic p \<Rightarrow> (Panic p, d)
          | Err err \<Rightarrow> (Ok (Head400 zeroProblem), d)
          | Ok params0 \<Rightarrow>
              let params = params0\<lparr>lp_FlowID := flowID\<rparr>
              in case segment_list (ListSegments (sv_env sv)) params d of
                   (Panic p, d1) \<Rightarrow> (Panic p, d1)
                 | (Err err, d1) \<Rightarrow>
                     (if invalidTimerangeDetail (sv_texts sv) err \<noteq> None then Ok (Head400 zeroProblem) else Err err, d1)
                 | (Ok page, d1) \<Rightarrow> (rbind (headers_of page (length (Items page)) params) (\<lambda>headers. Ok (Head200 headers)), d1)))"

section \<open>Stored responses\<close>

definition bulk_entries :: "texts \<Rightarrow> FailedSegment list \<Rightarrow> bulkEntry list" where
  "bulk_entries tx failed = map (\<lambda>f. \<lparr>be_Detail = message_text tx (fe_Detail f), be_Title = fe_Title f,
     be_Type = fe_Type f, be_ObjectId = fe_ObjectId f, be_Timerange = fe_Timerange f\<rparr>) (RegisterFailureToAPI failed)"

definition marshal_entry :: "bulkEntry \<Rightarrow> json" where
  "marshal_entry e = JObj
     ([(''error'', JObj [(''detail'', JStr (be_Detail e)), (''title'', JStr (be_Title e)), (''type'', JStr (be_Type e))]),
       (''object_id'', JStr (be_ObjectId e))] @ omit_nil ''timerange'' (map_option JStr (be_Timerange e)))"

definition marshal_bulk :: "bulkEntry list option \<Rightarrow> json" where
  "marshal_bulk es = JObj [(''failed_segments'', case es of None \<Rightarrow> JNull | Some l \<Rightarrow> JArr (map marshal_entry l))]"

definition zeroEntry :: bulkEntry where
  "zeroEntry = \<lparr>be_Detail = [], be_Title = [], be_Type = [], be_ObjectId = [], be_Timerange = None\<rparr>"

definition dec_error_field :: "string \<Rightarrow> json \<Rightarrow> bulkEntry \<Rightarrow> bulkEntry option" where
  "dec_error_field f j e =
     (if f = ''detail'' then map_option (\<lambda>v. e\<lparr>be_Detail := v\<rparr>) (dec_string j (be_Detail e))
      else if f = ''title'' then map_option (\<lambda>v. e\<lparr>be_Title := v\<rparr>) (dec_string j (be_Title e))
      else map_option (\<lambda>v. e\<lparr>be_Type := v\<rparr>) (dec_string j (be_Type e)))"

definition dec_entry_field :: "string \<Rightarrow> json \<Rightarrow> bulkEntry \<Rightarrow> bulkEntry option" where
  "dec_entry_field f j e =
     (if f = ''error'' then decode_object [''detail'', ''title'', ''type''] dec_error_field e j
      else if f = ''object_id'' then map_option (\<lambda>v. e\<lparr>be_ObjectId := v\<rparr>) (dec_string j (be_ObjectId e))
      else map_option (\<lambda>v. e\<lparr>be_Timerange := v\<rparr>) (dec_opt_string j))"

definition dec_entries :: "json \<Rightarrow> bulkEntry list option option" where
  "dec_entries j =
     (case j of
        JNull \<Rightarrow> Some None
      | JArr js \<Rightarrow> map_option Some (all_Some (map
          (decode_object [''error'', ''object_id'', ''timerange''] dec_entry_field zeroEntry) js))
      | _ \<Rightarrow> None)"

definition unmarshal_bulk :: "json \<Rightarrow> bulkEntry list option option" where
  "unmarshal_bulk = decode_object [''failed_segments''] (\<lambda>f j x. dec_entries j) None"

text \<open>The JSON of a response with a body.\<close>

definition marshal_post :: "PostSegmentsResponse \<Rightarrow> json" where
  "marshal_post resp =
     (case resp of
        Post200 es \<Rightarrow> marshal_bulk es
      | Post201 \<Rightarrow> JObj []
      | Post400 p \<Rightarrow> marshal_problem p
      | Post403 p \<Rightarrow> marshal_problem p
      | Post404 p \<Rightarrow> marshal_problem p
      | Post409 p \<Rightarrow> marshal_problem p
      | Post422 p \<Rightarrow> marshal_problem p)"

definition replay_problem :: "(api_ProblemDetails \<Rightarrow> PostSegmentsResponse) \<Rightarrow> PostSegmentsResponse \<Rightarrow>
    json option \<Rightarrow> PostSegmentsResponse" where
  "replay_problem mk fallback body =
     (case body of
        None \<Rightarrow> fallback
      | Some j \<Rightarrow> (case unmarshal_problem j of Some p \<Rightarrow> mk p | None \<Rightarrow> fallback))"

definition cachedPostResponse :: "CachedResponse option \<Rightarrow> PostSegmentsResponse" where
  "cachedPostResponse c =
     (case c of
        None \<Rightarrow> Post201
      | Some r \<Rightarrow>
          if cr_Status r = 200 then
            (case cr_Body r of
               None \<Rightarrow> Post201
             | Some j \<Rightarrow> (case unmarshal_bulk j of Some es \<Rightarrow> Post200 es | None \<Rightarrow> Post201))
          else if cr_Status r = 201 then Post201
          else if cr_Status r = 400 then
            replay_problem Post400 (postSegments400 (problemType ''schema-validation'') []) (cr_Body r)
          else if cr_Status r = 403 then replay_problem Post403 (postSegments403 []) (cr_Body r)
          else if cr_Status r = 404 then replay_problem Post404 (postSegments404 []) (cr_Body r)
          else if cr_Status r = 409 then
            replay_problem Post409 (postSegments409 (problemType ''object-reaping'') []) (cr_Body r)
          else if cr_Status r = 422 then
            replay_problem Post422 (postSegments422 (problemType ''segment-overlap'') ''Segment Overlap'' []) (cr_Body r)
          else Post201)"

section \<open>POST\<close>

record post_request =
  pq_FlowId :: string
  pq_Key :: string
  pq_Body :: "string option"

definition maxSegmentsBatch :: nat where
  "maxSegmentsBatch = 1000"

text \<open>The request body is kept as its text, and decoded from it.\<close>

definition body_params :: "string \<Rightarrow> RegisterParams res" where
  "body_params raw =
     (case json_parse raw of
        Some j \<Rightarrow> RegisterParamsFromAPI j
      | None \<Rightarrow> Err (New SchemaValidation [Lit ''request body: expected FlowSegmentPost or [FlowSegmentPost]'']))"

text \<open>An error of \<^verbatim>\<open>Complete\<close> is logged: the outcome is whether it succeeded.\<close>

definition succeeded :: "unit tx \<Rightarrow> bool tx" where
  "succeeded m = (\<lambda>d. case m d of (Ok _, d1) \<Rightarrow> (Ok True, d1) | (Err _, d1) \<Rightarrow> (Ok False, d1) | (Panic p, d1) \<Rightarrow> (Panic p, d1))"

definition completeNoBody :: "db_env \<Rightarrow> string \<Rightarrow> int \<Rightarrow> bool tx" where
  "completeNoBody env key status = succeeded (Complete env key status None)"

definition completeWithBody :: "db_env \<Rightarrow> string \<Rightarrow> int \<Rightarrow> PostSegmentsResponse \<Rightarrow> bool tx" where
  "completeWithBody env key status resp = succeeded (Complete env key status (Some (marshal_post resp)))"

definition register_problem :: "texts \<Rightarrow> go_error \<Rightarrow> (int \<times> PostSegmentsResponse) option" where
  "register_problem tx err =
     (if errors_Is err Seg_ErrFlowNotFound then Some (404, postSegments404 ''flow not found'')
      else if errors_Is err Seg_ErrFlowReadOnly then Some (403, postSegments403 ''flow is read-only'')
      else if errors_Is err ErrInvalidRequest then
        Some (400, postSegments400 (problemType ''schema-validation'') (error_text tx err))
      else if errors_Is err ErrSegmentOverlap then
        Some (422, postSegments422 (problemType ''segment-overlap'') ''Segment Overlap'' (error_text tx err))
      else if errors_Is err ErrSegmentObjectReaping then
        Some (409, postSegments409 (problemType ''object-reaping'') (error_text tx err))
      else None)"

text \<open>The error of a dependency is no answer to keep; \<^verbatim>\<open>errors.New\<close> of the default case.\<close>

definition unknown_outcome :: go_error where
  "unknown_outcome = Errorf [Lit ''segment service returned unknown outcome'']"

text \<open>What the handler does once it holds the key: the result it returns, and \<^verbatim>\<open>finalised\<close>.\<close>

definition post_claimed :: "server \<Rightarrow> string \<Rightarrow> RegisterParams \<Rightarrow> (PostSegmentsResponse res \<times> bool) tx" where
  "post_claimed sv key params = (\<lambda>d.
     case registerBatch (InsertSegments (sv_env sv)) (sv_storage sv) params d of
       (Panic p, d1) \<Rightarrow> (Panic p, d1)
     | (Err err, d1) \<Rightarrow>
         (case register_problem (sv_texts sv) err of
            Some (status, resp) \<Rightarrow>
              tbind (completeWithBody (sv_idem sv) key status resp) (\<lambda>finalised. tret (Ok resp, finalised)) d1
          | None \<Rightarrow> tbind (succeeded (Release (sv_idem sv) key)) (\<lambda>finalised. tret (Err err, finalised)) d1)
     | (Ok res, d1) \<Rightarrow>
         (case Outcome res of
            OutcomeAllAccepted \<Rightarrow>
              tbind (completeNoBody (sv_idem sv) key 201) (\<lambda>finalised. tret (Ok Post201, finalised)) d1
          | NoOutcome \<Rightarrow>
              tbind (completeNoBody (sv_idem sv) key 500) (\<lambda>finalised. tret (Err unknown_outcome, finalised)) d1
          | _ \<Rightarrow>
              let out = Post200 (Some (bulk_entries (sv_texts sv) (Failed res)))
              in tbind (completeWithBody (sv_idem sv) key 200 out) (\<lambda>finalised. tret (Ok out, finalised)) d1))"

text \<open>The deferred function runs at every return and on a panic.\<close>

definition deferring :: "db_env \<Rightarrow> string \<Rightarrow> ('r res \<times> bool) tx \<Rightarrow> 'r tx" where
  "deferring env key body = (\<lambda>d.
     case body d of
       (Ok (r, finalised), d1) \<Rightarrow> (r, if finalised then d1 else snd (Release env key d1))
     | (Err e, d1) \<Rightarrow> (Err e, snd (Release env key d1))
     | (Panic p, d1) \<Rightarrow> (Panic p, snd (Release env key d1)))"

definition post_acquire :: "server \<Rightarrow> string \<Rightarrow> string \<Rightarrow> RegisterParams \<Rightarrow> PostSegmentsResponse tx" where
  "post_acquire sv key raw params =
     tbind (Acquire (sv_idem sv) (sv_clock sv) key (sv_hash sv raw) (sv_ttl sv)) (\<lambda>acq.
       case ar_Status acq of
         StatusConflict \<Rightarrow> tret (postSegmentsCachedConflict ''idempotency key reused with a different request body'')
       | StatusInFlight \<Rightarrow> tret (postSegmentsCachedConflict ''idempotency key is already in-flight'')
       | StatusCached \<Rightarrow> tret (cachedPostResponse (ar_Cached acq))
       | StatusAcquired \<Rightarrow> deferring (sv_defer sv) key (post_claimed sv key params))"

definition PostFlowSegments :: "server \<Rightarrow> post_request \<Rightarrow> PostSegmentsResponse tx" where
  "PostFlowSegments sv req =
     (case uuid_Parse (sv_libs sv) (pq_FlowId req) of
        None \<Rightarrow> tret (postSegments404 ''flow not found'')
      | Some flowID \<Rightarrow>
          (case pq_Body req of
             None \<Rightarrow> tret (postSegments400 (problemType ''invalid-json'') ''request body required'')
           | Some raw \<Rightarrow>
               if pq_Key req = [] then
                 tret (postSegments400 (problemType ''missing-idempotency-key'') ''X-Idempotency-Key header required'')
               else
                 (case body_params raw of
                    Panic p \<Rightarrow> tlift (Panic p)
                  | Err err \<Rightarrow> tret (postSegments400 (problemType ''schema-validation'') (error_text (sv_texts sv) err))
                  | Ok params \<Rightarrow>
                      if length (rp_Segments params) > maxSegmentsBatch then
                        tret (postSegments400 (problemType ''batch-too-large'') ''batch exceeds maximum of 1000 segments'')
                      else post_acquire sv (pq_Key req) raw (params\<lparr>rp_FlowID := flowID\<rparr>))))"

section \<open>DELETE\<close>

definition DeleteFlowSegments :: "server \<Rightarrow> string \<Rightarrow> DeleteFlowSegmentsParams \<Rightarrow> DeleteSegmentsResponse tx" where
  "DeleteFlowSegments sv flowId qp = (\<lambda>d.
     case uuid_Parse (sv_libs sv) flowId of
       None \<Rightarrow> (Ok (deleteSegments404 ''flow not found''), d)
     | Some flowID \<Rightarrow>
         (case xp_Timerange qp of
            None \<Rightarrow> (Ok (deleteSegments400 (problemType ''invalid-timerange'') ''timerange query parameter is required''), d)
          | Some s \<Rightarrow>
              (case Parse s of
                 Panic p \<Rightarrow> (Panic p, d)
               | Err err \<Rightarrow>
                   (Ok (deleteSegments400 (problemType ''invalid-timerange'') (''timerange: '' @ error_text (sv_texts sv) err)), d)
               | Ok tr \<Rightarrow>
                   (case segment_delete (DeleteSegmentsByTimerange (sv_env sv))
                           \<lparr>dp_FlowID = flowID, dp_Timerange = tr, dp_ObjectID = xp_ObjectId qp\<rparr> d of
                      (Panic p, d1) \<Rightarrow> (Panic p, d1)
                    | (Err err, d1) \<Rightarrow>
                        (if errors_Is err Seg_ErrFlowNotFound then Ok (deleteSegments404 ''flow not found'')
                         else if errors_Is err Seg_ErrFlowReadOnly then Ok (deleteSegments403 ''flow is read-only'')
                         else case invalidTimerangeDetail (sv_texts sv) err of
                                Some detail \<Rightarrow> Ok (deleteSegments400 (problemType ''invalid-timerange'') detail)
                              | None \<Rightarrow> Err err, d1)
                    | (Ok _, d1) \<Rightarrow> (Ok Delete204, d1)))))"

end
