(* ===== verification/Flow_Store.thy ===== *)
theory Flow_Store
  imports Seg_Store Page_Cursor
begin

text \<open>
  The flow store of \<^verbatim>\<open>internal/metastore/flows.go\<close>, statement by statement: \<^verbatim>\<open>UpsertFlow\<close>,
  \<^verbatim>\<open>GetFlow\<close>, \<^verbatim>\<open>ListFlows\<close>, \<^verbatim>\<open>DeleteFlow\<close> and the sub-resources of a flow. A tag set is the list
  of its pairs; the order carries no meaning. A \<^verbatim>\<open>json.RawMessage\<close> is the value it holds, and
  \<open>None\<close> when it is empty. Operations outside a transaction are sequences of statements, each
  of which commits on its own.
\<close>

type_synonym tagset = "(string \<times> json) list"

record CollectionItem =
  ci_ID :: uuid
  ci_Role :: "string option"
  ci_ContainerMapping :: "json option"

record Flow =
  fl_ID :: uuid
  fl_SourceID :: uuid
  fl_Format :: string
  fl_Codec :: "string option"
  fl_Container :: "string option"
  fl_Label :: "string option"
  fl_Description :: "string option"
  fl_Tags :: tagset
  fl_EssenceParameters :: "json option"
  fl_ContainerMapping :: "json option"
  fl_FlowCollection :: "CollectionItem list"
  fl_AvgBitRate :: "int option"
  fl_MaxBitRate :: "int option"
  fl_SegmentDuration :: "string option"
  fl_Generation :: "int option"
  fl_MetadataVersion :: "int option"
  fl_ReadOnly :: bool
  fl_Created :: time
  fl_MetadataUpdated :: time
  fl_SegmentsUpdated :: "time option"
  fl_Timerange :: "string option"

record ListFlowsParams =
  lf_SourceID :: "uuid option"
  lf_Format :: "string option"
  lf_Label :: "string option"
  lf_Codec :: "string option"
  lf_FrameWidth :: "int option"
  lf_FrameHeight :: "int option"
  lf_Timerange :: "TimeRange option"
  lf_TagExists :: "string list"
  lf_TagValues :: "(string \<times> string) list"
  lf_Limit :: int
  lf_PageFrom :: "string option"

record FlowPage =
  fp_Items :: "Flow list"
  fp_NextCursor :: "string option"

definition meta_err :: "string \<Rightarrow> go_error \<Rightarrow> go_error" where
  "meta_err what e = Errorf [Lit (''metastore: '' @ what @ '': ''), W e]"

definition flow_not_found :: go_error where
  "flow_not_found = New NotFound [Lit ''flow not found'']"

definition flow_is_read_only :: go_error where
  "flow_is_read_only = New ReadOnlyCode [Lit ''flow is read-only'']"

section \<open>UpsertFlow\<close>

fun codecEqual :: "string option \<Rightarrow> string option \<Rightarrow> bool" where
  "codecEqual None None = True"
| "codecEqual None (Some b) = False"
| "codecEqual (Some a) None = False"
| "codecEqual (Some a) (Some b) = (a = b)"

definition insert_source :: "db_env \<Rightarrow> uuid \<Rightarrow> string \<Rightarrow> unit tx" where
  "insert_source env sid format = (\<lambda>d.
     if rows_find s_id sid (sources d) \<noteq> None then (Err (PgError ''23505''), d)
     else (Ok (), d\<lparr>sources := rows_insert
       \<lparr>s_id = sid, s_format = format, s_label = None, s_description = None,
        s_created = now env, s_updated = now env\<rparr> (sources d)\<rparr>))"

text \<open>The columns an \<^verbatim>\<open>UPDATE\<close> of \<^verbatim>\<open>UpsertFlow\<close> sets, and the row its \<^verbatim>\<open>INSERT\<close> makes.\<close>

definition set_flow :: "db_env \<Rightarrow> Flow \<Rightarrow> flow_row \<Rightarrow> flow_row" where
  "set_flow env f r = r\<lparr>
     f_codec := fl_Codec f, f_container := fl_Container f, f_label := fl_Label f,
     f_description := fl_Description f, f_essence_parameters := fl_EssenceParameters f,
     f_container_mapping := fl_ContainerMapping f, f_avg_bit_rate := fl_AvgBitRate f,
     f_max_bit_rate := fl_MaxBitRate f, f_segment_duration := fl_SegmentDuration f,
     f_generation := fl_Generation f, f_metadata_version := fl_MetadataVersion f,
     f_read_only := fl_ReadOnly f, f_timerange := fl_Timerange f,
     f_metadata_updated := now env\<rparr>"

definition new_flow_row :: "db_env \<Rightarrow> Flow \<Rightarrow> flow_row" where
  "new_flow_row env f = \<lparr>f_id = fl_ID f, f_source_id = fl_SourceID f, f_format = fl_Format f,
     f_codec = fl_Codec f, f_container = fl_Container f, f_label = fl_Label f,
     f_description = fl_Description f, f_essence_parameters = fl_EssenceParameters f,
     f_container_mapping = fl_ContainerMapping f, f_avg_bit_rate = fl_AvgBitRate f,
     f_max_bit_rate = fl_MaxBitRate f, f_segment_duration = fl_SegmentDuration f,
     f_generation = fl_Generation f, f_metadata_version = fl_MetadataVersion f,
     f_read_only = fl_ReadOnly f, f_created = now env, f_metadata_updated = now env,
     f_segments_updated = None, f_timerange = fl_Timerange f\<rparr>"

definition insert_flow :: "db_env \<Rightarrow> Flow \<Rightarrow> unit tx" where
  "insert_flow env f = (\<lambda>d.
     if rows_find f_id (fl_ID f) (flows d) \<noteq> None then (Err (PgError ''23505''), d)
     else if rows_find s_id (fl_SourceID f) (sources d) = None then (Err (PgError ''23503''), d)
     else (Ok (), d\<lparr>flows := rows_insert (new_flow_row env f) (flows d)\<rparr>))"

definition upsert_new :: "db_env \<Rightarrow> Flow \<Rightarrow> (bool \<times> bool) tx" where
  "upsert_new env f =
     tbind
       (twrap (meta_err ''UpsertFlow: check source'')
         (tcall env ''check source'' 0
           (tread (\<lambda>d. Ok (map_option s_format (rows_find s_id (fl_SourceID f) (sources d)))))))
       (\<lambda>srcFormat. tbind
         (case srcFormat of
            None \<Rightarrow> twrap (meta_err ''UpsertFlow: insert implicit source'')
              (tcall env ''insert implicit source'' 0 (insert_source env (fl_SourceID f) (fl_Format f)))
          | Some sf \<Rightarrow>
              if sf \<noteq> fl_Format f then
                tfail (New FormatMismatch [Lit ''source format is '', Q sf, Lit '', flow format '',
                  Q (fl_Format f), Lit '' does not match''])
              else tret ())
         (\<lambda>_. tbind
           (twrap (meta_err ''UpsertFlow: insert flow'') (tcall env ''insert flow'' 0 (insert_flow env f)))
           (\<lambda>_. tret (True, True))))"

definition upsert_existing :: "db_env \<Rightarrow> Flow \<Rightarrow> flow_row \<Rightarrow> (bool \<times> bool) tx" where
  "upsert_existing env f existing =
     (if f_source_id existing \<noteq> fl_SourceID f then
        tfail (New ImmutableField [Lit ''source_id cannot be changed''])
      else if f_format existing \<noteq> fl_Format f then
        tfail (New ImmutableField [Lit ''format cannot be changed''])
      else tbind
        (if codecEqual (f_codec existing) (fl_Codec f) then tret 0
         else twrap (meta_err ''UpsertFlow: count segments'')
           (tcall env ''count segments'' 0 (tread (\<lambda>d. Ok (length (flow_rows (fl_ID f) d))))))
        (\<lambda>segCount.
           if segCount > 0 then
             tfail (New ImmutableField [Lit ''codec cannot be changed when segments exist''])
           else tbind
             (twrap (meta_err ''UpsertFlow: update flow'')
               (tcall env ''update flow'' 0 (update_flow (fl_ID f) (set_flow env f))))
             (\<lambda>_. tret (False, True))))"

definition begin_err :: "go_error \<Rightarrow> go_error" where
  "begin_err = meta_err ''begin tx''"

definition UpsertFlow :: "db_env \<Rightarrow> Flow \<Rightarrow> bool tx" where
  "UpsertFlow env f =
     in_tx env begin_err (meta_err ''UpsertFlow: commit'')
       (tbind
         (twrap (meta_err ''UpsertFlow: check flow'')
           (tcall env ''check flow'' 0 (tread (\<lambda>d. Ok (rows_find f_id (fl_ID f) (flows d))))))
         (\<lambda>existing. case existing of
            None \<Rightarrow> upsert_new env f
          | Some r \<Rightarrow> upsert_existing env f r))"

section \<open>GetFlow\<close>

definition tags_of :: "uuid \<Rightarrow> tag_row list \<Rightarrow> tagset" where
  "tags_of owner tags = map (\<lambda>t. (t_name t, t_value t)) (filter (\<lambda>t. t_owner t = owner) tags)"

definition scanFlowBase :: "db \<Rightarrow> flow_row \<Rightarrow> Flow" where
  "scanFlowBase d r = \<lparr>fl_ID = f_id r, fl_SourceID = f_source_id r, fl_Format = f_format r,
     fl_Codec = f_codec r, fl_Container = f_container r, fl_Label = f_label r,
     fl_Description = f_description r, fl_Tags = tags_of (f_id r) (flow_tags d),
     fl_EssenceParameters = f_essence_parameters r, fl_ContainerMapping = f_container_mapping r,
     fl_FlowCollection = [], fl_AvgBitRate = f_avg_bit_rate r, fl_MaxBitRate = f_max_bit_rate r,
     fl_SegmentDuration = f_segment_duration r, fl_Generation = f_generation r,
     fl_MetadataVersion = f_metadata_version r, fl_ReadOnly = f_read_only r,
     fl_Created = f_created r, fl_MetadataUpdated = f_metadata_updated r,
     fl_SegmentsUpdated = f_segments_updated r, fl_Timerange = f_timerange r\<rparr>"

definition collection_of :: "uuid \<Rightarrow> db \<Rightarrow> CollectionItem list" where
  "collection_of fid d =
     map (\<lambda>c. \<lparr>ci_ID = c_item_id c, ci_Role = c_role c, ci_ContainerMapping = c_container_mapping c\<rparr>)
       (sort_key (\<lambda>c. (c_sort_order c, c_item_id c))
         (filter (\<lambda>c. c_flow_id c = fid) (flow_collection d)))"

definition GetFlow :: "db_env \<Rightarrow> uuid \<Rightarrow> Flow tx" where
  "GetFlow env fid =
     tbind
       (twrap (meta_err ''GetFlow'')
         (tcall env ''get flow'' 0
           (tread (\<lambda>d. Ok (map_option (scanFlowBase d) (rows_find f_id fid (flows d)))))))
       (\<lambda>row. case row of
          None \<Rightarrow> tfail flow_not_found
        | Some fl \<Rightarrow> tbind
            (twrap (meta_err ''GetFlow: collection'')
              (tcall env ''get collection'' 0 (tread (\<lambda>d. Ok (collection_of fid d)))))
            (\<lambda>items. tbind
              (tfor (\<lambda>i _. twrap (meta_err ''GetFlow: scan collection'')
                (tcall env ''scan collection'' i (tret ()))) 0 items)
              (\<lambda>_. tbind
                (twrap (meta_err ''GetFlow: collection rows'') (tcall env ''collection rows'' 0 (tret ())))
                (\<lambda>_. tret (fl\<lparr>fl_FlowCollection := items\<rparr>)))))"

definition GetFlowTimerange :: "db_env \<Rightarrow> uuid \<Rightarrow> string option tx" where
  "GetFlowTimerange env fid = twrap (meta_err ''GetFlowTimerange'') (flowSpan env fid)"

section \<open>ListFlows\<close>

text \<open>A column equals a parameter that is set; NULL equals nothing.\<close>

definition wants :: "'a option \<Rightarrow> 'a option \<Rightarrow> bool" where
  "wants p x = (case p of None \<Rightarrow> True | Some v \<Rightarrow> x = Some v)"

text \<open>\<^verbatim>\<open>(essence_parameters->>'k')::int\<close>; a boolean, an array or an object is no integer (22P02).\<close>

definition essence_int :: "libs \<Rightarrow> string \<Rightarrow> flow_row \<Rightarrow> int option res" where
  "essence_int l k r =
     (case f_essence_parameters r of
        Some (JObj ms) \<Rightarrow>
          (case map_of (rev ms) k of
             None \<Rightarrow> Ok None
           | Some JNull \<Rightarrow> Ok None
           | Some (JStr s) \<Rightarrow> rbind (int4in l s) (\<lambda>n. Ok (Some n))
           | Some (JNum s) \<Rightarrow> rbind (int4in l s) (\<lambda>n. Ok (Some n))
           | Some _ \<Rightarrow> Err (PgError ''22P02''))
      | _ \<Rightarrow> Ok None)"

definition wants_int :: "libs \<Rightarrow> string \<Rightarrow> int option \<Rightarrow> flow_row \<Rightarrow> bool res" where
  "wants_int l k p r =
     (case p of None \<Rightarrow> Ok True | Some v \<Rightarrow> rbind (essence_int l k r) (\<lambda>n. Ok (n = Some v)))"

definition has_tag :: "uuid \<Rightarrow> string \<Rightarrow> tag_row list \<Rightarrow> bool" where
  "has_tag owner name tags \<longleftrightarrow> list_ex (\<lambda>t. t_owner t = owner \<and> t_name t = name) tags"

text \<open>The value of a tag filter is sent as the text of a JSON value.\<close>

definition has_tag_value :: "uuid \<Rightarrow> string \<times> string \<Rightarrow> tag_row list \<Rightarrow> bool" where
  "has_tag_value owner nv tags \<longleftrightarrow>
     list_ex (\<lambda>t. t_owner t = owner \<and> t_name t = fst nv \<and> json_parse (snd nv) = Some (t_value t)) tags"

fun rall :: "bool res list \<Rightarrow> bool res" where
  "rall [] = Ok True"
| "rall (b # bs) = rbind b (\<lambda>x. if x then rall bs else Ok False)"

fun rfilter :: "('a \<Rightarrow> bool res) \<Rightarrow> 'a list \<Rightarrow> 'a list res" where
  "rfilter p [] = Ok []"
| "rfilter p (x # xs) = rbind (p x) (\<lambda>b. rbind (rfilter p xs) (\<lambda>ys. Ok (if b then x # ys else ys)))"

definition flow_key :: "flow_row \<Rightarrow> time \<times> uuid" where
  "flow_key r = (f_created r, f_id r)"

definition flow_conds ::
    "libs \<Rightarrow> db \<Rightarrow> ListFlowsParams \<Rightarrow> (int option \<times> int option \<times> bool) option \<Rightarrow> flow_row \<Rightarrow> bool res list" where
  "flow_conds l d p bounds r =
     [Ok (wants (lf_SourceID p) (Some (f_source_id r))),
      Ok (wants (lf_Format p) (Some (f_format r))),
      Ok (wants (lf_Label p) (f_label r)),
      Ok (wants (lf_Codec p) (f_codec r)),
      wants_int l ''frame_width'' (lf_FrameWidth p) r,
      wants_int l ''frame_height'' (lf_FrameHeight p) r,
      Ok (case bounds of
            None \<Rightarrow> True
          | Some (lo, hi, True) \<Rightarrow> flow_rows (f_id r) d = []
          | Some (lo, hi, False) \<Rightarrow> list_ex (overlapCond lo hi) (flow_rows (f_id r) d)),
      Ok (list_all (\<lambda>n. has_tag (f_id r) n (flow_tags d)) (lf_TagExists p)),
      Ok (list_all (\<lambda>nv. has_tag_value (f_id r) nv (flow_tags d)) (lf_TagValues p))]"

definition after_cursor :: "'k::linorder option \<Rightarrow> 'k \<Rightarrow> bool" where
  "after_cursor cursor k = (case cursor of None \<Rightarrow> True | Some c \<Rightarrow> c < k)"

definition bad_tag_value :: "(string \<times> string) list \<Rightarrow> bool" where
  "bad_tag_value tvs \<longleftrightarrow> list_ex (\<lambda>nv. json_parse (snd nv) = None) tvs"

text \<open>
  The query: the driver refuses a frame size outside its column's type, the server a tag value
  that is no JSON (22P02) and a negative limit (2201W).
\<close>

definition flow_query ::
    "libs \<Rightarrow> ListFlowsParams \<Rightarrow> (int option \<times> int option \<times> bool) option \<Rightarrow> (time \<times> uuid) option \<Rightarrow>
     int \<Rightarrow> db \<Rightarrow> Flow list res" where
  "flow_query l p bounds cursor n d =
     (if \<not> pred_option int4_ok (lf_FrameWidth p) \<or> \<not> pred_option int4_ok (lf_FrameHeight p) then Err encode_error
      else if bad_tag_value (lf_TagValues p) then Err (PgError ''22P02'')
      else if n < 0 then Err (PgError ''2201W'')
      else rbind
        (rfilter (\<lambda>r. rall (flow_conds l d p bounds r @ [Ok (after_cursor cursor (flow_key r))])) (flows d))
        (\<lambda>rs. Ok (map (scanFlowBase d) (take (nat n) (sort_key flow_key rs)))))"

definition query_limit :: "int \<Rightarrow> int" where
  "query_limit limit = (if limit \<le> 0 then 100 else limit)"

definition flow_bounds :: "ListFlowsParams \<Rightarrow> (int option \<times> int option \<times> bool) option res" where
  "flow_bounds p =
     (case lf_Timerange p of
        None \<Rightarrow> Ok None
      | Some tr \<Rightarrow>
          if IsEternity tr then Ok None
          else rbind (rwrap (meta_err ''ListFlows: timerange'') (queryBounds tr)) (\<lambda>b. Ok (Some b)))"

definition page_cursor :: "libs \<Rightarrow> string option \<Rightarrow> (time \<times> uuid) option res" where
  "page_cursor l pageFrom =
     (case pageFrom of
        None \<Rightarrow> Ok None
      | Some s \<Rightarrow>
          rbind (rwrap (\<lambda>_. New InvalidJSON [Lit ''invalid page_from cursor'']) (decodeCursor l s))
            (\<lambda>c. Ok (Some c)))"

definition ListFlows :: "libs \<Rightarrow> db_env \<Rightarrow> ListFlowsParams \<Rightarrow> FlowPage tx" where
  "ListFlows l env p =
     (let limit = query_limit (lf_Limit p)
      in tbind (tlift (flow_bounds p)) (\<lambda>bounds.
         tbind (tlift (page_cursor l (lf_PageFrom p))) (\<lambda>cursor.
         tbind (twrap (meta_err ''ListFlows'')
           (tcall env ''list flows'' 0 (tread (flow_query l p bounds cursor (i64 (limit + 1))))))
         (\<lambda>items.
           let (page, nextCursor) = key_page (\<lambda>fl. encodeCursor l (fl_Created fl) (fl_ID fl)) limit items
           in tret \<lparr>fp_Items = page, fp_NextCursor = nextCursor\<rparr>))))"

section \<open>DeleteFlow\<close>

text \<open>\<^verbatim>\<open>UPDATE objects ... FROM refs\<close>: once for each distinct object of the flow's segments.\<close>

definition decrement_refs :: "uuid \<Rightarrow> unit tx" where
  "decrement_refs fid = (\<lambda>d.
     let refs = map g_object_id (flow_rows fid d);
         hit = (\<lambda>ob. o_id ob \<in> set refs)
     in if list_ex (\<lambda>ob. hit ob \<and> \<not> int4_ok (o_ref_count ob - 1)) (objects d) then (Err (PgError ''22003''), d)
        else (Ok (), d\<lparr>objects :=
          map (\<lambda>ob. if hit ob then ob\<lparr>o_ref_count := o_ref_count ob - 1\<rparr> else ob) (objects d)\<rparr>))"

text \<open>\<^verbatim>\<open>DELETE FROM flows\<close> cascades to the segments, the tags and the collection of the flow.\<close>

definition delete_flow_row :: "uuid \<Rightarrow> int tx" where
  "delete_flow_row fid = (\<lambda>d.
     (Ok (if rows_find f_id fid (flows d) = None then 0 else 1),
      d\<lparr>flows := rows_delete f_id fid (flows d),
        segments := filter (\<lambda>g. g_flow_id g \<noteq> fid) (segments d),
        flow_tags := filter (\<lambda>t. t_owner t \<noteq> fid) (flow_tags d),
        flow_collection := filter (\<lambda>c. c_flow_id c \<noteq> fid) (flow_collection d)\<rparr>))"

definition DeleteFlow :: "db_env \<Rightarrow> uuid \<Rightarrow> unit tx" where
  "DeleteFlow env fid =
     in_tx env begin_err (meta_err ''DeleteFlow: commit'')
       (tbind (twrap (meta_err ''DeleteFlow: decrement refs'') (tcall env ''decrement refs'' 0 (decrement_refs fid)))
       (\<lambda>_. tbind (twrap (meta_err ''DeleteFlow: delete'') (tcall env ''delete flow'' 0 (delete_flow_row fid)))
       (\<lambda>affected.
          if affected = 0 then tfail flow_not_found else tret ((), True))))"

section \<open>Sub-resources\<close>

definition flowWritable :: "db_env \<Rightarrow> uuid \<Rightarrow> unit tx" where
  "flowWritable env fid =
     tbind (twrap (meta_err ''flowWritable'')
       (tcall env ''flow writable'' 0
         (tread (\<lambda>d. Ok (map_option f_read_only (rows_find f_id fid (flows d)))))))
     (\<lambda>row. case row of
        None \<Rightarrow> tfail flow_not_found
      | Some readOnly \<Rightarrow> if readOnly then tfail flow_is_read_only else tret ())"

text \<open>\<^verbatim>\<open>INSERT ... ON CONFLICT DO UPDATE SET value\<close> on a tag table.\<close>

definition set_tag :: "uuid \<Rightarrow> string \<Rightarrow> json \<Rightarrow> tag_row list \<Rightarrow> tag_row list" where
  "set_tag owner name v tags =
     (if has_tag owner name tags
      then map (\<lambda>t. if t_owner t = owner \<and> t_name t = name then t\<lparr>t_value := v\<rparr> else t) tags
      else rows_insert \<lparr>t_owner = owner, t_name = name, t_value = v\<rparr> tags)"

definition drop_tag :: "uuid \<Rightarrow> string \<Rightarrow> tag_row list \<Rightarrow> tag_row list" where
  "drop_tag owner name tags = filter (\<lambda>t. \<not> (t_owner t = owner \<and> t_name t = name)) tags"

definition upsert_flow_tag :: "uuid \<Rightarrow> string \<Rightarrow> json \<Rightarrow> unit tx" where
  "upsert_flow_tag fid name v = (\<lambda>d.
     if rows_find f_id fid (flows d) = None then (Err (PgError ''23503''), d)
     else (Ok (), d\<lparr>flow_tags := set_tag fid name v (flow_tags d)\<rparr>))"

definition PutFlowTag :: "db_env \<Rightarrow> uuid \<Rightarrow> string \<Rightarrow> json \<Rightarrow> unit tx" where
  "PutFlowTag env fid name v =
     tbind (flowWritable env fid) (\<lambda>_.
       twrap (meta_err ''PutFlowTag'') (tcall env ''put flow tag'' 0 (upsert_flow_tag fid name v)))"

definition DeleteFlowTag :: "db_env \<Rightarrow> uuid \<Rightarrow> string \<Rightarrow> unit tx" where
  "DeleteFlowTag env fid name =
     tbind (flowWritable env fid) (\<lambda>_.
       twrap (meta_err ''DeleteFlowTag'') (tcall env ''delete flow tag'' 0
         (\<lambda>d. (Ok (), d\<lparr>flow_tags := drop_tag fid name (flow_tags d)\<rparr>))))"

text \<open>An \<^verbatim>\<open>UPDATE\<close> of one flow, with the number of rows it affected.\<close>

definition exec_flow_update :: "uuid \<Rightarrow> (flow_row \<Rightarrow> flow_row) \<Rightarrow> int tx" where
  "exec_flow_update fid f = (\<lambda>d.
     (Ok (if rows_find f_id fid (flows d) = None then 0 else 1),
      d\<lparr>flows := rows_update f_id fid f (flows d)\<rparr>))"

definition updateFlowField ::
    "db_env \<Rightarrow> uuid \<Rightarrow> string \<Rightarrow> (flow_row \<Rightarrow> flow_row) \<Rightarrow> unit tx" where
  "updateFlowField env fid col f =
     tbind (flowWritable env fid) (\<lambda>_.
     tbind (twrap (meta_err (''update flow '' @ col))
       (tcall env ''update flow field'' 0
         (exec_flow_update fid (\<lambda>r. (f r)\<lparr>f_metadata_updated := now env\<rparr>))))
     (\<lambda>affected. if affected = 0 then tfail flow_not_found else tret ()))"

definition PutFlowLabel :: "db_env \<Rightarrow> uuid \<Rightarrow> string \<Rightarrow> unit tx" where
  "PutFlowLabel env fid label = updateFlowField env fid ''label'' (\<lambda>r. r\<lparr>f_label := Some label\<rparr>)"

definition DeleteFlowLabel :: "db_env \<Rightarrow> uuid \<Rightarrow> unit tx" where
  "DeleteFlowLabel env fid = updateFlowField env fid ''label'' (\<lambda>r. r\<lparr>f_label := None\<rparr>)"

definition PutFlowDescription :: "db_env \<Rightarrow> uuid \<Rightarrow> string \<Rightarrow> unit tx" where
  "PutFlowDescription env fid desc = updateFlowField env fid ''description'' (\<lambda>r. r\<lparr>f_description := Some desc\<rparr>)"

definition DeleteFlowDescription :: "db_env \<Rightarrow> uuid \<Rightarrow> unit tx" where
  "DeleteFlowDescription env fid = updateFlowField env fid ''description'' (\<lambda>r. r\<lparr>f_description := None\<rparr>)"

definition PutFlowAvgBitRate :: "db_env \<Rightarrow> uuid \<Rightarrow> int \<Rightarrow> unit tx" where
  "PutFlowAvgBitRate env fid rate = updateFlowField env fid ''avg_bit_rate'' (\<lambda>r. r\<lparr>f_avg_bit_rate := Some rate\<rparr>)"

definition DeleteFlowAvgBitRate :: "db_env \<Rightarrow> uuid \<Rightarrow> unit tx" where
  "DeleteFlowAvgBitRate env fid = updateFlowField env fid ''avg_bit_rate'' (\<lambda>r. r\<lparr>f_avg_bit_rate := None\<rparr>)"

definition PutFlowMaxBitRate :: "db_env \<Rightarrow> uuid \<Rightarrow> int \<Rightarrow> unit tx" where
  "PutFlowMaxBitRate env fid rate = updateFlowField env fid ''max_bit_rate'' (\<lambda>r. r\<lparr>f_max_bit_rate := Some rate\<rparr>)"

definition DeleteFlowMaxBitRate :: "db_env \<Rightarrow> uuid \<Rightarrow> unit tx" where
  "DeleteFlowMaxBitRate env fid = updateFlowField env fid ''max_bit_rate'' (\<lambda>r. r\<lparr>f_max_bit_rate := None\<rparr>)"

definition PutFlowReadOnly :: "db_env \<Rightarrow> uuid \<Rightarrow> bool \<Rightarrow> unit tx" where
  "PutFlowReadOnly env fid readOnly =
     tbind (twrap (meta_err ''PutFlowReadOnly'')
       (tcall env ''put read only'' 0
         (exec_flow_update fid (\<lambda>r. r\<lparr>f_read_only := readOnly, f_metadata_updated := now env\<rparr>))))
     (\<lambda>affected. if affected = 0 then tfail flow_not_found else tret ())"

definition clear_collection :: "uuid \<Rightarrow> unit tx" where
  "clear_collection fid = (\<lambda>d.
     (Ok (), d\<lparr>flow_collection := filter (\<lambda>c. c_flow_id c \<noteq> fid) (flow_collection d)\<rparr>))"

definition insert_item :: "uuid \<Rightarrow> nat \<Rightarrow> CollectionItem \<Rightarrow> unit tx" where
  "insert_item fid i ci = (\<lambda>d.
     if list_ex (\<lambda>c. c_flow_id c = fid \<and> c_item_id c = ci_ID ci) (flow_collection d) then (Err (PgError ''23505''), d)
     else if rows_find f_id fid (flows d) = None then (Err (PgError ''23503''), d)
     else if \<not> int4_ok (int i) then (Err encode_error, d)
     else (Ok (), d\<lparr>flow_collection := rows_insert
       \<lparr>c_flow_id = fid, c_item_id = ci_ID ci, c_role = ci_Role ci,
        c_container_mapping = ci_ContainerMapping ci, c_sort_order = i\<rparr> (flow_collection d)\<rparr>))"

definition PutFlowCollection :: "db_env \<Rightarrow> uuid \<Rightarrow> CollectionItem list \<Rightarrow> unit tx" where
  "PutFlowCollection env fid items =
     in_tx env begin_err (meta_err ''PutFlowCollection: commit'')
       (tbind (twrap (meta_err ''PutFlowCollection: check'')
         (tcall env ''collection check'' 0
           (tread (\<lambda>d. Ok (map_option f_read_only (rows_find f_id fid (flows d)))))))
       (\<lambda>row. case row of
          None \<Rightarrow> tfail flow_not_found
        | Some readOnly \<Rightarrow>
            if readOnly then tfail flow_is_read_only
            else tbind (twrap (meta_err ''PutFlowCollection: delete'')
                (tcall env ''collection delete'' 0 (clear_collection fid)))
              (\<lambda>_. tbind (tfor (\<lambda>i ci. twrap (meta_err ''PutFlowCollection: insert'')
                  (tcall env ''collection insert'' i (insert_item fid i ci))) 0 items)
              (\<lambda>_. tret ((), True)))))"

definition DeleteFlowCollection :: "db_env \<Rightarrow> uuid \<Rightarrow> unit tx" where
  "DeleteFlowCollection env fid =
     tbind (flowWritable env fid) (\<lambda>_.
       twrap (meta_err ''DeleteFlowCollection'') (tcall env ''delete collection'' 0 (clear_collection fid)))"

end
