(* ===== verification/Source_Store.thy ===== *)
theory Source_Store
  imports Flow_Store
begin

text \<open>The source store of \<^verbatim>\<open>internal/metastore/sources.go\<close>, statement by statement.\<close>

record Source =
  sr_ID :: uuid
  sr_Format :: string
  sr_Label :: "string option"
  sr_Description :: "string option"
  sr_Tags :: tagset
  sr_Created :: time
  sr_Updated :: time

record ListSourcesParams =
  ls_Limit :: int
  ls_PageFrom :: "string option"
  ls_Label :: "string option"
  ls_Format :: "string option"
  ls_TagExists :: "string list"
  ls_TagValues :: "(string \<times> string) list"

record SourcePage =
  sp_Items :: "Source list"
  sp_NextCursor :: "string option"

definition source_not_found :: go_error where
  "source_not_found = New NotFound [Lit ''source not found'']"

definition scanSource :: "db \<Rightarrow> source_row \<Rightarrow> Source" where
  "scanSource d r = \<lparr>sr_ID = s_id r, sr_Format = s_format r, sr_Label = s_label r,
     sr_Description = s_description r, sr_Tags = tags_of (s_id r) (source_tags d),
     sr_Created = s_created r, sr_Updated = s_updated r\<rparr>"

definition GetSource :: "db_env \<Rightarrow> uuid \<Rightarrow> Source tx" where
  "GetSource env sid =
     tbind
       (twrap (meta_err ''GetSource'')
         (tcall env ''get source'' 0
           (tread (\<lambda>d. Ok (map_option (scanSource d) (rows_find s_id sid (sources d)))))))
       (\<lambda>row. case row of None \<Rightarrow> tfail source_not_found | Some src \<Rightarrow> tret src)"

section \<open>ListSources\<close>

definition source_key :: "source_row \<Rightarrow> time \<times> uuid" where
  "source_key r = (s_created r, s_id r)"

definition source_where :: "db \<Rightarrow> ListSourcesParams \<Rightarrow> source_row \<Rightarrow> bool" where
  "source_where d p r \<longleftrightarrow>
     wants (ls_Label p) (s_label r) \<and>
     wants (ls_Format p) (Some (s_format r)) \<and>
     list_all (\<lambda>n. has_tag (s_id r) n (source_tags d)) (ls_TagExists p) \<and>
     list_all (\<lambda>nv. has_tag_value (s_id r) nv (source_tags d)) (ls_TagValues p)"

definition source_query ::
    "ListSourcesParams \<Rightarrow> (time \<times> uuid) option \<Rightarrow> int \<Rightarrow> db \<Rightarrow> Source list res" where
  "source_query p cursor n d =
     (if bad_tag_value (ls_TagValues p) then Err (PgError ''22P02'')
      else if n < 0 then Err (PgError ''2201W'')
      else Ok (map (scanSource d) (take (nat n) (sort_key source_key
        (filter (\<lambda>r. source_where d p r \<and> after_cursor cursor (source_key r)) (sources d))))))"

definition ListSources :: "libs \<Rightarrow> db_env \<Rightarrow> ListSourcesParams \<Rightarrow> SourcePage tx" where
  "ListSources l env p =
     (let limit = query_limit (ls_Limit p)
      in tbind (tlift (page_cursor l (ls_PageFrom p))) (\<lambda>cursor.
         tbind (twrap (meta_err ''ListSources'')
           (tcall env ''list sources'' 0 (tread (source_query p cursor (i64 (limit + 1))))))
         (\<lambda>items.
           let (page, nextCursor) = key_page (\<lambda>s. encodeCursor l (sr_Created s) (sr_ID s)) limit items
           in tret \<lparr>sp_Items = page, sp_NextCursor = nextCursor\<rparr>)))"

section \<open>Sub-resources\<close>

definition sourceExists :: "db_env \<Rightarrow> uuid \<Rightarrow> unit tx" where
  "sourceExists env sid =
     tbind (twrap (meta_err ''sourceExists'')
       (tcall env ''source exists'' 0 (tread (\<lambda>d. Ok (rows_find s_id sid (sources d) \<noteq> None)))))
     (\<lambda>found. if \<not> found then tfail source_not_found else tret ())"

definition upsert_source_tag :: "uuid \<Rightarrow> string \<Rightarrow> json \<Rightarrow> unit tx" where
  "upsert_source_tag sid name v = (\<lambda>d.
     if rows_find s_id sid (sources d) = None then (Err (PgError ''23503''), d)
     else (Ok (), d\<lparr>source_tags := set_tag sid name v (source_tags d)\<rparr>))"

definition PutSourceTag :: "db_env \<Rightarrow> uuid \<Rightarrow> string \<Rightarrow> json \<Rightarrow> unit tx" where
  "PutSourceTag env sid name v =
     tbind (sourceExists env sid) (\<lambda>_.
       twrap (meta_err ''PutSourceTag'') (tcall env ''put source tag'' 0 (upsert_source_tag sid name v)))"

definition DeleteSourceTag :: "db_env \<Rightarrow> uuid \<Rightarrow> string \<Rightarrow> unit tx" where
  "DeleteSourceTag env sid name =
     tbind (sourceExists env sid) (\<lambda>_.
       twrap (meta_err ''DeleteSourceTag'') (tcall env ''delete source tag'' 0
         (\<lambda>d. (Ok (), d\<lparr>source_tags := drop_tag sid name (source_tags d)\<rparr>))))"

definition updateSourceField ::
    "db_env \<Rightarrow> uuid \<Rightarrow> string \<Rightarrow> (source_row \<Rightarrow> source_row) \<Rightarrow> unit tx" where
  "updateSourceField env sid col f =
     tbind (twrap (meta_err (''update source '' @ col))
       (tcall env ''update source field'' 0 (\<lambda>d.
         (Ok (if rows_find s_id sid (sources d) = None then 0 else (1::int)),
          d\<lparr>sources := rows_update s_id sid (\<lambda>r. (f r)\<lparr>s_updated := now env\<rparr>) (sources d)\<rparr>))))
     (\<lambda>affected. if affected = 0 then tfail source_not_found else tret ())"

definition PutSourceLabel :: "db_env \<Rightarrow> uuid \<Rightarrow> string \<Rightarrow> unit tx" where
  "PutSourceLabel env sid label = updateSourceField env sid ''label'' (\<lambda>r. r\<lparr>s_label := Some label\<rparr>)"

definition DeleteSourceLabel :: "db_env \<Rightarrow> uuid \<Rightarrow> unit tx" where
  "DeleteSourceLabel env sid = updateSourceField env sid ''label'' (\<lambda>r. r\<lparr>s_label := None\<rparr>)"

definition PutSourceDescription :: "db_env \<Rightarrow> uuid \<Rightarrow> string \<Rightarrow> unit tx" where
  "PutSourceDescription env sid desc = updateSourceField env sid ''description'' (\<lambda>r. r\<lparr>s_description := Some desc\<rparr>)"

definition DeleteSourceDescription :: "db_env \<Rightarrow> uuid \<Rightarrow> unit tx" where
  "DeleteSourceDescription env sid = updateSourceField env sid ''description'' (\<lambda>r. r\<lparr>s_description := None\<rparr>)"

end
