(* ===== verification/Meta_Invariant.thy ===== *)
theory Meta_Invariant
  imports Source_Store Seg_Invariant
begin

text \<open>
  What the writes of the flow and source stores do to the tables. \<open>store_ok\<close> is the invariant of
  all tables: the invariant of the segment store, reference counts that cover the references,
  unique keys, no dangling reference, and every flow in the format of its source. Statements
  that keep it on their own go through the rules of \<open>tx_durable\<close>; \<^verbatim>\<open>UpsertFlow\<close> and
  \<^verbatim>\<open>DeleteFlow\<close>, which pass through states that break it, are taken apart into their effect.
\<close>

interpretation sources_t: keyed_table s_id "rows_unique s_id" "rows_find s_id" rows_insert
    "rows_update s_id" "rows_delete s_id"
  by (rule rows_keyed_table)

section \<open>Relations across a transaction\<close>

locale tx_durable = tx_relation +
  assumes rolled_back: "R a b \<Longrightarrow> R a (rollback a b)"
begin

lemma in_tx:
  assumes "tx_rel R body"
  shows "tx_rel R (in_tx env wb wc body)"
  unfolding tx_rel_def
proof
  fix d0
  obtain r d' where run: "in_tx env wb wc body d0 = (r, d')" by force
  then have "R d0 d'"
  proof (cases rule: in_tx_cases)
    case (begin_failed e)
    then show ?thesis by (simp add: refl)
  next
    case (aborted d)
    then show ?thesis using tx_relD [OF assms] rolled_back by blast
  next
    case (commit_failed x e d)
    then show ?thesis using tx_relD [OF assms] rolled_back by auto
  next
    case (committed x)
    then show ?thesis using tx_relD [OF assms] by blast
  qed
  then show "R d0 (snd (in_tx env wb wc body d0))" by (simp add: run)
qed

end

section \<open>The invariant\<close>

definition tag_key :: "tag_row \<Rightarrow> uuid \<times> string" where
  "tag_key t = (t_owner t, t_name t)"

definition item_key :: "collection_row \<Rightarrow> uuid \<times> uuid" where
  "item_key c = (c_flow_id c, c_item_id c)"

definition format_ok :: "source_row list \<Rightarrow> flow_row \<Rightarrow> bool" where
  "format_ok srcs r = (case rows_find s_id (f_source_id r) srcs of None \<Rightarrow> False | Some s \<Rightarrow> s_format s = f_format r)"

definition meta_ok :: "db \<Rightarrow> bool" where
  "meta_ok d \<longleftrightarrow>
     rows_unique s_id (sources d) \<and>
     rows_unique tag_key (source_tags d) \<and> rows_unique tag_key (flow_tags d) \<and>
     rows_unique item_key (flow_collection d) \<and>
     list_all (format_ok (sources d)) (flows d) \<and>
     list_all (\<lambda>t. t_owner t \<in> s_id ` set (sources d)) (source_tags d) \<and>
     list_all (\<lambda>t. t_owner t \<in> f_id ` set (flows d)) (flow_tags d) \<and>
     list_all (\<lambda>c. c_flow_id c \<in> f_id ` set (flows d)) (flow_collection d)"

definition store_ok :: "db \<Rightarrow> bool" where
  "store_ok d \<longleftrightarrow> db_ok d \<and> ref_covers d \<and> meta_ok d"

abbreviation store_kept :: "db \<Rightarrow> db \<Rightarrow> bool" where
  "store_kept \<equiv> (\<lambda>a b. (store_ok a \<longrightarrow> store_ok b) \<and> seg_seq a \<le> seg_seq b)"

lemma empty_store_ok: "store_ok empty_db"
  using empty_db_ok by (simp add: store_ok_def) (simp add: meta_ok_def empty_db_def rows_unique_def)

lemma meta_ok_seq [simp]: "meta_ok (d\<lparr>seg_seq := n\<rparr>) = meta_ok d"
  by (simp add: meta_ok_def)

lemma store_ok_seq: "store_ok d \<Longrightarrow> seg_seq d \<le> n \<Longrightarrow> store_ok (d\<lparr>seg_seq := n\<rparr>)"
  by (simp add: store_ok_def db_ok_seq)

interpretation kept: tx_durable store_kept
  by unfold_locales (auto simp: rollback_def intro: store_ok_seq)

lemma rows_find_ids: "rows_find key k t \<noteq> None \<longleftrightarrow> k \<in> key ` set t"
  by (simp add: rows_find_None)

text \<open>The segment store reads only the keys of the flows.\<close>

lemma db_ok_flows:
  assumes "db_ok d" "f_id ` set (flows d') = f_id ` set (flows d) \<union> K" "rows_unique f_id (flows d')"
    "objects d' = objects d" "segments d' = segments d" "seg_seq d' = seg_seq d"
  shows "db_ok d'"
  using assms unfolding db_ok_def rows_find_ids list_all_iff by auto

lemma refs_cong:
  "objects d' = objects d \<Longrightarrow> segments d' = segments d \<Longrightarrow> ref_covers d' = ref_covers d"
  by (simp add: ref_covers_def references_def)

lemma rows_update_ids:
  assumes "\<And>r. key (f r) = key r"
  shows "key ` set (rows_update key k f t) = key ` set t"
  using arg_cong [OF rows_update_key [of key f k t, OF assms], of set] by simp

section \<open>Updates of one row\<close>

text \<open>An update that leaves the key, the source and the format of a flow alone.\<close>

definition flow_frame :: "(flow_row \<Rightarrow> flow_row) \<Rightarrow> bool" where
  "flow_frame f \<longleftrightarrow> (\<forall>r. f_id (f r) = f_id r \<and> f_source_id (f r) = f_source_id r \<and> f_format (f r) = f_format r)"

lemma flow_update_ok:
  assumes "store_ok d" "flow_frame f"
  shows "store_ok (d\<lparr>flows := rows_update f_id k f (flows d)\<rparr>)"
proof -
  let ?d = "d\<lparr>flows := rows_update f_id k f (flows d)\<rparr>"
  have ids: "f_id ` set (flows ?d) = f_id ` set (flows d)"
    using assms(2) by (simp add: rows_update_ids flow_frame_def)
  have u: "rows_unique f_id (flows ?d)"
    using assms flows_t.invar_update [of "flows d" f k] by (auto simp: store_ok_def db_ok_def flow_frame_def)
  have "db_ok ?d" using assms(1) db_ok_flows [of d ?d "{}"] ids u by (simp add: store_ok_def)
  moreover have "ref_covers ?d" using assms(1) refs_cong [of ?d d] by (simp add: store_ok_def)
  moreover have "format_ok (sources d) (f r) = format_ok (sources d) r" for r
    using assms(2) by (simp add: format_ok_def flow_frame_def split: option.split)
  then have "list_all (format_ok (sources d)) (flows ?d)"
    using assms(1) by (auto simp: store_ok_def meta_ok_def list_all_iff rows_update_def)
  then have "meta_ok ?d" using assms(1) ids by (simp add: store_ok_def meta_ok_def)
  ultimately show ?thesis by (simp add: store_ok_def)
qed

lemma source_update_ok:
  assumes "store_ok d" "\<And>r. s_id (f r) = s_id r" "\<And>r. s_format (f r) = s_format r"
  shows "store_ok (d\<lparr>sources := rows_update s_id k f (sources d)\<rparr>)"
proof -
  let ?d = "d\<lparr>sources := rows_update s_id k f (sources d)\<rparr>"
  have "s_id ` set (sources ?d) = s_id ` set (sources d)" by (simp add: rows_update_ids assms(2))
  moreover have "rows_unique s_id (sources ?d)"
    using assms sources_t.invar_update [of "sources d" f k] by (auto simp: store_ok_def meta_ok_def)
  moreover have "format_ok (sources ?d) = format_ok (sources d)"
    by (auto simp: fun_eq_iff format_ok_def sources_t.lookup_update [OF assms(2)] assms(3) split: option.split)
  ultimately have "meta_ok ?d" using assms(1) by (simp add: store_ok_def meta_ok_def)
  then show ?thesis using assms(1) refs_cong [of ?d d] db_ok_flows [of d ?d "{}"]
    by (simp add: store_ok_def db_ok_def)
qed

section \<open>Tags and collections\<close>

lemma has_tag_iff: "has_tag owner name tags \<longleftrightarrow> (owner, name) \<in> tag_key ` set tags"
  by (auto simp: has_tag_def list_ex_iff tag_key_def)

lemma set_tag_unique: "rows_unique tag_key tags \<Longrightarrow> rows_unique tag_key (set_tag owner name v tags)"
proof (cases "has_tag owner name tags")
  case True
  have "tag_key \<circ> (\<lambda>t. if t_owner t = owner \<and> t_name t = name then t\<lparr>t_value := v\<rparr> else t) = tag_key"
    by (auto simp: tag_key_def)
  then show "rows_unique tag_key tags \<Longrightarrow> ?thesis" using True by (simp add: set_tag_def rows_unique_def)
next
  case False
  then show "rows_unique tag_key tags \<Longrightarrow> ?thesis"
    by (auto simp: set_tag_def rows_unique_def rows_insert_def has_tag_iff tag_key_def)
qed

lemma set_tag_owner: "t \<in> set (set_tag owner name v tags) \<Longrightarrow> t_owner t = owner \<or> t_owner t \<in> t_owner ` set tags"
  by (auto simp: set_tag_def rows_insert_def split: if_splits)

lemma drop_tag_unique: "rows_unique tag_key tags \<Longrightarrow> rows_unique tag_key (drop_tag owner name tags)"
  by (simp add: drop_tag_def rows_unique_def distinct_map_filter)

lemma store_ok_D:
  assumes "store_ok d"
  shows "rows_unique tag_key (flow_tags d)" "list_all (\<lambda>t. t_owner t \<in> f_id ` set (flows d)) (flow_tags d)"
    "rows_unique tag_key (source_tags d)" "list_all (\<lambda>t. t_owner t \<in> s_id ` set (sources d)) (source_tags d)"
    "rows_unique item_key (flow_collection d)" "list_all (\<lambda>c. c_flow_id c \<in> f_id ` set (flows d)) (flow_collection d)"
    "rows_unique f_id (flows d)" "rows_unique s_id (sources d)" "list_all (format_ok (sources d)) (flows d)"
  using assms by (simp_all add: store_ok_def meta_ok_def db_ok_def)

text \<open>Changes outside the segment tables.\<close>

lemma flow_tags_ok:
  assumes "store_ok d" "rows_unique tag_key ft" "list_all (\<lambda>t. t_owner t \<in> f_id ` set (flows d)) ft"
  shows "store_ok (d\<lparr>flow_tags := ft\<rparr>)"
  using assms db_ok_flows [of d "d\<lparr>flow_tags := ft\<rparr>" "{}"] refs_cong [of "d\<lparr>flow_tags := ft\<rparr>" d]
  by (simp add: store_ok_def meta_ok_def db_ok_def)

lemma source_tags_ok:
  assumes "store_ok d" "rows_unique tag_key st" "list_all (\<lambda>t. t_owner t \<in> s_id ` set (sources d)) st"
  shows "store_ok (d\<lparr>source_tags := st\<rparr>)"
  using assms db_ok_flows [of d "d\<lparr>source_tags := st\<rparr>" "{}"] refs_cong [of "d\<lparr>source_tags := st\<rparr>" d]
  by (simp add: store_ok_def meta_ok_def db_ok_def)

lemma collection_ok:
  assumes "store_ok d" "rows_unique item_key fc" "list_all (\<lambda>c. c_flow_id c \<in> f_id ` set (flows d)) fc"
  shows "store_ok (d\<lparr>flow_collection := fc\<rparr>)"
  using assms db_ok_flows [of d "d\<lparr>flow_collection := fc\<rparr>" "{}"] refs_cong [of "d\<lparr>flow_collection := fc\<rparr>" d]
  by (simp add: store_ok_def meta_ok_def db_ok_def)

lemma set_tag_owned:
  "list_all (\<lambda>t. t_owner t \<in> A) tags \<Longrightarrow> k \<in> A \<Longrightarrow> list_all (\<lambda>t. t_owner t \<in> A) (set_tag k name v tags)"
  by (auto simp: list_all_iff dest!: set_tag_owner)

lemma drop_tag_owned: "list_all (\<lambda>t. t_owner t \<in> A) tags \<Longrightarrow> list_all (\<lambda>t. t_owner t \<in> A) (drop_tag k name tags)"
  by (auto simp: list_all_iff drop_tag_def)

section \<open>Statements\<close>

lemma kept_flow_tags:
  "tx_rel store_kept (upsert_flow_tag fid name v)"
  "tx_rel store_kept (\<lambda>d. (Ok (), d\<lparr>flow_tags := drop_tag fid name (flow_tags d)\<rparr>))"
proof -
  have "store_ok (d\<lparr>flow_tags := set_tag fid name v (flow_tags d)\<rparr>)"
    if "store_ok d" "fid \<in> f_id ` set (flows d)" for d
    using flow_tags_ok [OF that(1)] set_tag_unique set_tag_owned store_ok_D(1,2) [OF that(1)] that(2) by blast
  then show "tx_rel store_kept (upsert_flow_tag fid name v)"
    by (simp add: tx_rel_def upsert_flow_tag_def rows_find_None)
  have "store_ok (d\<lparr>flow_tags := drop_tag fid name (flow_tags d)\<rparr>)" if "store_ok d" for d
    using flow_tags_ok [OF that] drop_tag_unique drop_tag_owned store_ok_D(1,2) [OF that] by blast
  then show "tx_rel store_kept (\<lambda>d. (Ok (), d\<lparr>flow_tags := drop_tag fid name (flow_tags d)\<rparr>))"
    by (simp add: tx_rel_def)
qed

lemma kept_source_tags:
  "tx_rel store_kept (upsert_source_tag sid name v)"
  "tx_rel store_kept (\<lambda>d. (Ok (), d\<lparr>source_tags := drop_tag sid name (source_tags d)\<rparr>))"
proof -
  have "store_ok (d\<lparr>source_tags := set_tag sid name v (source_tags d)\<rparr>)"
    if "store_ok d" "sid \<in> s_id ` set (sources d)" for d
    using source_tags_ok [OF that(1)] set_tag_unique set_tag_owned store_ok_D(3,4) [OF that(1)] that(2) by blast
  then show "tx_rel store_kept (upsert_source_tag sid name v)"
    by (simp add: tx_rel_def upsert_source_tag_def rows_find_None)
  have "store_ok (d\<lparr>source_tags := drop_tag sid name (source_tags d)\<rparr>)" if "store_ok d" for d
    using source_tags_ok [OF that] drop_tag_unique drop_tag_owned store_ok_D(3,4) [OF that] by blast
  then show "tx_rel store_kept (\<lambda>d. (Ok (), d\<lparr>source_tags := drop_tag sid name (source_tags d)\<rparr>))"
    by (simp add: tx_rel_def)
qed

lemma kept_clear_collection: "tx_rel store_kept (clear_collection fid)"
proof -
  have "store_ok (d\<lparr>flow_collection := filter (\<lambda>c. c_flow_id c \<noteq> fid) (flow_collection d)\<rparr>)" if "store_ok d" for d
    using collection_ok [OF that] store_ok_D(5,6) [OF that]
    by (simp add: rows_unique_def distinct_map_filter list_all_iff)
  then show ?thesis by (simp add: tx_rel_def clear_collection_def)
qed

lemma kept_insert_item: "tx_rel store_kept (insert_item fid i ci)"
proof -
  have "store_ok (d\<lparr>flow_collection := rows_insert c (flow_collection d)\<rparr>)"
    if "store_ok d" "c_flow_id c \<in> f_id ` set (flows d)"
      "\<not> list_ex (\<lambda>x. c_flow_id x = c_flow_id c \<and> c_item_id x = c_item_id c) (flow_collection d)" for d c
  proof (rule collection_ok [OF that(1)])
    show "rows_unique item_key (rows_insert c (flow_collection d))"
      using store_ok_D(5) [OF that(1)] that(3)
      by (auto simp: rows_unique_def rows_insert_def item_key_def list_ex_iff)
    show "list_all (\<lambda>c. c_flow_id c \<in> f_id ` set (flows d)) (rows_insert c (flow_collection d))"
      using store_ok_D(6) [OF that(1)] that(2) by (simp add: rows_insert_def)
  qed
  then show ?thesis by (simp add: tx_rel_def insert_item_def rows_find_None)
qed

lemma kept_exec_flow_update: "flow_frame f \<Longrightarrow> tx_rel store_kept (exec_flow_update fid f)"
  by (auto simp: tx_rel_def exec_flow_update_def flow_update_ok)

lemmas kept_statements = kept_flow_tags kept_source_tags kept_clear_collection kept_insert_item kept_exec_flow_update

section \<open>Operations of one statement\<close>

lemma reads_kept: "reads_only m \<Longrightarrow> tx_rel store_kept m"
  by (auto simp: tx_rel_def)

lemma flowWritable_reads: "reads_only (flowWritable env fid)"
  unfolding flowWritable_def by (auto intro!: unchanged.rules split: option.split)

lemma sourceExists_reads: "reads_only (sourceExists env sid)"
  unfolding sourceExists_def by (auto intro!: unchanged.rules)

lemma kept_updateFlowField: "flow_frame f \<Longrightarrow> tx_rel store_kept (updateFlowField env fid col f)"
  unfolding updateFlowField_def
  by (auto intro!: kept.rules kept_exec_flow_update reads_kept [OF flowWritable_reads]) (simp add: flow_frame_def)

lemma kept_updateSourceField:
  assumes "\<And>r. s_id (f r) = s_id r" "\<And>r. s_format (f r) = s_format r"
  shows "tx_rel store_kept (updateSourceField env sid col f)"
proof -
  have "tx_rel store_kept (\<lambda>d. (Ok (if rows_find s_id sid (sources d) = None then 0 else (1::int)),
      d\<lparr>sources := rows_update s_id sid (\<lambda>r. (f r)\<lparr>s_updated := now env\<rparr>) (sources d)\<rparr>))"
    using source_update_ok assms by (simp add: tx_rel_def)
  then show ?thesis unfolding updateSourceField_def by (auto intro!: kept.rules)
qed

lemmas flow_field_defs = PutFlowLabel_def DeleteFlowLabel_def PutFlowDescription_def DeleteFlowDescription_def
  PutFlowAvgBitRate_def DeleteFlowAvgBitRate_def PutFlowMaxBitRate_def DeleteFlowMaxBitRate_def

lemma kept_flow_fields:
  "tx_rel store_kept (PutFlowLabel env fid s)" "tx_rel store_kept (DeleteFlowLabel env fid)"
  "tx_rel store_kept (PutFlowDescription env fid s)" "tx_rel store_kept (DeleteFlowDescription env fid)"
  "tx_rel store_kept (PutFlowAvgBitRate env fid n)" "tx_rel store_kept (DeleteFlowAvgBitRate env fid)"
  "tx_rel store_kept (PutFlowMaxBitRate env fid n)" "tx_rel store_kept (DeleteFlowMaxBitRate env fid)"
  unfolding flow_field_defs by (rule kept_updateFlowField, simp add: flow_frame_def)+

lemma kept_flow_parts:
  "tx_rel store_kept (PutFlowReadOnly env fid b)" "tx_rel store_kept (PutFlowTag env fid name v)"
  "tx_rel store_kept (DeleteFlowTag env fid name)" "tx_rel store_kept (PutFlowCollection env fid items)"
  "tx_rel store_kept (DeleteFlowCollection env fid)"
  unfolding PutFlowReadOnly_def PutFlowTag_def DeleteFlowTag_def PutFlowCollection_def DeleteFlowCollection_def
  by (auto intro!: kept.rules kept.in_tx kept_statements reads_kept [OF flowWritable_reads]
      simp: flow_frame_def split: option.split)

lemma kept_source_parts:
  "tx_rel store_kept (PutSourceLabel env sid s)" "tx_rel store_kept (DeleteSourceLabel env sid)"
  "tx_rel store_kept (PutSourceDescription env sid s)" "tx_rel store_kept (DeleteSourceDescription env sid)"
  "tx_rel store_kept (PutSourceTag env sid name v)" "tx_rel store_kept (DeleteSourceTag env sid name)"
  unfolding PutSourceLabel_def DeleteSourceLabel_def PutSourceDescription_def DeleteSourceDescription_def
    PutSourceTag_def DeleteSourceTag_def
  by (auto intro!: kept.rules kept_statements kept_updateSourceField reads_kept [OF sourceExists_reads])

end
