(* ===== verification/Flow_Effects.thy ===== *)
theory Flow_Effects
  imports Meta_Invariant
begin

text \<open>
  \<^verbatim>\<open>UpsertFlow\<close> and \<^verbatim>\<open>DeleteFlow\<close> as one change of the tables each, with every outcome of both,
  and the proof that both keep \<open>store_ok\<close>.
\<close>

section \<open>UpsertFlow\<close>

definition new_source_row :: "db_env \<Rightarrow> Flow \<Rightarrow> source_row" where
  "new_source_row env f = \<lparr>s_id = fl_SourceID f, s_format = fl_Format f, s_label = None, s_description = None,
     s_created = now env, s_updated = now env\<rparr>"

definition created_flow :: "db_env \<Rightarrow> Flow \<Rightarrow> db \<Rightarrow> db" where
  "created_flow env f d = d\<lparr>
     sources := (if rows_find s_id (fl_SourceID f) (sources d) = None
       then rows_insert (new_source_row env f) (sources d) else sources d),
     flows := rows_insert (new_flow_row env f) (flows d)\<rparr>"

definition updated_flow :: "db_env \<Rightarrow> Flow \<Rightarrow> db \<Rightarrow> db" where
  "updated_flow env f d = d\<lparr>flows := rows_update f_id (fl_ID f) (set_flow env f) (flows d)\<rparr>"

text \<open>The conditions under which a flow may be created or changed.\<close>

definition creatable :: "Flow \<Rightarrow> db \<Rightarrow> bool" where
  "creatable f d \<longleftrightarrow> rows_find f_id (fl_ID f) (flows d) = None \<and>
     (case rows_find s_id (fl_SourceID f) (sources d) of None \<Rightarrow> True | Some s \<Rightarrow> s_format s = fl_Format f)"

definition changeable :: "Flow \<Rightarrow> db \<Rightarrow> bool" where
  "changeable f d \<longleftrightarrow>
     (case rows_find f_id (fl_ID f) (flows d) of
        None \<Rightarrow> False
      | Some r \<Rightarrow> f_source_id r = fl_SourceID f \<and> f_format r = fl_Format f \<and>
          (f_codec r = fl_Codec f \<or> flow_rows (fl_ID f) d = []))"

lemma codecEqual_iff [simp]: "codecEqual a b \<longleftrightarrow> a = b"
  by (cases a; cases b) auto

lemma upsert_new_Ok:
  assumes "upsert_new env f d = (Ok x, d')" "rows_find f_id (fl_ID f) (flows d) = None"
  shows "x = (True, True)" "creatable f d" "d' = created_flow env f d"
proof -
  show x: "x = (True, True)" using assms(1) by (auto simp: upsert_new_def tx_simps)
  have "creatable f d \<and> d' = created_flow env f d"
  proof (cases "rows_find s_id (fl_SourceID f) (sources d)")
    case None
    then show ?thesis using assms
      by (auto simp: upsert_new_def tx_simps insert_source_def insert_flow_def created_flow_def creatable_def
          new_source_row_def split: option.splits if_splits)
  next
    case (Some s)
    then show ?thesis using assms
      by (auto simp: upsert_new_def tx_simps insert_flow_def created_flow_def creatable_def
          split: option.splits if_splits)
  qed
  then show "creatable f d" "d' = created_flow env f d" by simp_all
qed

lemma upsert_existing_Ok:
  assumes "upsert_existing env f r d = (Ok x, d')" "rows_find f_id (fl_ID f) (flows d) = Some r"
  shows "x = (False, True)" "changeable f d" "d' = updated_flow env f d"
  using assms
  by (auto simp: upsert_existing_def tx_simps update_flow_def updated_flow_def changeable_def
      split: if_splits option.splits)

interpretation same_seq: tx_durable "\<lambda>a b. seg_seq a = seg_seq b"
  by unfold_locales (auto simp: rollback_def)

lemma rollback_same: "seg_seq a = seg_seq b \<Longrightarrow> rollback a b = a"
  by (simp add: rollback_def)

lemma same_seq_statements:
  "tx_rel (\<lambda>a b. seg_seq a = seg_seq b) (insert_source env sid fm)"
  "tx_rel (\<lambda>a b. seg_seq a = seg_seq b) (insert_flow env f)"
  "tx_rel (\<lambda>a b. seg_seq a = seg_seq b) (update_flow fid g)"
  "tx_rel (\<lambda>a b. seg_seq a = seg_seq b) (decrement_refs fid)"
  "tx_rel (\<lambda>a b. seg_seq a = seg_seq b) (delete_flow_row fid)"
  by (auto simp: tx_rel_def insert_source_def insert_flow_def update_flow_def decrement_refs_def
      delete_flow_row_def Let_def)

lemma upsert_seq:
  "tx_rel (\<lambda>a b. seg_seq a = seg_seq b) (upsert_new env f)"
  "tx_rel (\<lambda>a b. seg_seq a = seg_seq b) (upsert_existing env f r)"
  unfolding upsert_new_def upsert_existing_def
  by (auto intro!: same_seq.rules same_seq_statements split: option.split)

definition upsert_body :: "db_env \<Rightarrow> Flow \<Rightarrow> (bool \<times> bool) tx" where
  "upsert_body env f =
     tbind (twrap (meta_err ''UpsertFlow: check flow'')
       (tcall env ''check flow'' 0 (tread (\<lambda>d. Ok (rows_find f_id (fl_ID f) (flows d))))))
     (\<lambda>existing. case existing of None \<Rightarrow> upsert_new env f | Some r \<Rightarrow> upsert_existing env f r)"

lemma upsert_body_seq: "tx_rel (\<lambda>a b. seg_seq a = seg_seq b) (upsert_body env f)"
  unfolding upsert_body_def by (auto intro!: same_seq.rules upsert_seq split: option.split)

lemma upsert_body_Ok:
  assumes "upsert_body env f d = (Ok x, d')"
  shows "creatable f d \<and> x = (True, True) \<and> d' = created_flow env f d \<or>
    changeable f d \<and> x = (False, True) \<and> d' = updated_flow env f d"
proof (cases "rows_find f_id (fl_ID f) (flows d)")
  case None
  then have "upsert_new env f d = (Ok x, d')"
    using assms by (auto simp: upsert_body_def tx_simps split: option.splits)
  then show ?thesis using upsert_new_Ok None by blast
next
  case (Some r)
  then have "upsert_existing env f r d = (Ok x, d')"
    using assms by (auto simp: upsert_body_def tx_simps split: option.splits)
  then show ?thesis using upsert_existing_Ok Some by blast
qed

text \<open>Every outcome of \<^verbatim>\<open>UpsertFlow\<close>: nothing changes, or the whole effect is in the tables, also
  when the acknowledgement of the commit was lost.\<close>

lemma UpsertFlow_cases:
  assumes "UpsertFlow env f d = (r, d')"
  obtains (kept) "d' = d" "\<And>x. r \<noteq> Ok x"
  | (created) "creatable f d" "d' = created_flow env f d" "r = Ok True \<or> commit_applied env \<and> (\<exists>e. r = Err e)"
  | (updated) "changeable f d" "d' = updated_flow env f d" "r = Ok False \<or> commit_applied env \<and> (\<exists>e. r = Err e)"
  using assms [unfolded UpsertFlow_def upsert_body_def [symmetric]]
proof (cases rule: in_tx_cases)
  case (begin_failed e)
  then show ?thesis using kept by auto
next
  case (aborted d1)
  then have "seg_seq d = seg_seq d1" using tx_relD [OF upsert_body_seq] by metis
  then have "d' = d" using aborted(2) rollback_same by simp
  moreover have "r \<noteq> Ok x" for x using aborted(3) upsert_body_Ok by blast
  ultimately show ?thesis using kept by blast
next
  case (commit_failed x e d1)
  show ?thesis
  proof (cases "commit_applied env")
    case True
    then show ?thesis using commit_failed upsert_body_Ok [OF commit_failed(2)] created updated by auto
  next
    case False
    then have "d' = d" using commit_failed rollback_same tx_relD [OF upsert_body_seq commit_failed(2)] by simp
    then show ?thesis using kept commit_failed(4) by blast
  qed
next
  case (committed x)
  then show ?thesis using upsert_body_Ok [OF committed(2)] created updated by auto
qed

text \<open>The outcome when nothing fails, on every branch.\<close>

definition upsert_outcome :: "db_env \<Rightarrow> Flow \<Rightarrow> db \<Rightarrow> bool res \<times> db" where
  "upsert_outcome env f d =
     (case rows_find f_id (fl_ID f) (flows d) of
        None \<Rightarrow>
          if creatable f d then (Ok True, created_flow env f d)
          else (Err (New FormatMismatch [Lit ''source format is '',
            Q (case rows_find s_id (fl_SourceID f) (sources d) of Some s \<Rightarrow> s_format s | None \<Rightarrow> []),
            Lit '', flow format '', Q (fl_Format f), Lit '' does not match'']), d)
      | Some r \<Rightarrow>
          if changeable f d then (Ok False, updated_flow env f d)
          else (Err (New ImmutableField [Lit (
            if f_source_id r \<noteq> fl_SourceID f then ''source_id cannot be changed''
            else if f_format r \<noteq> fl_Format f then ''format cannot be changed''
            else ''codec cannot be changed when segments exist'')]), d))"

lemma UpsertFlow_no_faults:
  assumes "no_faults env"
  shows "UpsertFlow env f d = upsert_outcome env f d"
proof (cases "rows_find f_id (fl_ID f) (flows d)")
  case None
  show ?thesis
  proof (cases "rows_find s_id (fl_SourceID f) (sources d)")
    case None': None
    then show ?thesis using None unfolding UpsertFlow_def in_tx_no_faults [OF assms] tcall_no_faults [OF assms]
      by (auto simp: tbind_def twrap_def tx_defs upsert_new_def tcall_no_faults [OF assms] insert_source_def
          insert_flow_def upsert_outcome_def creatable_def created_flow_def new_source_row_def
          sources_t.lookup_insert)
  next
    case (Some s)
    then show ?thesis using None unfolding UpsertFlow_def in_tx_no_faults [OF assms] tcall_no_faults [OF assms]
      by (auto simp: tbind_def twrap_def tx_defs upsert_new_def tcall_no_faults [OF assms]
          insert_flow_def upsert_outcome_def creatable_def created_flow_def)
  qed
next
  case (Some r)
  then show ?thesis unfolding UpsertFlow_def in_tx_no_faults [OF assms] tcall_no_faults [OF assms]
    by (auto simp: tbind_def twrap_def tx_defs upsert_existing_def tcall_no_faults [OF assms] update_flow_def
        upsert_outcome_def changeable_def updated_flow_def)
qed

lemma set_flow_frame: "flow_frame (set_flow env f)"
  by (simp add: flow_frame_def set_flow_def)

lemma new_flow_row_simps [simp]:
  "f_id (new_flow_row env f) = fl_ID f" "f_source_id (new_flow_row env f) = fl_SourceID f"
  "f_format (new_flow_row env f) = fl_Format f"
  by (simp_all add: new_flow_row_def)

lemma new_source_row_simps [simp]:
  "s_id (new_source_row env f) = fl_SourceID f" "s_format (new_source_row env f) = fl_Format f"
  by (simp_all add: new_source_row_def)

lemma created_flow_ok:
  assumes "store_ok d" "creatable f d"
  shows "store_ok (created_flow env f d)"
proof -
  let ?d = "created_flow env f d"
  have find: "rows_find s_id k (sources ?d) =
      (if k = fl_SourceID f \<and> rows_find s_id k (sources d) = None then Some (new_source_row env f)
       else rows_find s_id k (sources d))" for k
    by (auto simp: created_flow_def sources_t.lookup_insert)
  have u: "rows_unique s_id (sources ?d)" "rows_unique f_id (flows ?d)"
    using assms(2) store_ok_D(7,8) [OF assms(1)] sources_t.invar_insert [of "sources d" "new_source_row env f"]
      flows_t.invar_insert [of "flows d" "new_flow_row env f"]
    by (auto simp: created_flow_def creatable_def)
  have ids: "f_id ` set (flows ?d) = f_id ` set (flows d) \<union> {fl_ID f}" "s_id ` set (sources d) \<subseteq> s_id ` set (sources ?d)"
    by (auto simp: created_flow_def rows_insert_def)
  have "format_ok (sources ?d) r" if "format_ok (sources d) r" for r
    using that by (auto simp: format_ok_def find split: option.splits)
  moreover have "format_ok (sources ?d) (new_flow_row env f)"
    using assms(2) by (auto simp: format_ok_def find creatable_def split: option.splits)
  ultimately have "list_all (format_ok (sources ?d)) (flows ?d)"
    using store_ok_D(9) [OF assms(1)] by (auto simp: list_all_iff created_flow_def rows_insert_def)
  moreover have "flow_tags ?d = flow_tags d" "source_tags ?d = source_tags d" "flow_collection ?d = flow_collection d"
    by (simp_all add: created_flow_def)
  ultimately have "meta_ok ?d"
    using store_ok_D(1-6) [OF assms(1)] u(1) ids unfolding meta_ok_def list_all_iff by (simp add: subset_iff)
  moreover have "db_ok ?d"
    using db_ok_flows [of d ?d "{fl_ID f}"] assms(1) u(2) ids(1) by (simp add: store_ok_def created_flow_def)
  moreover have "ref_covers ?d" using refs_cong [of ?d d] assms(1) by (simp add: store_ok_def created_flow_def)
  ultimately show ?thesis by (simp add: store_ok_def)
qed

lemma UpsertFlow_kept: "tx_rel store_kept (UpsertFlow env f)"
proof -
  have "(store_ok d \<longrightarrow> store_ok d') \<and> seg_seq d \<le> seg_seq d'" if "UpsertFlow env f d = (r, d')" for d r d'
    using that
  proof (cases rule: UpsertFlow_cases)
    case kept
    then show ?thesis by simp
  next
    case created
    then show ?thesis using created_flow_ok by (simp add: created_flow_def)
  next
    case updated
    then show ?thesis using flow_update_ok set_flow_frame by (simp add: updated_flow_def)
  qed
  then show ?thesis unfolding tx_rel_def by (metis prod.collapse)
qed

section \<open>DeleteFlow\<close>

definition deleted_flow :: "uuid \<Rightarrow> db \<Rightarrow> db" where
  "deleted_flow fid d = d\<lparr>
     objects := map (\<lambda>ob. if o_id ob \<in> g_object_id ` set (flow_rows fid d) then sub_ref 1 ob else ob) (objects d),
     flows := rows_delete f_id fid (flows d),
     segments := filter (\<lambda>g. g_flow_id g \<noteq> fid) (segments d),
     flow_tags := filter (\<lambda>t. t_owner t \<noteq> fid) (flow_tags d),
     flow_collection := filter (\<lambda>c. c_flow_id c \<noteq> fid) (flow_collection d)\<rparr>"

definition delete_flow_body :: "db_env \<Rightarrow> uuid \<Rightarrow> (unit \<times> bool) tx" where
  "delete_flow_body env fid =
     tbind (twrap (meta_err ''DeleteFlow: decrement refs'') (tcall env ''decrement refs'' 0 (decrement_refs fid)))
     (\<lambda>_. tbind (twrap (meta_err ''DeleteFlow: delete'') (tcall env ''delete flow'' 0 (delete_flow_row fid)))
     (\<lambda>affected. if affected = 0 then tfail flow_not_found else tret ((), True)))"

lemma delete_flow_body_seq: "tx_rel (\<lambda>a b. seg_seq a = seg_seq b) (delete_flow_body env fid)"
  unfolding delete_flow_body_def by (auto intro!: same_seq.rules same_seq_statements)

lemma delete_flow_body_Ok:
  assumes "delete_flow_body env fid d = (Ok x, d')"
  shows "rows_find f_id fid (flows d) \<noteq> None \<and> x = ((), True) \<and> d' = deleted_flow fid d"
  using assms
  by (auto simp: delete_flow_body_def tx_simps decrement_refs_def delete_flow_row_def deleted_flow_def Let_def
      sub_ref_def split: if_splits option.splits cong: map_cong)

lemma DeleteFlow_cases:
  assumes "DeleteFlow env fid d = (r, d')"
  obtains (kept) "d' = d" "r \<noteq> Ok ()"
  | (deleted) "rows_find f_id fid (flows d) \<noteq> None" "d' = deleted_flow fid d"
      "r = Ok () \<or> commit_applied env \<and> (\<exists>e. r = Err e)"
  using assms [unfolded DeleteFlow_def delete_flow_body_def [symmetric]]
proof (cases rule: in_tx_cases)
  case (begin_failed e)
  then show ?thesis using kept by auto
next
  case (aborted d1)
  then have "seg_seq d = seg_seq d1" using tx_relD [OF delete_flow_body_seq] by metis
  then have "d' = d" using aborted(2) rollback_same by simp
  moreover have "r \<noteq> Ok ()" using aborted(3) delete_flow_body_Ok by blast
  ultimately show ?thesis using kept by blast
next
  case (commit_failed x e d1)
  show ?thesis
  proof (cases "commit_applied env")
    case True
    then show ?thesis using commit_failed delete_flow_body_Ok [OF commit_failed(2)] deleted by auto
  next
    case False
    then have "d' = d" using commit_failed rollback_same tx_relD [OF delete_flow_body_seq commit_failed(2)] by simp
    then show ?thesis using kept commit_failed(4) by blast
  qed
next
  case (committed x)
  then show ?thesis using delete_flow_body_Ok [OF committed(2)] deleted by auto
qed

lemma references_deleted:
  "references (deleted_flow fid d) k = references d k - int (count_list (map g_object_id (flow_rows fid d)) k)"
proof -
  have "int (count_list (map g_object_id gs) k) =
      int (count_list (map g_object_id (filter (\<lambda>g. g_flow_id g \<noteq> fid) gs)) k) +
      int (count_list (map g_object_id (filter (\<lambda>g. g_flow_id g = fid) gs)) k)" for gs
    by (induction gs) auto
  from this [of "segments d"] show ?thesis by (simp add: references_def deleted_flow_def flow_rows_def)
qed

lemma deleted_flow_covers:
  assumes "ref_covers d"
  shows "ref_covers (deleted_flow fid d)"
proof -
  have "references (deleted_flow fid d) (o_id ob') \<le> o_ref_count ob'" if "ob' \<in> set (objects (deleted_flow fid d))" for ob'
  proof -
    from that obtain ob where ob: "ob \<in> set (objects d)"
        "ob' = (if o_id ob \<in> g_object_id ` set (flow_rows fid d) then sub_ref 1 ob else ob)"
      by (auto simp: deleted_flow_def)
    have "references d (o_id ob) \<le> o_ref_count ob" using assms ob(1) by (simp add: ref_covers_def list_all_iff)
    moreover have "count_list (map g_object_id (flow_rows fid d)) (o_id ob) \<ge> 1"
      if "o_id ob \<in> g_object_id ` set (flow_rows fid d)"
      using that count_list_0_iff [of "map g_object_id (flow_rows fid d)" "o_id ob"] by fastforce
    ultimately show ?thesis using ob(2) by (auto simp: references_deleted)
  qed
  then show ?thesis by (simp add: ref_covers_def list_all_iff)
qed

lemma deleted_flow_db_ok:
  assumes "db_ok d"
  shows "db_ok (deleted_flow fid d)"
proof -
  let ?d = "deleted_flow fid d"
  have o: "map o_id (objects ?d) = map o_id (objects d)" by (simp add: deleted_flow_def)
  then have "o_id ` set (objects ?d) = o_id ` set (objects d)" by (metis set_map)
  moreover have "f_id ` set (flows ?d) = f_id ` set (flows d) - {fid}"
    by (auto simp: deleted_flow_def rows_delete_def)
  moreover have "rows_unique f_id (flows ?d)"
    using assms flows_t.invar_delete [of "flows d" fid] by (simp add: db_ok_def deleted_flow_def)
  moreover have "rows_unique o_id (objects ?d)" using assms o by (simp add: db_ok_def rows_unique_def)
  moreover have "rows_unique g_id (segments ?d)"
    using assms by (simp add: db_ok_def deleted_flow_def rows_unique_def distinct_map_filter)
  moreover have "segments ?d = filter (\<lambda>g. g_flow_id g \<noteq> fid) (segments d)" "seg_seq ?d = seg_seq d"
    by (simp_all add: deleted_flow_def)
  ultimately show ?thesis
    using assms unfolding db_ok_def rows_find_ids list_all_iff by (auto simp: sorted_wrt_filter)
qed

lemma deleted_flow_ok:
  assumes "store_ok d"
  shows "store_ok (deleted_flow fid d)"
proof -
  let ?d = "deleted_flow fid d"
  have "f_id ` set (flows ?d) = f_id ` set (flows d) - {fid}" "sources ?d = sources d" "source_tags ?d = source_tags d"
    "set (flows ?d) \<subseteq> set (flows d)"
    by (auto simp: deleted_flow_def rows_delete_def)
  moreover have "rows_unique tag_key (flow_tags ?d)" "rows_unique item_key (flow_collection ?d)"
    using store_ok_D(1,5) [OF assms] by (simp_all add: deleted_flow_def rows_unique_def distinct_map_filter)
  moreover have "set (flow_tags ?d) = {t \<in> set (flow_tags d). t_owner t \<noteq> fid}"
    "set (flow_collection ?d) = {c \<in> set (flow_collection d). c_flow_id c \<noteq> fid}"
    by (auto simp: deleted_flow_def)
  ultimately have "meta_ok ?d"
    using store_ok_D [OF assms] unfolding meta_ok_def list_all_iff by auto
  then show ?thesis using assms deleted_flow_covers deleted_flow_db_ok by (simp add: store_ok_def)
qed

lemma DeleteFlow_kept: "tx_rel store_kept (DeleteFlow env fid)"
proof -
  have "(store_ok d \<longrightarrow> store_ok d') \<and> seg_seq d \<le> seg_seq d'" if "DeleteFlow env fid d = (r, d')" for d r d'
    using that
  proof (cases rule: DeleteFlow_cases)
    case kept
    then show ?thesis by simp
  next
    case deleted
    then show ?thesis using deleted_flow_ok by (simp add: deleted_flow_def)
  qed
  then show ?thesis unfolding tx_rel_def by (metis prod.collapse)
qed

end
