(* ===== verification/Meta_Listing.thy ===== *)
theory Meta_Listing
  imports Flow_Effects Seg_Listing
begin

text \<open>
  The listings of flows and of sources are paged by cursor: both are instances of
  \<open>keyset_paging\<close>, so following the cursors gives the whole listing. Then what a read returns
  after a write of a part of a flow or of a source.
\<close>

section \<open>One page\<close>

lemma key_page_take:
  assumes "0 < limit"
  shows "key_page enc limit (map f (take (nat (limit + 1)) xs)) = apfst (map f) (key_page (\<lambda>x. enc (f x)) limit xs)"
proof (cases "int (length xs) > limit")
  case True
  then have "int (length (take (nat (limit + 1)) xs)) > limit" "nat limit - 1 < nat (limit + 1)" "nat limit - 1 < length xs"
    using assms by auto
  then show ?thesis using True by (simp add: key_page_def take_map min_def)
next
  case False
  then show ?thesis using assms by (simp add: key_page_def)
qed

lemma after_cursor_simps [simp]: "after_cursor None k" "after_cursor (Some c) k \<longleftrightarrow> c < k"
  by (simp_all add: after_cursor_def)

lemma strict_sorted:
  assumes "distinct (map key xs)"
  shows "sorted_wrt (\<lambda>a b. key a < key b) (sort_key key xs)"
proof -
  have "sorted_wrt (<) (map key (sort_key key xs))"
    using assms by (simp add: strict_sorted_iff distinct_map)
  then show ?thesis by (simp add: sorted_wrt_map)
qed

lemma rall_snoc: "rall (bs @ [Ok c]) = rbind (rall bs) (\<lambda>x. Ok (x \<and> c))"
proof (induction bs)
  case (Cons b bs)
  then show ?case by (cases b) auto
qed simp

lemma rfilter_conj:
  "rfilter p xs = Ok ys \<Longrightarrow> rfilter (\<lambda>r. rbind (p r) (\<lambda>x. Ok (x \<and> q r))) xs = Ok (filter q ys)"
  by (induction xs arbitrary: ys) (auto simp: res_simps split: if_splits)

lemma rfilter_subset: "rfilter p xs = Ok ys \<Longrightarrow> set ys \<subseteq> set xs \<and> (distinct (map key xs) \<longrightarrow> distinct (map key ys))"
proof (induction xs arbitrary: ys)
  case (Cons x xs)
  from Cons.prems obtain b zs where "rfilter p xs = Ok zs" "ys = (if b then x # zs else zs)"
    by (auto simp: res_simps)
  then show ?case using Cons.IH by (auto split: if_splits)
qed simp

section \<open>ListFlows\<close>

definition flow_filter :: "libs \<Rightarrow> ListFlowsParams \<Rightarrow> db \<Rightarrow> flow_row list res" where
  "flow_filter l p d = rbind (flow_bounds p) (\<lambda>b. rfilter (\<lambda>r. rall (flow_conds l d p b r)) (flows d))"

definition flow_listing :: "libs \<times> db_env \<times> ListFlowsParams \<times> db \<Rightarrow> flow_row list" where
  "flow_listing s = (case s of (l, env, p, d) \<Rightarrow>
     (case flow_filter l p d of Ok rs \<Rightarrow> sort_key flow_key rs | _ \<Rightarrow> []))"

definition flow_list_ok :: "libs \<times> db_env \<times> ListFlowsParams \<times> db \<Rightarrow> bool" where
  "flow_list_ok s = (case s of (l, env, p, d) \<Rightarrow>
     no_faults env \<and> time_lib_ok l \<and> list_all (\<lambda>r. uuid_ok l (f_id r)) (flows d) \<and> store_ok d \<and>
     pred_option int4_ok (lf_FrameWidth p) \<and> pred_option int4_ok (lf_FrameHeight p) \<and>
     \<not> bad_tag_value (lf_TagValues p) \<and> lf_Limit p < MaxInt64 \<and> (\<exists>rs. flow_filter l p d = Ok rs))"

definition flow_page :: "libs \<times> db_env \<times> ListFlowsParams \<times> db \<Rightarrow> string option \<Rightarrow> (Flow list \<times> string option) option" where
  "flow_page s c = (case s of (l, env, p, d) \<Rightarrow>
     (case fst (ListFlows l env (p\<lparr>lf_PageFrom := c\<rparr>) d) of
        Ok pg \<Rightarrow> Some (fp_Items pg, fp_NextCursor pg) | _ \<Rightarrow> None))"

lemma flow_key_distinct: "rows_unique f_id rs \<Longrightarrow> distinct (map flow_key rs)"
  by (auto simp: rows_unique_def distinct_map flow_key_def inj_on_def)

lemma flow_listing_eq:
  assumes "flow_list_ok (l, env, p, d)"
  obtains b rs where "flow_bounds p = Ok b" "rfilter (\<lambda>r. rall (flow_conds l d p b r)) (flows d) = Ok rs"
    "flow_listing (l, env, p, d) = sort_key flow_key rs" "set rs \<subseteq> set (flows d)" "distinct (map flow_key rs)"
proof -
  from assms obtain b rs where rs: "flow_bounds p = Ok b"
      "rfilter (\<lambda>r. rall (flow_conds l d p b r)) (flows d) = Ok rs"
    by (auto simp: flow_list_ok_def flow_filter_def res_simps)
  moreover have "rows_unique f_id (flows d)" using assms store_ok_D(7) by (simp add: flow_list_ok_def)
  ultimately show ?thesis
    using that rfilter_subset [OF rs(2), of flow_key] flow_key_distinct
    by (simp add: flow_listing_def flow_filter_def)
qed

lemma flow_page_cut:
  assumes ok: "flow_list_ok (l, env, p, d)" and c: "page_cursor l c = Ok cur"
  shows "flow_page (l, env, p, d) c = Some (apfst (map (scanFlowBase d))
    (key_page (\<lambda>r. encodeCursor l (f_created r) (f_id r)) (query_limit (lf_Limit p))
      (filter (\<lambda>x. after_cursor cur (flow_key x)) (flow_listing (l, env, p, d)))))"
proof -
  from ok obtain b rs where rs: "flow_bounds p = Ok b" "rfilter (\<lambda>r. rall (flow_conds l d p b r)) (flows d) = Ok rs"
      "flow_listing (l, env, p, d) = sort_key flow_key rs"
    by (rule flow_listing_eq)
  let ?p = "p\<lparr>lf_PageFrom := c\<rparr>" and ?lim = "query_limit (lf_Limit p)"
  have p: "flow_bounds ?p = Ok b" "flow_conds l d ?p b = flow_conds l d p b"
    using rs(1) by (auto simp: flow_bounds_def flow_conds_def fun_eq_iff)
  have lim: "0 < ?lim" "i64 (?lim + 1) = ?lim + 1"
    using ok by (auto simp: flow_list_ok_def query_limit_def MaxInt64_def MinInt64_def in_i64_def intro!: i64_id)
  have "flow_query l ?p b cur (?lim + 1) d =
      Ok (map (scanFlowBase d) (take (nat (?lim + 1)) (filter (\<lambda>x. after_cursor cur (flow_key x)) (sort_key flow_key rs))))"
    using ok lim(1) p(2) rfilter_conj [OF rs(2), of "\<lambda>r. after_cursor cur (flow_key r)"]
    by (simp add: flow_query_def flow_list_ok_def rall_snoc filter_sort)
  moreover have "no_faults env" using ok by (simp add: flow_list_ok_def)
  ultimately show ?thesis
    using c p(1) lim by (simp add: flow_page_def ListFlows_def Let_def tbind_def tlift_def twrap_def tread_def tret_def
        tcall_no_faults key_page_take scanFlowBase_def rs(3) split: prod.split)
qed

lemma page_cursor_enc:
  "time_lib_ok l \<Longrightarrow> uuid_ok l u \<Longrightarrow> page_cursor l (Some (encodeCursor l t u)) = Ok (Some (t, u))"
  by (simp add: page_cursor_def decode_encodeCursor)

interpretation flow_pages: keyset_paging flow_list_ok flow_listing flow_key
    "\<lambda>(l, env, p, d). query_limit (lf_Limit p)" "\<lambda>(l, env, p, d) r. encodeCursor l (f_created r) (f_id r)"
    "\<lambda>(l, env, p, d). scanFlowBase d" flow_page
proof (unfold_locales, goal_cases)
  case (1 s)
  obtain l env p d where s: "s = (l, env, p, d)" by (cases s)
  from 1 show ?case unfolding s by (rule flow_listing_eq) (simp add: strict_sorted)
next
  case (2 s)
  then show ?case by (auto simp: query_limit_def split: prod.split)
next
  case (3 s)
  obtain l env p d where s: "s = (l, env, p, d)" by (cases s)
  from 3 show ?case unfolding s by (simp add: flow_page_cut [where cur = None] page_cursor_def)
next
  case (4 s r)
  obtain l env p d where s: "s = (l, env, p, d)" by (cases s)
  note ok = 4(1) [unfolded s]
  from ok have "set (flow_listing (l, env, p, d)) \<subseteq> set (flows d)" by (rule flow_listing_eq) simp
  then have "r \<in> set (flows d)" using 4(2) unfolding s by blast
  then have "page_cursor l (Some (encodeCursor l (f_created r) (f_id r))) = Ok (Some (flow_key r))"
    using ok by (auto simp: flow_list_ok_def list_all_iff page_cursor_enc flow_key_def)
  from flow_page_cut [OF ok this] show ?case unfolding s by simp
qed

section \<open>ListSources\<close>

definition source_listing :: "libs \<times> db_env \<times> ListSourcesParams \<times> db \<Rightarrow> source_row list" where
  "source_listing s = (case s of (l, env, p, d) \<Rightarrow> sort_key source_key (filter (source_where d p) (sources d)))"

definition source_list_ok :: "libs \<times> db_env \<times> ListSourcesParams \<times> db \<Rightarrow> bool" where
  "source_list_ok s = (case s of (l, env, p, d) \<Rightarrow>
     no_faults env \<and> time_lib_ok l \<and> list_all (\<lambda>r. uuid_ok l (s_id r)) (sources d) \<and> store_ok d \<and>
     \<not> bad_tag_value (ls_TagValues p) \<and> ls_Limit p < MaxInt64)"

definition source_page :: "libs \<times> db_env \<times> ListSourcesParams \<times> db \<Rightarrow> string option \<Rightarrow> (Source list \<times> string option) option" where
  "source_page s c = (case s of (l, env, p, d) \<Rightarrow>
     (case fst (ListSources l env (p\<lparr>ls_PageFrom := c\<rparr>) d) of
        Ok pg \<Rightarrow> Some (sp_Items pg, sp_NextCursor pg) | _ \<Rightarrow> None))"

lemma source_page_cut:
  assumes ok: "source_list_ok (l, env, p, d)" and c: "page_cursor l c = Ok cur"
  shows "source_page (l, env, p, d) c = Some (apfst (map (scanSource d))
    (key_page (\<lambda>r. encodeCursor l (s_created r) (s_id r)) (query_limit (ls_Limit p))
      (filter (\<lambda>x. after_cursor cur (source_key x)) (source_listing (l, env, p, d)))))"
proof -
  let ?p = "p\<lparr>ls_PageFrom := c\<rparr>" and ?lim = "query_limit (ls_Limit p)"
  have p: "source_where d ?p = source_where d p" by (auto simp: source_where_def fun_eq_iff)
  have lim: "0 < ?lim" "i64 (?lim + 1) = ?lim + 1"
    using ok by (auto simp: source_list_ok_def query_limit_def MaxInt64_def MinInt64_def in_i64_def intro!: i64_id)
  have "filter (\<lambda>r. source_where d p r \<and> after_cursor cur (source_key r)) (sources d) =
      filter (\<lambda>r. after_cursor cur (source_key r)) (filter (source_where d p) (sources d))"
    by (simp add: conj_commute)
  then have "source_query ?p cur (?lim + 1) d =
      Ok (map (scanSource d) (take (nat (?lim + 1)) (filter (\<lambda>x. after_cursor cur (source_key x)) (source_listing (l, env, p, d)))))"
    using ok lim(1) p by (simp add: source_query_def source_list_ok_def source_listing_def filter_sort del: filter_filter)
  moreover have "no_faults env" using ok by (simp add: source_list_ok_def)
  ultimately show ?thesis
    using c lim by (simp add: source_page_def ListSources_def Let_def tbind_def tlift_def twrap_def tread_def tret_def
        tcall_no_faults key_page_take scanSource_def split: prod.split)
qed

interpretation source_pages: keyset_paging source_list_ok source_listing source_key
    "\<lambda>(l, env, p, d). query_limit (ls_Limit p)" "\<lambda>(l, env, p, d) r. encodeCursor l (s_created r) (s_id r)"
    "\<lambda>(l, env, p, d). scanSource d" source_page
proof (unfold_locales, goal_cases)
  case (1 s)
  obtain l env p d where s: "s = (l, env, p, d)" by (cases s)
  have "rows_unique s_id (sources d)" using 1 store_ok_D(8) by (simp add: s source_list_ok_def)
  then have "distinct (map source_key (filter (source_where d p) (sources d)))"
    by (auto simp: rows_unique_def distinct_map source_key_def inj_on_def)
  then show ?case unfolding s by (simp add: source_listing_def strict_sorted)
next
  case (2 s)
  then show ?case by (auto simp: query_limit_def split: prod.split)
next
  case (3 s)
  obtain l env p d where s: "s = (l, env, p, d)" by (cases s)
  from 3 show ?case unfolding s by (simp add: source_page_cut [where cur = None] page_cursor_def)
next
  case (4 s r)
  obtain l env p d where s: "s = (l, env, p, d)" by (cases s)
  note ok = 4(1) [unfolded s]
  have "r \<in> set (sources d)" using 4(2) by (simp add: s source_listing_def)
  then have "page_cursor l (Some (encodeCursor l (s_created r) (s_id r))) = Ok (Some (source_key r))"
    using ok by (auto simp: source_list_ok_def list_all_iff page_cursor_enc source_key_def)
  from source_page_cut [OF ok this] show ?case unfolding s by simp
qed

section \<open>Reads after writes\<close>

definition writable :: "uuid \<Rightarrow> db \<Rightarrow> bool" where
  "writable fid d = (case rows_find f_id fid (flows d) of None \<Rightarrow> False | Some r \<Rightarrow> \<not> f_read_only r)"

lemma GetFlow_no_faults:
  assumes "no_faults env"
  shows "GetFlow env fid d =
    ((case rows_find f_id fid (flows d) of
        None \<Rightarrow> Err flow_not_found
      | Some r \<Rightarrow> Ok ((scanFlowBase d r)\<lparr>fl_FlowCollection := collection_of fid d\<rparr>)), d)"
proof -
  have loop: "tfor (\<lambda>i _. Pair (Ok ())) n xs d = (Ok (), d)" for n and xs :: "CollectionItem list" and d
    by (induction xs arbitrary: n) (simp_all add: tbind_def tret_def)
  show ?thesis
    by (simp add: GetFlow_def tbind_def twrap_def tx_defs tcall_no_faults [OF assms] loop
        split: option.split)
qed

lemma flowWritable_no_faults:
  assumes "no_faults env"
  shows "flowWritable env fid d =
    ((case rows_find f_id fid (flows d) of
        None \<Rightarrow> Err flow_not_found | Some r \<Rightarrow> if f_read_only r then Err flow_is_read_only else Ok ()), d)"
  by (simp add: flowWritable_def tbind_def twrap_def tx_defs tcall_no_faults [OF assms] split: option.split)

lemma writableE:
  assumes "writable fid d"
  obtains r where "rows_find f_id fid (flows d) = Some r" "\<not> f_read_only r"
  using assms by (auto simp: writable_def split: option.splits)

text \<open>The rows a new collection becomes.\<close>

definition item_rows :: "uuid \<Rightarrow> nat \<Rightarrow> CollectionItem list \<Rightarrow> collection_row list" where
  "item_rows fid n items = map (\<lambda>(i, ci). \<lparr>c_flow_id = fid, c_item_id = ci_ID ci, c_role = ci_Role ci,
     c_container_mapping = ci_ContainerMapping ci, c_sort_order = i\<rparr>) (enumerate n items)"

lemma insert_items:
  assumes "no_faults env" "rows_find f_id fid (flows d) \<noteq> None" "distinct (map ci_ID items)"
    "\<forall>c \<in> set (flow_collection d). c_flow_id c = fid \<longrightarrow> c_item_id c \<notin> ci_ID ` set items"
    "int4_ok (int (n + length items))"
  shows "tfor (\<lambda>i ci. twrap w (tcall env s i (insert_item fid i ci))) n items d =
    (Ok (), d\<lparr>flow_collection := flow_collection d @ item_rows fid n items\<rparr>)"
  using assms(2-)
proof (induction items arbitrary: n d)
  case Nil
  then show ?case by (simp add: tret_def item_rows_def)
next
  case (Cons ci items)
  let ?c = "\<lparr>c_flow_id = fid, c_item_id = ci_ID ci, c_role = ci_Role ci,
     c_container_mapping = ci_ContainerMapping ci, c_sort_order = n\<rparr>"
  let ?d = "d\<lparr>flow_collection := flow_collection d @ [?c]\<rparr>"
  have "insert_item fid n ci d = (Ok (), ?d)"
    using Cons.prems by (auto simp: insert_item_def rows_insert_def list_ex_iff int4_ok_def)
  moreover have "tfor (\<lambda>i ci. twrap w (tcall env s i (insert_item fid i ci))) (Suc n) items ?d =
      (Ok (), ?d\<lparr>flow_collection := flow_collection ?d @ item_rows fid (Suc n) items\<rparr>)"
    using Cons.prems by (intro Cons.IH) auto
  ultimately show ?case
    using assms(1) by (simp add: tbind_def twrap_def tcall_no_faults item_rows_def)
qed

lemma PutFlowCollection_effect:
  assumes "no_faults env" "writable fid d" "distinct (map ci_ID items)" "int4_ok (int (length items))"
  shows "PutFlowCollection env fid items d =
    (Ok (), d\<lparr>flow_collection := filter (\<lambda>c. c_flow_id c \<noteq> fid) (flow_collection d) @ item_rows fid 0 items\<rparr>)"
proof -
  from assms(2) obtain r where r: "rows_find f_id fid (flows d) = Some r" "\<not> f_read_only r" by (rule writableE)
  let ?d = "d\<lparr>flow_collection := filter (\<lambda>c. c_flow_id c \<noteq> fid) (flow_collection d)\<rparr>"
  have "tfor (\<lambda>i ci. twrap w (tcall env s i (insert_item fid i ci))) 0 items ?d =
      (Ok (), ?d\<lparr>flow_collection := flow_collection ?d @ item_rows fid 0 items\<rparr>)" for w s
    using insert_items [OF assms(1), of fid ?d items 0] r(1) assms(3,4) by simp
  then show ?thesis
    using r by (simp add: PutFlowCollection_def in_tx_no_faults [OF assms(1)] tbind_def tx_defs
        tcall_no_faults [OF assms(1)] clear_collection_def twrap_def)
qed

lemma collection_of_items:
  "collection_of fid (d\<lparr>flow_collection := filter (\<lambda>c. c_flow_id c \<noteq> fid) xs @ item_rows fid 0 items\<rparr>) = items"
proof -
  let ?k = "\<lambda>c. (c_sort_order c, c_item_id c)"
  have "sorted (map ?k (item_rows fid n items))" for n
    by (induction items arbitrary: n) (auto simp: item_rows_def in_set_enumerate_eq less_eq_prod_def)
  then have "sort_key ?k (item_rows fid 0 items) = item_rows fid 0 items" by (rule sort_key_id_if_sorted)
  moreover have "filter (\<lambda>c. c_flow_id c = fid) (item_rows fid 0 items) = item_rows fid 0 items"
    by (auto simp: item_rows_def filter_id_conv)
  moreover have "map (\<lambda>c. \<lparr>ci_ID = c_item_id c, ci_Role = c_role c, ci_ContainerMapping = c_container_mapping c\<rparr>)
      (item_rows fid n items) = items" for n
    by (induction items arbitrary: n) (simp_all add: item_rows_def)
  ultimately show ?thesis by (simp add: collection_of_def)
qed

end
