(* ===== verification/Examples.thy ===== *)
theory Examples
  imports Seg_Outcomes
begin

text \<open>Concrete tables and requests, on which the theorems of the development are applied.\<close>

definition ex_range :: TimeRange where
  "ex_range = \<lparr>Start = Some \<lparr>Seconds = 0, Nanoseconds = 0\<rparr>, StartType = Inclusive,
     End = Some \<lparr>Seconds = 10, Nanoseconds = 0\<rparr>, EndType = Exclusive\<rparr>"

definition ex_segment :: Segment where
  "ex_segment = \<lparr>FlowID = ''f1'', ObjectID = ''o1'', Timerange = ex_range, TSOffset = None,
     ObjectTimerange = None, LastDuration = None, KeyFrameCount = Some 1, GetURLs = [],
     TimerangeRaw = ''[0:0_10:0)'', TSOffsetRaw = [], ObjectTimerangeRaw = [], LastDurationRaw = [],
     SampleOffset = None, SampleCount = None, CreatedAt = 0\<rparr>"

definition ex_later :: TimeRange where
  "ex_later = \<lparr>Start = Some \<lparr>Seconds = 10, Nanoseconds = 0\<rparr>, StartType = Inclusive,
     End = Some \<lparr>Seconds = 20, Nanoseconds = 0\<rparr>, EndType = Exclusive\<rparr>"

definition ex_flow :: flow_row where
  "ex_flow = \<lparr>f_id = ''f1'', f_source_id = ''s1'', f_format = ''video'', f_codec = None, f_container = None,
     f_label = None, f_description = None, f_essence_parameters = None, f_container_mapping = None,
     f_avg_bit_rate = None, f_max_bit_rate = None, f_segment_duration = None, f_generation = None,
     f_metadata_version = None, f_read_only = False, f_created = 0, f_metadata_updated = 0,
     f_segments_updated = None, f_timerange = None\<rparr>"

definition ex_db :: db where
  "ex_db = empty_db\<lparr>flows := [ex_flow]\<rparr>"

definition ex_env :: db_env where
  "ex_env = \<lparr>flt = (\<lambda>_ _. None), commit_applied = False, now = 7\<rparr>"

definition ex_batch :: InsertBatch where
  "ex_batch = \<lparr>ib_FlowID = ''f1'', ib_Segments = [ex_segment], ControlledStorageID = ''st''\<rparr>"

definition ex_clash :: InsertBatch where
  "ex_clash = \<lparr>ib_FlowID = ''f1'', ib_Segments = [ex_segment, ex_segment], ControlledStorageID = ''st''\<rparr>"

lemma ex_range_Parse: "Parse ''[0:0_10:0)'' = Ok ex_range"
  by code_simp

lemma ex_env_no_faults: "no_faults ex_env"
  by (simp add: no_faults_def ex_env_def)

lemma ex_db_ok: "db_ok ex_db" "ref_ok ex_db"
  by code_simp+

lemma ex_segment_wf: "wf_segment ex_segment"
  by code_simp

lemma ex_writable: "flow_writable ''f1'' ex_db"
  by code_simp

lemma ex_bounds: "segmentBounds [ex_segment, ex_segment] =
    Ok [\<lparr>Lower = 0, Upper = 10000000000, LowerUnbounded = False, UpperUnbounded = False\<rparr>,
        \<lparr>Lower = 0, Upper = 10000000000, LowerUnbounded = False, UpperUnbounded = False\<rparr>]"
  by code_simp

definition ex_row :: segments_row where
  "ex_row = segment_row_of 1 7 ''f1'' 0 10000000000 ex_segment"

definition ex_db1 :: db where
  "ex_db1 = ex_db\<lparr>flows := [ex_flow\<lparr>f_segments_updated := Some 7, f_timerange := Some ''[0:0_10:0)''\<rparr>],
     objects := [\<lparr>o_id = ''o1'', o_ref_count = 1, o_storage_id = Some ''st'', o_reaping = False\<rparr>],
     segments := [ex_row], seg_seq := 2\<rparr>"

lemma ex_insert: "InsertSegments ex_env ex_batch ex_db =
    (Ok \<lparr>AcceptedIndices = [0], RejectedIndices = [], RejectReasons = []\<rparr>, ex_db1)"
  by code_simp

end
