(* ===== verification/Flow_Properties.thy ===== *)
theory Flow_Properties
  imports Meta_Listing Examples
begin

text \<open>The properties of the flow and source stores, with the concrete tables they are applied to.\<close>

section \<open>Writes of a flow\<close>

definition ex_source :: source_row where
  "ex_source = \<lparr>s_id = ''s1'', s_format = ''video'', s_label = None, s_description = None, s_created = 0, s_updated = 0\<rparr>"

definition ex_store :: db where
  "ex_store = ex_db1\<lparr>sources := [ex_source]\<rparr>"

definition ex_new_flow :: Flow where
  "ex_new_flow = \<lparr>fl_ID = ''f1'', fl_SourceID = ''s1'', fl_Format = ''video'', fl_Codec = Some ''h264'',
     fl_Container = None, fl_Label = Some ''cam'', fl_Description = None, fl_Tags = [], fl_EssenceParameters = None,
     fl_ContainerMapping = None, fl_FlowCollection = [], fl_AvgBitRate = None, fl_MaxBitRate = None,
     fl_SegmentDuration = None, fl_Generation = None, fl_MetadataVersion = None, fl_ReadOnly = False,
     fl_Created = 0, fl_MetadataUpdated = 0, fl_SegmentsUpdated = None, fl_Timerange = None\<rparr>"

lemma ex_store_ok: "store_ok ex_store"
  by code_simp







definition ex_shared :: InsertBatch where
  "ex_shared = \<lparr>ib_FlowID = ''f1'', ib_Segments = [ex_segment, ex_segment\<lparr>Timerange := ex_later, TimerangeRaw := ''[10:0_20:0)''\<rparr>],
     ControlledStorageID = ''st''\<rparr>"




section \<open>Listings\<close>

text \<open>C21: A client that follows the cursors of \<^verbatim>\<open>ListFlows\<close> receives, after at most one page more than
  there are flows, every matching flow once, ordered by creation time and id.\<close>

theorem list_flows_complete:
  assumes "flow_list_ok (l, env, p, d)" "flow_filter l p d = Ok rs" "length rs < n"
  shows "walk (flow_page (l, env, p, d)) n None = Some (map (scanFlowBase d) (sort_key flow_key rs))"
  using flow_pages.walk_all [OF assms(1), of n] assms(2,3) by (simp add: flow_listing_def)

text \<open>A concrete text of times, and UUIDs that read as themselves.\<close>

definition ex_libs :: libs where
  "ex_libs = \<lparr>time_text = fmt_d, time_parse = (\<lambda>s. if s = [] then None
       else if hd s = CHR ''-'' then Some (- int (dec_val (tl s))) else Some (int (dec_val s))),
     uuid_Parse = (\<lambda>s. Some s), int4in = (\<lambda>s. Err (PgError ''22P02''))\<rparr>"

lemma plain_dec: "plain (dec n)"
  using dec_digits [of n] by (fastforce simp: plain_def list_all_iff is_digit_def less_eq_char_def)

lemma hd_dec: "hd (dec n) \<noteq> CHR ''-''"
  using dec_digits [of n] dec_not_Nil [of n] by (cases "dec n") (auto simp: is_digit_def)

lemma ex_libs_ok: "time_lib_ok ex_libs"
proof -
  have "time_parse ex_libs (fmt_d t) = Some t \<and> plain (fmt_d t)" for t
  proof (cases "t < 0")
    case True
    then show ?thesis using plain_dec [of "nat (- t)"] by (simp add: ex_libs_def fmt_d_neg plain_def)
  next
    case False
    then show ?thesis using plain_dec hd_dec by (simp add: ex_libs_def fmt_d_nonneg dec_not_Nil)
  qed
  then show ?thesis by (simp add: time_lib_ok_def ex_libs_def)
qed

definition ex_list :: ListFlowsParams where
  "ex_list = \<lparr>lf_SourceID = None, lf_Format = Some ''video'', lf_Label = None, lf_Codec = None, lf_FrameWidth = None,
     lf_FrameHeight = None, lf_Timerange = Some ex_range, lf_TagExists = [], lf_TagValues = [], lf_Limit = 1,
     lf_PageFrom = None\<rparr>"

lemma ex_flow_filter: "flow_filter ex_libs ex_list ex_store = Ok (flows ex_store)" "length (flows ex_store) = 1"
  by code_simp+

lemma ex_ids: "list_all (\<lambda>r. uuid_ok ex_libs (f_id r)) (flows ex_store)" "list_all (\<lambda>r. uuid_ok ex_libs (s_id r)) (sources ex_store)"
  by code_simp+

lemma ex_flow_list_ok: "flow_list_ok (ex_libs, ex_env, ex_list, ex_store)"
  using ex_flow_filter(1) by (simp add: flow_list_ok_def ex_env_no_faults ex_libs_ok ex_ids ex_store_ok)
    (simp add: ex_list_def bad_tag_value_def MaxInt64_def)

theorem list_flows_complete_witness:
  "walk (flow_page (ex_libs, ex_env, ex_list, ex_store)) 2 None =
    Some (map (scanFlowBase ex_store) (sort_key flow_key (flows ex_store)))"
  by (rule list_flows_complete [OF ex_flow_list_ok ex_flow_filter(1)]) (simp add: ex_flow_filter(2))

text \<open>The same for \<^verbatim>\<open>ListSources\<close>: the pages together are the sources with the requested label, format
  and tags, once each, ordered by creation time and id.\<close>

theorem list_sources_complete:
  assumes "source_list_ok (l, env, p, d)" "length (sources d) < n"
  shows "walk (source_page (l, env, p, d)) n None =
    Some (map (scanSource d) (sort_key source_key (filter (source_where d p) (sources d))))"
  using source_pages.walk_all [OF assms(1), of n] assms(2)
    order_le_less_trans [OF length_filter_le [of "source_where d p" "sources d"]]
  by (simp add: source_listing_def)

definition ex_sources :: ListSourcesParams where
  "ex_sources = \<lparr>ls_Limit = 1, ls_PageFrom = None, ls_Label = None, ls_Format = None, ls_TagExists = [], ls_TagValues = []\<rparr>"

lemma ex_source_list_ok: "source_list_ok (ex_libs, ex_env, ex_sources, ex_store)"
  by (simp add: source_list_ok_def ex_env_no_faults ex_libs_ok ex_ids ex_store_ok)
    (simp add: ex_sources_def bad_tag_value_def MaxInt64_def)

theorem list_sources_complete_witness:
  "walk (source_page (ex_libs, ex_env, ex_sources, ex_store)) 2 None =
    Some (map (scanSource ex_store) (sort_key source_key (filter (source_where ex_store ex_sources) (sources ex_store))))"
  by (rule list_sources_complete [OF ex_source_list_ok]) (simp add: ex_store_def)

section \<open>Reads after writes\<close>

text \<open>A collection put on a writable flow is what \<^verbatim>\<open>GetFlow\<close> then returns, item by item and in the
  order it was sent, whatever the flow had before.\<close>

theorem collection_round_trip:
  assumes "no_faults env" "writable fid d" "distinct (map ci_ID items)" "int4_ok (int (length items))"
  shows "\<exists>d' fl. PutFlowCollection env fid items d = (Ok (), d') \<and> GetFlow env fid d' = (Ok fl, d') \<and>
    fl_FlowCollection fl = items"
proof -
  obtain r where r: "rows_find f_id fid (flows d) = Some r" using assms(2) by (rule writableE)
  then show ?thesis
    unfolding PutFlowCollection_effect [OF assms] GetFlow_no_faults [OF assms(1)]
    by (simp add: collection_of_items)
qed

definition ex_items :: "CollectionItem list" where
  "ex_items = [\<lparr>ci_ID = ''f9'', ci_Role = Some ''audio'', ci_ContainerMapping = None\<rparr>,
     \<lparr>ci_ID = ''f2'', ci_Role = None, ci_ContainerMapping = None\<rparr>]"

lemma ex_store_writable: "writable ''f1'' ex_store"
  by code_simp

theorem collection_round_trip_witness:
  "\<exists>d' fl. PutFlowCollection ex_env ''f1'' ex_items ex_store = (Ok (), d') \<and> GetFlow ex_env ''f1'' d' = (Ok fl, d') \<and>
    fl_FlowCollection fl = ex_items"
  by (rule collection_round_trip [OF ex_env_no_faults ex_store_writable]) (simp_all add: ex_items_def int4_ok_def)

lemma map_of_set_tag:
  "map_of (tags_of k (set_tag owner name v tags)) n =
    (if k = owner \<and> n = name then Some v else map_of (tags_of k tags) n)"
proof (cases "has_tag owner name tags")
  case True
  have "map_of (tags_of k (map (\<lambda>t. if t_owner t = owner \<and> t_name t = name then t\<lparr>t_value := v\<rparr> else t) tags)) n =
      (if k = owner \<and> n = name \<and> has_tag owner name tags then Some v else map_of (tags_of k tags) n)"
    by (induction tags) (auto simp: tags_of_def has_tag_def)
  then show ?thesis using True by (simp add: set_tag_def)
next
  case False
  then show ?thesis by (induction tags) (auto simp: set_tag_def tags_of_def has_tag_def rows_insert_def)
qed

lemma map_of_drop_tag:
  "map_of (tags_of k (drop_tag owner name tags)) n =
    (if k = owner \<and> n = name then None else map_of (tags_of k tags) n)"
  by (induction tags) (auto simp: drop_tag_def tags_of_def)

text \<open>On a writable flow a tag that was put is read back, a deleted one is gone, and every other
  tag and every other field of the flow reads as before.\<close>

theorem tag_round_trip:
  assumes "no_faults env" "writable fid d" "GetFlow env fid d = (Ok fl, d)"
  shows "(\<exists>d' fl'. PutFlowTag env fid name v d = (Ok (), d') \<and> GetFlow env fid d' = (Ok fl', d') \<and>
      map_of (fl_Tags fl') = (map_of (fl_Tags fl))(name \<mapsto> v) \<and> fl'\<lparr>fl_Tags := fl_Tags fl\<rparr> = fl) \<and>
    (\<exists>d' fl'. DeleteFlowTag env fid name d = (Ok (), d') \<and> GetFlow env fid d' = (Ok fl', d') \<and>
      map_of (fl_Tags fl') = (map_of (fl_Tags fl))(name := None) \<and> fl'\<lparr>fl_Tags := fl_Tags fl\<rparr> = fl)"
proof -
  obtain r where r: "rows_find f_id fid (flows d) = Some r" "\<not> f_read_only r" using assms(2) by (rule writableE)
  have k: "f_id r = fid" using flows_t.lookup_key [OF r(1)] .
  have fl: "fl = (scanFlowBase d r)\<lparr>fl_FlowCollection := collection_of fid d\<rparr>"
    using assms(3) r(1) by (simp add: GetFlow_no_faults [OF assms(1)])
  have w: "flowWritable env fid d = (Ok (), d)" using r by (simp add: flowWritable_no_faults [OF assms(1)])
  show ?thesis
    using r(1)
    by (auto simp: PutFlowTag_def DeleteFlowTag_def tbind_def w twrap_def tcall_no_faults [OF assms(1)]
        upsert_flow_tag_def GetFlow_no_faults [OF assms(1)] fl scanFlowBase_def collection_of_def k fun_eq_iff
        map_of_set_tag map_of_drop_tag)
qed

theorem tag_round_trip_witness:
  "\<exists>d' fl'. PutFlowTag ex_env ''f1'' ''genre'' (JStr ''news'') ex_store = (Ok (), d') \<and>
     GetFlow ex_env ''f1'' d' = (Ok fl', d') \<and> map_of (fl_Tags fl') ''genre'' = Some (JStr ''news'')"
proof -
  obtain r where "rows_find f_id ''f1'' (flows ex_store) = Some r" using ex_store_writable by (rule writableE)
  then obtain fl where "GetFlow ex_env ''f1'' ex_store = (Ok fl, ex_store)"
    by (simp add: GetFlow_no_faults [OF ex_env_no_faults])
  from tag_round_trip [OF ex_env_no_faults ex_store_writable this] show ?thesis by fastforce
qed

end
