(* ===== verification/Handler_Properties.thy ===== *)
theory Handler_Properties
  imports Segment_Handlers Flow_Properties
begin

text \<open>
  What the segment endpoints promise together with the stores they call.
\<close>

section \<open>A stored response is read back unchanged\<close>

lemma all_Some_map: "(\<And>x. x \<in> set xs \<Longrightarrow> f (g x) = Some x) \<Longrightarrow> all_Some (map (f \<circ> g) xs) = Some xs"
  by (induction xs) auto

lemma unmarshal_marshal_entry:
  "decode_object [''error'', ''object_id'', ''timerange''] dec_entry_field zeroEntry (marshal_entry e) = Some e"
  by (cases e)
    (auto simp: decode_object_def marshal_entry_def find_field_member dec_entry_field_def dec_error_field_def
      dec_string_def dec_opt_string_def zeroEntry_def omit_nil_def split: option.split)

lemma unmarshal_marshal_bulk: "unmarshal_bulk (marshal_bulk es) = Some es"
  using all_Some_map [where g = marshal_entry and f = "decode_object [''error'', ''object_id'', ''timerange''] dec_entry_field zeroEntry",
      OF unmarshal_marshal_entry]
  by (auto simp: unmarshal_bulk_def marshal_bulk_def decode_object_def find_field_member dec_entries_def comp_def
      split: option.split)

lemmas post_builders = postSegments400_def postSegments403_def postSegments404_def postSegments409_def postSegments422_def

lemma replay_builder: "0 \<le> st \<Longrightarrow> st < 1000 \<Longrightarrow>
    replay_problem mk fb (Some (marshal_problem (problemPtrs t ti de st))) = mk (problemPtrs t ti de st)"
  using unmarshal_marshal_problem [of "problemPtrs t ti de st"] by (simp add: replay_problem_def problemPtrs_status)

lemma register_problem_replay:
  assumes "register_problem tx err = Some (status, resp)"
  shows "cachedPostResponse (Some \<lparr>cr_Status = status, cr_Body = Some (marshal_post resp)\<rparr>) = resp"
    and "int4_ok status"
  using assms
  by (auto simp: register_problem_def cachedPostResponse_def post_builders marshal_post_def replay_builder int4_ok_def
      split: if_splits)

section \<open>The key of a request\<close>

lemma InsertSegments_keys: "InsertSegments env b d = (r, d') \<Longrightarrow> idempotency_keys d' = idempotency_keys d"
proof (erule InsertSegments_cases)
  assume "d' = d\<lparr>seg_seq := seg_seq d'\<rparr>"
  then show "idempotency_keys d' = idempotency_keys d" by (cases d; cases d') simp
qed (auto simp: insert_effect_def)

lemma registerBatch_keys:
  "registerBatch (InsertSegments env) cid req d = (r, d') \<Longrightarrow> idempotency_keys d' = idempotency_keys d"
  by (auto simp: registerBatch_def tbind_def twrap_def tx_defs dest: InsertSegments_keys
      split: if_splits prod.splits res.splits)

lemma Complete_cases:
  assumes "Complete env key st b d = (r, d')"
  obtains (applied) "r = Ok ()" "d' = d\<lparr>idempotency_keys := rows_update k_key key
      (\<lambda>r. r\<lparr>k_in_flight := False, k_response_status := st, k_response_body := b\<rparr>) (idempotency_keys d)\<rparr>"
  | (failed) e where "r = Err e" "d' = d"
  using assms
  by (auto simp: Complete_def tbind_def tlift_def tcall_def tfail_def validateKey_def
      split: option.splits if_splits)

lemma Release_cases:
  assumes "Release env key d = (r, d')"
  obtains (applied) "r = Ok ()" "d' = d\<lparr>idempotency_keys := rows_delete k_key key (idempotency_keys d)\<rparr>"
  | (failed) e where "r = Err e" "d' = d"
  using assms
  by (auto simp: Release_def tbind_def tlift_def tcall_def tfail_def validateKey_def delete_keys_def tret_def rows_delete_def
      split: option.splits if_splits)

text \<open>No row of the key says that a request is at work.\<close>

definition settled :: "string \<Rightarrow> db \<Rightarrow> bool" where
  "settled key d \<longleftrightarrow> list_all (\<lambda>r. k_key r = key \<longrightarrow> \<not> k_in_flight r) (idempotency_keys d)"

lemma Complete_settles:
  assumes "Complete env key st b d = (Ok x, d')"
  shows "settled key d'"
  using assms
proof (cases rule: Complete_cases)
  case applied
  show ?thesis unfolding applied(2) settled_def rows_update_def by (simp add: list.pred_map comp_def) (simp add: list_all_iff)
next
  case (failed e)
  then show ?thesis by simp
qed

lemma Release_done_settles:
  assumes "Release env key d = (Ok x, d')"
  shows "settled key d'"
  using assms
proof (cases rule: Release_cases)
  case applied
  show ?thesis unfolding applied(2) settled_def rows_delete_def by (simp add: list_all_iff)
next
  case (failed e)
  then show ?thesis by simp
qed

lemma succeeded_done:
  "succeeded (Complete env key st b) d = (Ok True, d') \<Longrightarrow> settled key d'"
  "succeeded (Release env key) d = (Ok True, d') \<Longrightarrow> settled key d'"
  by (auto simp: succeeded_def split: prod.splits res.splits intro: Complete_settles Release_done_settles)

lemma post_claimed_done:
  assumes "post_claimed sv key params d = (Ok (r, True), d')"
  shows "settled key d'"
  using assms
  by (auto simp: post_claimed_def tx_simps completeNoBody_def completeWithBody_def Let_def
      split: prod.splits res.splits option.splits RegisterOutcome.splits dest: succeeded_done)

lemma Release_settles: "no_faults env \<Longrightarrow> validateKey key = Ok () \<Longrightarrow> settled key (snd (Release env key d))"
  by (simp add: Release_no_faults settled_def list_all_iff rows_delete_def)

lemma deferring_settles:
  assumes "no_faults env" "validateKey key = Ok ()"
    and "\<And>r d'. body d = (Ok (r, True), d') \<Longrightarrow> settled key d'"
  shows "settled key (snd (deferring env key body d))"
  using assms Release_settles [OF assms(1,2)]
  by (auto simp: deferring_def split: prod.split res.split)

text \<open>A claim either commits, or leaves the rows of the keys alone.\<close>

lemma Acquire_cases:
  assumes "Acquire env clock key h ttl d = (r, d')" "flt env ''commit'' 0 = None"
  obtains (held) "r = Ok \<lparr>ar_Status = StatusAcquired, ar_Cached = None\<rparr>" "validateKey key = Ok ()"
  | (other) "\<And>c. r \<noteq> Ok \<lparr>ar_Status = StatusAcquired, ar_Cached = c\<rparr>" "idempotency_keys d' = idempotency_keys d"
proof (cases "validateKey key")
  case (Ok u)
  let ?body = "tbind (tcall env ''idempotency expire'' 0 (delete_keys (\<lambda>r. k_key r = key \<and> expired env r))) (\<lambda>_.
        tbind (tcall env ''idempotency select'' 0 (tread (\<lambda>d. Ok (rows_find k_key key (idempotency_keys d)))))
        (\<lambda>row. case row of
           None \<Rightarrow>
             tbind (tcall env ''idempotency insert'' 0 (insert_key env key h (clock + ttl)))
               (\<lambda>_. tret (\<lparr>ar_Status = StatusAcquired, ar_Cached = None\<rparr>, True))
         | Some r \<Rightarrow> tret (classify_row h r, False)))"
  have run: "in_tx env (\<lambda>e. e) (\<lambda>e. e) ?body d = (r, d')"
    using assms(1) Ok by (simp add: Acquire_def tbind_def tlift_def)
  have acq: "x = \<lparr>ar_Status = StatusAcquired, ar_Cached = None\<rparr>" if "?body d = (Ok (x, True), d1)" for x d1
    using that by (auto simp: tx_simps split: option.splits)
  have not_acq: "ar_Status x \<noteq> StatusAcquired" if "?body d = (Ok (x, False), d1)" for x d1
    using that by (auto simp: tx_simps classify_row_def split: option.splits if_splits)
  from run show ?thesis
  proof (cases rule: in_tx_cases)
    case (begin_failed e)
    then show ?thesis using other by simp
  next
    case (aborted d1)
    then show ?thesis using other not_acq by (force simp: rollback_def)
  next
    case (commit_failed x e d1)
    then show ?thesis using assms(2) by simp
  next
    case (committed x)
    then show ?thesis using held acq Ok by auto
  qed
next
  case (Err e)
  then show ?thesis using assms(1) other by (auto simp: Acquire_def tbind_def tlift_def)
next
  case (Panic p)
  then show ?thesis by (auto simp: validateKey_def split: if_splits)
qed

lemma settled_keys: "idempotency_keys d' = idempotency_keys d \<Longrightarrow> settled key d' = settled key d"
  by (simp add: settled_def)

section \<open>A concrete server\<close>

definition ex_server :: server where
  "ex_server = \<lparr>sv_libs = ex_libs,
     sv_texts = \<lparr>tx_quote = (\<lambda>s. CHR 0x22 # s @ [CHR 0x22]), tx_pg = (\<lambda>c. ''SQLSTATE '' @ c), tx_extern = (\<lambda>_. ''connection lost'')\<rparr>,
     sv_hash = (\<lambda>s. s), sv_env = ex_env, sv_idem = ex_env, sv_defer = ex_env, sv_clock = 7, sv_ttl = 100, sv_storage = ''st'',
     sv_objects = \<lparr>st_bucket = ''b'', st_presign = None,
       st_backend = \<lparr>bi_StorageID = [], bi_Provider = ''aws'', bi_Region = ''r1'', bi_StoreProduct = ''s3''\<rparr>\<rparr>\<rparr>"

definition ex_post :: post_request where
  "ex_post = \<lparr>pq_FlowId = ''f1'', pq_Key = ''k1'',
     pq_Body = Some ''{\"object_id\":\"o1\",\"timerange\":\"[0:0_10:0)\"}''\<rparr>"

definition ex_broken :: db_env where
  "ex_broken = ex_env\<lparr>flt := (\<lambda>site i. if site = ''begin'' then Some (Extern 1) else None)\<rparr>"

lemma ex_post_stored: "fst (PostFlowSegments ex_server ex_post ex_db) = Ok Post201"
  "map g_object_id (segments (snd (PostFlowSegments ex_server ex_post ex_db))) = [''o1'']"
  "rows_unique k_key (idempotency_keys (snd (PostFlowSegments ex_server ex_post ex_db)))"
  by code_simp+

text \<open>A request is answered at once, whatever the state of the stores, or it goes on to its key.\<close>

lemma PostFlowSegments_split:
  obtains (answered) r where
    "\<And>env idem rel clock. PostFlowSegments (sv\<lparr>sv_env := env, sv_idem := idem, sv_defer := rel, sv_clock := clock\<rparr>) req = tlift r"
    "PostFlowSegments sv req = tlift r"
  | (claiming) raw params where
    "\<And>env idem rel clock. PostFlowSegments (sv\<lparr>sv_env := env, sv_idem := idem, sv_defer := rel, sv_clock := clock\<rparr>) req =
       post_acquire (sv\<lparr>sv_env := env, sv_idem := idem, sv_defer := rel, sv_clock := clock\<rparr>) (pq_Key req) raw params"
    "PostFlowSegments sv req = post_acquire sv (pq_Key req) raw params"
    "\<exists>p fid. body_params raw = Ok p \<and> length (rp_Segments p) \<le> maxSegmentsBatch \<and> params = p\<lparr>rp_FlowID := fid\<rparr> \<and>
       uuid_Parse (sv_libs sv) (pq_FlowId req) = Some fid \<and> pq_Body req = Some raw"
proof -
  have lift: "tret x = tlift (Ok x)" for x :: PostSegmentsResponse by (simp add: tx_defs)
  show thesis
  proof (cases "\<exists>raw p fid. uuid_Parse (sv_libs sv) (pq_FlowId req) = Some fid \<and> pq_Body req = Some raw \<and> pq_Key req \<noteq> [] \<and>
      body_params raw = Ok p \<and> length (rp_Segments p) \<le> maxSegmentsBatch")
    case True
    then obtain raw p fid where ok: "uuid_Parse (sv_libs sv) (pq_FlowId req) = Some fid" "pq_Body req = Some raw"
      "pq_Key req \<noteq> []" "body_params raw = Ok p" "length (rp_Segments p) \<le> maxSegmentsBatch" by blast
    show thesis
      by (rule claiming [of raw "p\<lparr>rp_FlowID := fid\<rparr>"]) (simp_all add: PostFlowSegments_def ok not_less [THEN iffD2, OF ok(5)])
  next
    case False
    then show thesis
      by (intro answered [of "fst (PostFlowSegments sv req undefined)"])
        (auto simp: PostFlowSegments_def lift tlift_def split: option.split res.split)
  qed
qed

text \<open>C10: Whatever fails in the store or in the idempotency store, and even when the handler panics, a
  POST never leaves its key marked as in flight, as long as the commit of its claim and the deferred release
  go through: its row is completed or gone, and the client can retry.\<close>

theorem post_never_leaves_key_in_flight:
  assumes "PostFlowSegments sv req d = (r, d')" "settled (pq_Key req) d"
    and "no_faults (sv_defer sv)" "flt (sv_idem sv) ''commit'' 0 = None"
  shows "settled (pq_Key req) d'"
proof (cases rule: PostFlowSegments_split [of sv req])
  case (answered r0)
  then show ?thesis using assms(1,2) by (simp add: tlift_def)
next
  case (claiming raw params)
  let ?key = "pq_Key req"
  obtain ra d1 where acq: "Acquire (sv_idem sv) (sv_clock sv) ?key (sv_hash sv raw) (sv_ttl sv) d = (ra, d1)" by force
  have run: "post_acquire sv ?key raw params d = (r, d')" using claiming(2) assms(1) by simp
  from acq assms(4) show ?thesis
  proof (cases rule: Acquire_cases)
    case held
    then have "deferring (sv_defer sv) ?key (post_claimed sv ?key params) d1 = (r, d')"
      using run acq by (simp add: post_acquire_def tbind_def)
    then show ?thesis
      using deferring_settles [OF assms(3) held(2), of "post_claimed sv ?key params" d1] post_claimed_done by simp
  next
    case other
    have "d' = d1"
    proof (cases ra)
      case (Ok a)
      then have "ar_Status a \<noteq> StatusAcquired" using other(1) [of "ar_Cached a"] by (cases a) auto
      then show ?thesis using run acq Ok by (cases "ar_Status a") (auto simp: post_acquire_def tbind_def tx_defs)
    qed (use run acq in \<open>auto simp: post_acquire_def tbind_def\<close>)
    then show ?thesis using settled_keys [of d' d] other(2) assms(2) by simp
  qed
qed

theorem post_never_leaves_key_in_flight_witness:
  "settled ''k1'' (snd (PostFlowSegments (ex_server\<lparr>sv_env := ex_broken\<rparr>) ex_post ex_db))"
  using post_never_leaves_key_in_flight [OF surjective_pairing, of ex_post ex_db "ex_server\<lparr>sv_env := ex_broken\<rparr>"]
  by (simp add: ex_post_def ex_server_def ex_env_no_faults settled_def ex_db_def empty_db_def) (simp add: ex_env_def)

section \<open>Replays\<close>

text \<open>A request that holds its key and answers has its answer in the row of the key.\<close>

definition completed_row :: "idempotency_row \<Rightarrow> PostSegmentsResponse \<Rightarrow> idempotency_row \<Rightarrow> bool" where
  "completed_row r0 resp r \<longleftrightarrow> k_key r = k_key r0 \<and> k_body_hash r = k_body_hash r0 \<and> k_expires_at r = k_expires_at r0 \<and>
     \<not> k_in_flight r \<and> cachedPostResponse (Some \<lparr>cr_Status = k_response_status r, cr_Body = k_response_body r\<rparr>) = resp"

lemma Complete_row:
  assumes "no_faults env" "validateKey key = Ok ()" "int4_ok st" "rows_find k_key key (idempotency_keys d) = Some r0"
    and "cachedPostResponse (Some \<lparr>cr_Status = st, cr_Body = b\<rparr>) = resp"
    and "succeeded (Complete env key st b) d = (x, d')"
  shows "x = Ok True" "\<exists>r. rows_find k_key key (idempotency_keys d') = Some r \<and> completed_row r0 resp r"
proof -
  let ?f = "\<lambda>r. r\<lparr>k_in_flight := False, k_response_status := st, k_response_body := b\<rparr>"
  have run: "x = Ok True" "idempotency_keys d' = rows_update k_key key ?f (idempotency_keys d)"
    using assms(6) by (auto simp: succeeded_def Complete_no_faults [OF assms(1-3)])
  then show "x = Ok True" by simp
  have "rows_find k_key key (idempotency_keys d') = Some (?f r0)"
    unfolding run(2) using assms(4) by (subst keys_t.lookup_update) auto
  then show "\<exists>r. rows_find k_key key (idempotency_keys d') = Some r \<and> completed_row r0 resp r"
    using assms(5) by (simp add: completed_row_def)
qed

lemma cached_201: "cachedPostResponse (Some \<lparr>cr_Status = 201, cr_Body = b\<rparr>) = Post201"
  by (simp add: cachedPostResponse_def)

lemma cached_200: "cachedPostResponse (Some \<lparr>cr_Status = 200, cr_Body = Some (marshal_post (Post200 es))\<rparr>) = Post200 es"
  by (simp add: cachedPostResponse_def marshal_post_def unmarshal_marshal_bulk)

lemma post_claimed_answer:
  assumes "no_faults (sv_idem sv)" "validateKey key = Ok ()" "rows_find k_key key (idempotency_keys d) = Some r0"
    and "post_claimed sv key params d = (Ok (Ok resp, fin), d')"
  shows "fin \<and> (\<exists>r. rows_find k_key key (idempotency_keys d') = Some r \<and> completed_row r0 resp r)"
proof (cases "registerBatch (InsertSegments (sv_env sv)) (sv_storage sv) params d")
  case (Pair rr d1)
  have row: "rows_find k_key key (idempotency_keys d1) = Some r0"
    using registerBatch_keys [OF Pair] assms(3) by simp
  note complete = Complete_row [OF assms(1,2) _ row]
  show ?thesis
  proof (cases rr)
    case (Ok res)
    have small: "int4_ok 201" "int4_ok 200" by (simp_all add: int4_ok_def)
    consider "succeeded (Complete (sv_idem sv) key 201 None) d1 = (Ok fin, d')" "resp = Post201"
      | es where "succeeded (Complete (sv_idem sv) key 200 (Some (marshal_post (Post200 es)))) d1 = (Ok fin, d')" "resp = Post200 es"
      using assms(4) Pair Ok
      by (cases "Outcome res") (auto simp: post_claimed_def tx_simps completeNoBody_def completeWithBody_def Let_def)
    then show ?thesis
    proof cases
      case 1
      then show ?thesis using complete [OF small(1) cached_201 1(1)] by simp
    next
      case 2
      then show ?thesis using complete [OF small(2) cached_200 2(1)] by simp
    qed
  next
    case (Err e)
    then obtain st where prob: "register_problem (sv_texts sv) e = Some (st, resp)"
        "succeeded (Complete (sv_idem sv) key st (Some (marshal_post resp))) d1 = (Ok fin, d')"
      using assms(4) Pair by (auto simp: post_claimed_def tx_simps completeWithBody_def split: option.splits)
    show ?thesis
      using complete [OF register_problem_replay(2) [OF prob(1)] register_problem_replay(1) [OF prob(1)] prob(2)] by simp
  next
    case (Panic p)
    then show ?thesis using assms(4) Pair by (simp add: post_claimed_def)
  qed
qed

lemma claimed_row:
  assumes "rows_unique k_key (idempotency_keys d)" "live env key d = None"
  shows "rows_find k_key key (idempotency_keys (claimed env key h t d)) = Some (new_key_row env key h t)"
proof -
  have "rows_find k_key key (filter (\<lambda>r. \<not> (k_key r = key \<and> expired env r)) (idempotency_keys d)) = None"
    using assms(2) live_after_expiry by (simp add: live_def)
  then have "rows_find k_key (k_key (new_key_row env key h t))
      (filter (\<lambda>r. \<not> (k_key r = key \<and> expired env r)) (idempotency_keys d)) = None"
    by (simp add: new_key_row_def)
  from keys_t.lookup_insert [OF this, of key] show ?thesis
    by (simp add: claimed_def new_key_row_def)
qed

text \<open>C9: A POST that was answered is answered the same way again, and nothing is written: as long as the
  row of its key is untouched and has not expired, a repetition of the request returns the
  recorded response and changes no table, whatever else happened in between.\<close>

theorem post_replay:
  assumes "PostFlowSegments sv req d = (Ok resp, d')"
    and "no_faults (sv_idem sv)" "rows_unique k_key (idempotency_keys d)" "live (sv_idem sv) (pq_Key req) d = None"
    and "sv' = sv\<lparr>sv_env := env', sv_idem := idem', sv_defer := rel', sv_clock := clock'\<rparr>"
    and "no_faults idem'" "now idem' < sv_clock sv + sv_ttl sv"
    and "rows_unique k_key (idempotency_keys later)"
    and "rows_find k_key (pq_Key req) (idempotency_keys later) = rows_find k_key (pq_Key req) (idempotency_keys d')"
  shows "PostFlowSegments sv' req later = (Ok resp, later)"
proof (cases rule: PostFlowSegments_split [of sv req])
  case (answered r0)
  then show ?thesis using assms(1,5) by (simp add: tlift_def)
next
  case (claiming raw params)
  let ?key = "pq_Key req"
  have run: "post_acquire sv ?key raw params d = (Ok resp, d')" using claiming(2) assms(1) by simp
  have valid: "validateKey ?key = Ok ()"
    using run by (cases "validateKey ?key") (auto simp: post_acquire_def Acquire_def tbind_def tlift_def)
  let ?d1 = "claimed (sv_idem sv) ?key (sv_hash sv raw) (sv_clock sv + sv_ttl sv) d"
  have "deferring (sv_defer sv) ?key (post_claimed sv ?key params) ?d1 = (Ok resp, d')"
    using run assms(4) by (simp add: post_acquire_def tbind_def Acquire_no_faults [OF assms(2) valid])
  then obtain fin d3 where body: "post_claimed sv ?key params ?d1 = (Ok (Ok resp, fin), d3)"
      and d': "d' = (if fin then d3 else snd (Release (sv_defer sv) ?key d3))"
    by (auto simp: deferring_def split: prod.splits res.splits)
  from post_claimed_answer [OF assms(2) valid claimed_row [OF assms(3,4)] body] d'
  obtain r where r: "rows_find k_key ?key (idempotency_keys d') = Some r"
      "completed_row (new_key_row (sv_idem sv) ?key (sv_hash sv raw) (sv_clock sv + sv_ttl sv)) resp r" by auto
  then have "live idem' ?key later = Some r"
    using assms(7,9) by (simp add: live_unique [OF assms(8)] expired_def completed_row_def new_key_row_def)
  then show ?thesis
    using r(2) claiming(1) assms(5)
    by (simp add: post_acquire_def tbind_def Acquire_no_faults [OF assms(6) valid] classify_row_def completed_row_def
        new_key_row_def tret_def)
qed

theorem post_replay_witness:
  "case PostFlowSegments ex_server ex_post ex_db of (r, d1) \<Rightarrow>
     PostFlowSegments (ex_server\<lparr>sv_env := ex_broken, sv_idem := ex_env\<lparr>now := 50\<rparr>, sv_defer := ex_broken, sv_clock := 50\<rparr>) ex_post d1 =
       (Ok Post201, d1)"
proof -
  have run: "PostFlowSegments ex_server ex_post ex_db = (Ok Post201, snd (PostFlowSegments ex_server ex_post ex_db))"
    using ex_post_stored(1) by (metis prod.collapse)
  have "live (sv_idem ex_server) (pq_Key ex_post) ex_db = None" "rows_unique k_key (idempotency_keys ex_db)" by code_simp+
  moreover have "no_faults (sv_idem ex_server)" "no_faults (ex_env\<lparr>now := 50\<rparr>)" "now (ex_env\<lparr>now := 50\<rparr>) < sv_clock ex_server + sv_ttl ex_server"
    by (simp_all add: ex_server_def no_faults_def ex_env_def)
  ultimately show ?thesis
    using post_replay [OF run, where env' = ex_broken and idem' = "ex_env\<lparr>now := 50\<rparr>" and rel' = ex_broken and clock' = 50
        and later = "snd (PostFlowSegments ex_server ex_post ex_db)", OF _ _ _ refl] ex_post_stored(3)
    by (simp add: case_prod_unfold)
qed

section \<open>A batch that overlaps\<close>

lemma db_ok_keys [simp]: "db_ok (d\<lparr>idempotency_keys := ks\<rparr>) = db_ok d" "flow_writable fid (d\<lparr>idempotency_keys := ks\<rparr>) = flow_writable fid d"
  "meets_row fid (d\<lparr>idempotency_keys := ks\<rparr>) = meets_row fid d" "other_tables (d\<lparr>idempotency_keys := ks\<rparr>) = other_tables d"
  by (simp_all add: db_ok_def flow_writable_def meets_row_def fun_eq_iff other_tables_def)

lemma body_params_wf: "body_params raw = Ok params \<Longrightarrow> list_all wf_segment (rp_Segments params)"
  by (auto simp: body_params_def RegisterParamsFromAPI_def dest: registerParams_wf
      split: option.splits list.splits if_splits)

lemma sent_bounds:
  assumes "list_all wf_segment (rp_Segments params)"
  shows "list_all wf_segment (ib_Segments (sent cid params))" "\<exists>bounds. segmentBounds (ib_Segments (sent cid params)) = Ok bounds"
proof -
  show wf: "list_all wf_segment (ib_Segments (sent cid params))"
    using assms by (auto simp: sent_def list_all_iff)
  have "list_all (\<lambda>sg. bounds_of_text (TimerangeRaw sg) \<noteq> None) (ib_Segments (sent cid params))"
    using assms valid_segment_bounded by (auto simp: sent_def list_all_iff)
  then show "\<exists>bounds. segmentBounds (ib_Segments (sent cid params)) = Ok bounds"
    by (rule segmentBounds_accepts [OF wf])
qed

lemma registerBatch_overlap:
  assumes "no_faults env" "db_ok d" "flow_writable (rp_FlowID params) d" "list_all wf_segment (rp_Segments params)"
    and "meets_batch (ib_Segments (sent cid params)) \<or>
      (\<exists>sg \<in> set (ib_Segments (sent cid params)). meets_row (rp_FlowID params) d sg)"
  shows "\<exists>e. registerBatch (InsertSegments env) cid params d = (Err e, d) \<and> only_overlap e"
proof -
  obtain e where e: "InsertSegments env (sent cid params) d = (Err e, d)" "only_overlap e"
    using InsertSegments_overlap [OF assms(1,2), of "sent cid params"] assms(3,5) sent_bounds [OF assms(4), of cid]
    by (auto simp: sent_def)
  have "ib_Segments (sent cid params) \<noteq> []" using assms(5) by (auto simp: meets_batch_def)
  then have ne: "rp_Segments params \<noteq> []" "filter valid_segment (rp_Segments params) \<noteq> []" by (auto simp: sent_def)
  have "register_error e = e" using e(2) by (simp add: register_error_def only_overlap_def)
  then have "registerBatch (InsertSegments env) cid params d = (Err e, d)"
    using e(1) ne by (simp add: registerBatch_def validate_batch_spec tbind_def twrap_def sent_def)
  then show ?thesis using e(2) by blast
qed

text \<open>C15: A POST whose valid segments overlap one another or a stored segment of the flow is answered with
  422 and the type of an overlap. No segment is stored and no object is counted: only the row of the key changes.\<close>

theorem post_overlap_is_422:
  assumes "no_faults (sv_env sv)" "no_faults (sv_idem sv)" "db_ok d"
    and "uuid_Parse (sv_libs sv) (pq_FlowId req) = Some fid" "pq_Body req = Some raw" "validateKey (pq_Key req) = Ok ()"
    and "body_params raw = Ok params" "length (rp_Segments params) \<le> maxSegmentsBatch"
    and "live (sv_idem sv) (pq_Key req) d = None" "rows_unique k_key (idempotency_keys d)" "flow_writable fid d"
    and "meets_batch (ib_Segments (sent (sv_storage sv) params)) \<or>
      (\<exists>sg \<in> set (ib_Segments (sent (sv_storage sv) params)). meets_row fid d sg)"
  shows "\<exists>p d'. PostFlowSegments sv req d = (Ok (Post422 p), d') \<and>
    ap_Type p = Some (problemType ''segment-overlap'') \<and> other_tables d' = other_tables d"
proof -
  let ?key = "pq_Key req" and ?params = "params\<lparr>rp_FlowID := fid\<rparr>"
  let ?d1 = "claimed (sv_idem sv) ?key (sv_hash sv raw) (sv_clock sv + sv_ttl sv) d"
  have key: "?key \<noteq> []" using assms(6) by (auto simp: validateKey_def)
  have "ib_Segments (sent (sv_storage sv) ?params) = ib_Segments (sent (sv_storage sv) params)" by (simp add: sent_def)
  then obtain e where e: "registerBatch (InsertSegments (sv_env sv)) (sv_storage sv) ?params ?d1 = (Err e, ?d1)" "only_overlap e"
    using registerBatch_overlap [OF assms(1), of ?d1 ?params "sv_storage sv"] assms(3,11,12) body_params_wf [OF assms(7)]
    by (auto simp: claimed_def)
  let ?resp = "postSegments422 (problemType ''segment-overlap'') ''Segment Overlap'' (error_text (sv_texts sv) e)"
  have prob: "register_problem (sv_texts sv) e = Some (422, ?resp)"
    using e(2) by (simp add: register_problem_def only_overlap_def)
  obtain x d' where c: "completeWithBody (sv_idem sv) ?key 422 ?resp ?d1 = (x, d')" by force
  then have x: "x = Ok True" "other_tables d' = other_tables d"
    by (auto simp: completeWithBody_def succeeded_def Complete_no_faults [OF assms(2,6)] int4_ok_def claimed_def)
  have "PostFlowSegments sv req d = deferring (sv_defer sv) ?key (post_claimed sv ?key ?params) ?d1"
    using key assms(8,9)
    by (simp add: PostFlowSegments_def assms(4,5,7) post_acquire_def tbind_def Acquire_no_faults [OF assms(2,6)])
  moreover have "post_claimed sv ?key ?params ?d1 = (Ok (Ok ?resp, True), d')"
    using e(1) prob c x(1) by (simp add: post_claimed_def tbind_def tret_def)
  ultimately have "PostFlowSegments sv req d = (Ok ?resp, d')" by (simp add: deferring_def)
  then show ?thesis using x(2) by (auto simp: postSegments422_def problemPtrs_def)
qed

definition ex_double :: post_request where
  "ex_double = ex_post\<lparr>pq_Body := Some ''[{\"object_id\":\"o1\",\"timerange\":\"[0:0_10:0)\"},{\"object_id\":\"o2\",\"timerange\":\"[0:0_10:0)\"}]''\<rparr>"

lemma ex_double_ranges:
  "(case body_params (the (pq_Body ex_double)) of Ok p \<Rightarrow> map Timerange (ib_Segments (sent ''st'' p)) | _ \<Rightarrow> []) = [ex_range, ex_range]"
  "(case body_params (the (pq_Body ex_double)) of Ok p \<Rightarrow> length (rp_Segments p) | _ \<Rightarrow> 0) = 2"
  by code_simp+

lemma ex_ranges_meet: "map Timerange segs = [ex_range, ex_range] \<Longrightarrow> meets_batch segs"
proof -
  assume r: "map Timerange segs = [ex_range, ex_range]"
  have "\<not> IsEmpty ex_range" by code_simp
  then have "instants ex_range \<noteq> {}" using IsEmpty_iff Parse_Ok_wf [OF ex_range_Parse] by blast
  moreover obtain a b where "segs = [a, b]" "Timerange a = ex_range" "Timerange b = ex_range" using r by auto
  ultimately show ?thesis
    unfolding meets_batch_def by (intro exI [of _ 0] exI [of _ "Suc 0"]) simp
qed

theorem post_overlap_is_422_witness:
  "\<exists>p d'. PostFlowSegments ex_server ex_double ex_db = (Ok (Post422 p), d') \<and>
    ap_Type p = Some (problemType ''segment-overlap'') \<and> other_tables d' = other_tables ex_db"
proof -
  obtain p where p: "body_params (the (pq_Body ex_double)) = Ok p"
      "map Timerange (ib_Segments (sent ''st'' p)) = [ex_range, ex_range]" "length (rp_Segments p) = 2"
    using ex_double_ranges by (auto split: res.splits)
  have "live (sv_idem ex_server) (pq_Key ex_double) ex_db = None" "rows_unique k_key (idempotency_keys ex_db)" by code_simp+
  then show ?thesis
    using post_overlap_is_422 [of ex_server ex_db ex_double "''f1''" "the (pq_Body ex_double)" p] p ex_ranges_meet [OF p(2)]
    by (simp add: ex_server_def ex_env_no_faults ex_db_ok ex_writable ex_double_def ex_post_def ex_libs_def validateKey_def maxSegmentsBatch_def)
qed

section \<open>URLs of a listing\<close>

definition urls_of :: "FlowSegment \<Rightarrow> getUrlEntry list" where
  "urls_of w = (case as_GetUrls w of None \<Rightarrow> [] | Some us \<Rightarrow> us)"

definition url_fits :: "bool option \<Rightarrow> Segment \<Rightarrow> getUrlEntry \<Rightarrow> bool" where
  "url_fits presigned sg u \<longleftrightarrow>
     (presigned = Some True \<longrightarrow> ge_Presigned u = Some True) \<and> (presigned = Some False \<longrightarrow> ge_Presigned u = None) \<and>
     (GetURLs sg \<noteq> [] \<longrightarrow> ge_Controlled u = Some False)"

lemma controlled_fits:
  "controlledGetURLs st oid presigned = Ok us \<Longrightarrow> GetURLs sg = [] \<Longrightarrow> list_all (url_fits presigned sg) us"
  by (auto simp: controlledGetURLs_def res_simps Let_def url_fits_def split: if_splits)

lemma byos_fits: "GetURLs sg \<noteq> [] \<Longrightarrow> list_all (url_fits presigned sg) (byosGetURLs (GetURLs sg) presigned)"
  by (auto simp: byosGetURLs_def url_fits_def list_all_iff)

lemma project_one_fits:
  assumes "project_one st presigned sg w = Ok w'"
  shows "as_ObjectId w' = as_ObjectId w \<and> list_all (url_fits presigned sg) (urls_of w')"
  using assms controlled_fits [of st "ObjectID sg" presigned _ sg] byos_fits [of sg presigned]
  by (auto simp: project_one_def urls_of_def Let_def split: if_splits res.splits)

lemma project_one_unsigned: "project_one (st\<lparr>st_presign := p\<rparr>) (Some False) sg w = project_one st (Some False) sg w"
  by (simp add: project_one_def controlledGetURLs_def GenerateDownloadURL_def Let_def)

text \<open>The URLs of a listing follow the \<^verbatim>\<open>presigned\<close> parameter and the ownership of the bytes: with \<^verbatim>\<open>true\<close>
  only signed URLs are listed, with \<^verbatim>\<open>false\<close> none is and the signer is not consulted, and every URL that the
  client supplied is marked as not controlled. Every segment stays in its place.\<close>

theorem url_projection:
  assumes "projectSegmentURLs st page (SegmentPageToAPI page) presigned = Ok out"
  shows "length out = length (Items page) \<and>
    list_all2 (\<lambda>sg w. as_ObjectId w = ObjectID sg \<and> list_all (url_fits presigned sg) (urls_of w)) (Items page) out \<and>
    (presigned = Some False \<longrightarrow> (\<forall>p. projectSegmentURLs (st\<lparr>st_presign := p\<rparr>) page (SegmentPageToAPI page) presigned = Ok out))"
proof -
  let ?ws = "SegmentPageToAPI page"
  have len: "length ?ws = length (Items page)" by (simp add: SegmentPageToAPI_def RegisterAcceptedToAPI_def)
  have all: "list_all2 (\<lambda>(sg, w) w'. project_one st presigned sg w = Ok w') (zip (Items page) ?ws) out"
    using assms by (simp add: projectSegmentURLs_def rmap_Ok_list_all2 case_prod_unfold)
  have n: "length out = length (Items page)" using list_all2_lengthD [OF all] len by simp
  have "as_ObjectId (out ! i) = ObjectID (Items page ! i) \<and> list_all (url_fits presigned (Items page ! i)) (urls_of (out ! i))"
    if "i < length (Items page)" for i
  proof -
    have "project_one st presigned (Items page ! i) (?ws ! i) = Ok (out ! i)"
      using list_all2_nthD [OF all, of i] that len by simp
    moreover have "as_ObjectId (?ws ! i) = ObjectID (Items page ! i)"
      using that by (simp add: SegmentPageToAPI_def RegisterAcceptedToAPI_def SegmentToAPI_def)
    ultimately show ?thesis using project_one_fits by metis
  qed
  then have "list_all2 (\<lambda>sg w. as_ObjectId w = ObjectID sg \<and> list_all (url_fits presigned sg) (urls_of w)) (Items page) out"
    using n by (simp add: list_all2_conv_all_nth)
  moreover have "presigned = Some False \<longrightarrow> (\<forall>p. projectSegmentURLs (st\<lparr>st_presign := p\<rparr>) page ?ws presigned = Ok out)"
    using assms by (cases "presigned = Some False") (simp_all add: projectSegmentURLs_def project_one_unsigned)
  ultimately show ?thesis using n by blast
qed

theorem url_projection_witness:
  "case projectSegmentURLs (sv_objects ex_server) \<lparr>Items = [ex_segment], NextCursor = [], EffectiveLimit = 1, sp_Timerange = ex_range, Count = 1\<rparr>
      [SegmentToAPI ex_segment] (Some False) of
     Ok out \<Rightarrow> list_all (\<lambda>w. list_all (\<lambda>u. ge_Presigned u = None) (urls_of w)) out \<and> length out = 1 | _ \<Rightarrow> False"
proof -
  let ?page = "\<lparr>Items = [ex_segment], NextCursor = [], EffectiveLimit = 1, sp_Timerange = ex_range, Count = 1\<rparr> :: SegmentPage"
  have ws: "SegmentPageToAPI ?page = [SegmentToAPI ex_segment]" by (simp add: SegmentPageToAPI_def RegisterAcceptedToAPI_def)
  have "case projectSegmentURLs (sv_objects ex_server) ?page [SegmentToAPI ex_segment] (Some False) of Ok out \<Rightarrow> True | _ \<Rightarrow> False"
    by code_simp
  then obtain out where out: "projectSegmentURLs (sv_objects ex_server) ?page [SegmentToAPI ex_segment] (Some False) = Ok out"
    by (auto split: res.splits)
  have "list_all2 (\<lambda>sg w. list_all (url_fits (Some False) sg) (urls_of w)) [ex_segment] out" "length out = 1"
    using url_projection [of "sv_objects ex_server" ?page "Some False" out] out ws by (auto elim: list_all2_mono)
  then show ?thesis by (auto simp: out list_all2_Cons1 url_fits_def list_all_iff)
qed

end
