(* ===== verification/Storage_Service.thy ===== *)
theory Storage_Service
  imports Flow_Store Object_Store Problem Meta_Listing Examples
begin

text \<open>
  Storage allocation: the service of \<^verbatim>\<open>internal/service/storage/storage.go\<close> and the handler of
  \<^verbatim>\<open>internal/httpx/handlers/storage.go\<close>. \<open>fresh\<close> gives the ids that \<^verbatim>\<open>uuid.New\<close> makes, call by call.
  Each call of the store runs on its own, so \<open>envs\<close> gives its faults: call 0 reads the flow, call
  \<open>i + 1\<close> looks up the object \<open>i\<close>. The counters of \<^verbatim>\<open>observe\<close> are left out.
\<close>

definition MaxAllocate :: int where
  "MaxAllocate = 100"

record AllocateRequest =
  al_Limit :: "int option"
  al_ObjectIDs :: "string list"

record MediaObject =
  mo_ObjectID :: string
  mo_PutURL :: string
  mo_ContentType :: string

definition validateAllocateSize :: "AllocateRequest \<Rightarrow> unit res" where
  "validateAllocateSize req =
     rbind (case al_Limit req of
         None \<Rightarrow> Ok ()
       | Some n \<Rightarrow>
           if n < 1 then Err (New SchemaValidation [Lit ''limit must be at least 1, got '', D n])
           else if n > MaxAllocate then
             Err (New SchemaValidation [Lit ''limit must not exceed '', D MaxAllocate, Lit '', got '', D n])
           else Ok ()) (\<lambda>_.
     if int (length (al_ObjectIDs req)) > MaxAllocate then
       Err (New SchemaValidation [Lit ''object_ids must not exceed '', D MaxAllocate, Lit '' entries, got '',
         D (int (length (al_ObjectIDs req)))])
     else Ok ())"

fun mint_loop :: "S3Store \<Rightarrow> (nat \<Rightarrow> string) \<Rightarrow> string \<Rightarrow> nat \<Rightarrow> nat \<Rightarrow> MediaObject list res" where
  "mint_loop obj fresh contentType i 0 = Ok []"
| "mint_loop obj fresh contentType i (Suc n) =
     rbind (GenerateUploadURL obj (fresh i) contentType) (\<lambda>putURL.
     rbind (mint_loop obj fresh contentType (Suc i) n) (\<lambda>rest.
     Ok (\<lparr>mo_ObjectID = fresh i, mo_PutURL = putURL, mo_ContentType = contentType\<rparr> # rest)))"

fun presign_loop ::
    "(nat \<Rightarrow> db_env) \<Rightarrow> S3Store \<Rightarrow> string \<Rightarrow> nat \<Rightarrow> string list \<Rightarrow> MediaObject list tx" where
  "presign_loop envs obj contentType i [] = tret []"
| "presign_loop envs obj contentType i (objectID # ids) =
     tbind (IsObjectRegistered (envs (Suc i)) objectID) (\<lambda>registered.
     if registered then
       tfail (New ObjectIDExists [Lit ''object_id already registered as a segment: '', S objectID])
     else
       tbind (tlift (GenerateUploadURL obj objectID contentType)) (\<lambda>putURL.
       tbind (presign_loop envs obj contentType (Suc i) ids) (\<lambda>rest.
       tret (\<lparr>mo_ObjectID = objectID, mo_PutURL = putURL, mo_ContentType = contentType\<rparr> # rest))))"

definition AllocateStorage ::
    "(nat \<Rightarrow> db_env) \<Rightarrow> S3Store \<Rightarrow> (nat \<Rightarrow> string) \<Rightarrow> uuid \<Rightarrow> AllocateRequest \<Rightarrow> MediaObject list tx" where
  "AllocateStorage envs obj fresh flowID req =
     tbind (GetFlow (envs 0) flowID) (\<lambda>fl.
     if fl_ReadOnly fl then tfail (New ReadOnlyCode [Lit ''flow is read-only''])
     else
       tbind (tlift (validateAllocateSize req)) (\<lambda>_.
       let contentType = (case fl_Codec fl of None \<Rightarrow> ''application/octet-stream'' | Some c \<Rightarrow> c)
       in case al_Limit req of
            Some n \<Rightarrow> tlift (mint_loop obj fresh contentType 0 (nat n))
          | None \<Rightarrow> presign_loop envs obj contentType 0 (al_ObjectIDs req)))"

section \<open>The handler\<close>

record storage_body =
  sb_Limit :: "int option"
  sb_ObjectIds :: "string list option"

record storage_entry =
  sn_ObjectId :: string
  sn_Url :: string
  sn_ContentType :: "string option"

datatype StorageResponse =
    Storage201 "storage_entry list" | Storage400 api_ProblemDetails | Storage404 api_ProblemDetails

definition isNotFound :: "go_error \<Rightarrow> bool" where
  "isNotFound err = (case errors_As err of Some (code, status, detail) \<Rightarrow> code = NotFound | None \<Rightarrow> False)"

definition PostFlowStorage ::
    "libs \<Rightarrow> (nat \<Rightarrow> db_env) \<Rightarrow> S3Store \<Rightarrow> (nat \<Rightarrow> string) \<Rightarrow> string \<Rightarrow> storage_body option \<Rightarrow> StorageResponse tx" where
  "PostFlowStorage l envs obj fresh flowId body = (\<lambda>d.
     case uuid_Parse l flowId of
       None \<Rightarrow> (Ok (Storage404 zeroProblem), d)
     | Some flowID \<Rightarrow>
         (case body of
            None \<Rightarrow> (Ok (Storage400 zeroProblem), d)
          | Some b \<Rightarrow>
              let hasLimit = sb_Limit b \<noteq> None;
                  hasIDs = (case sb_ObjectIds b of None \<Rightarrow> False | Some ids \<Rightarrow> length ids > 0)
              in if hasLimit = hasIDs then (Ok (Storage400 zeroProblem), d)
                 else
                   (case AllocateStorage envs obj fresh flowID
                           \<lparr>al_Limit = sb_Limit b, al_ObjectIDs = (if hasIDs then the (sb_ObjectIds b) else [])\<rparr> d of
                      (Panic p, d1) \<Rightarrow> (Panic p, d1)
                    | (Err err, d1) \<Rightarrow> (if isNotFound err then Ok (Storage404 zeroProblem) else Err err, d1)
                    | (Ok objs, d1) \<Rightarrow>
                        (Ok (Storage201 (map (\<lambda>ob. \<lparr>sn_ObjectId = mo_ObjectID ob, sn_Url = mo_PutURL ob,
                           sn_ContentType = (if mo_ContentType ob \<noteq> [] then Some (mo_ContentType ob) else None)\<rparr>) objs)), d1))))"

section \<open>What an allocation gives\<close>

lemma mint_loop_ids: "mint_loop obj fresh ct i n = Ok objs \<Longrightarrow> map mo_ObjectID objs = map fresh [i..<i + n]"
proof (induction obj fresh ct i n arbitrary: objs rule: mint_loop.induct)
  case (2 obj fresh ct i n)
  then show ?case by (auto simp: res_simps upt_conv_Cons simp del: upt_Suc)
qed simp

lemma IsObjectRegistered_Ok:
  "IsObjectRegistered env oid d = (Ok b, d') \<Longrightarrow> d' = d \<and> (b \<longleftrightarrow> references d oid \<noteq> 0)"
  by (auto simp: IsObjectRegistered_def tx_simps references_def count_list_0_iff split: option.splits)

lemma presign_loop_Ok:
  "presign_loop envs obj ct i ids d = (Ok objs, d') \<Longrightarrow>
    d' = d \<and> map mo_ObjectID objs = ids \<and> (\<forall>x \<in> set ids. references d x = 0)"
proof (induction envs obj ct i ids arbitrary: objs d d' rule: presign_loop.induct)
  case (2 envs obj ct i x ids)
  from "2.prems" obtain b d1 where reg: "IsObjectRegistered (envs (Suc i)) x d = (Ok b, d1)" by (auto simp: tx_simps)
  from IsObjectRegistered_Ok [OF reg] have d1: "d1 = d" "b \<longleftrightarrow> references d x \<noteq> 0" by auto
  have b: "\<not> b" using "2.prems" reg by (auto simp: tx_simps)
  from "2.prems" reg b d1 obtain url rest d2 where
    rest: "presign_loop envs obj ct (Suc i) ids d = (Ok rest, d2)" "d' = d2"
      "objs = \<lparr>mo_ObjectID = x, mo_PutURL = url, mo_ContentType = ct\<rparr> # rest"
    by (auto simp: tx_simps)
  then show ?case using "2.IH" [OF b rest(1)] d1(2) b by simp
qed (simp add: tx_simps)

lemma GetFlow_Ok:
  assumes "GetFlow env fid d = (Ok fl, d')"
  shows "d' = d" "\<exists>r. rows_find f_id fid (flows d) = Some r \<and> fl_ReadOnly fl = f_read_only r \<and> fl_Codec fl = f_codec r"
proof -
  have "reads_only (GetFlow env fid)"
    unfolding GetFlow_def by (auto intro!: unchanged.rules split: option.split)
  then show "d' = d" using assms by (metis tx_rel_def snd_conv)
  show "\<exists>r. rows_find f_id fid (flows d) = Some r \<and> fl_ReadOnly fl = f_read_only r \<and> fl_Codec fl = f_codec r"
    using assms by (auto simp: GetFlow_def tx_simps scanFlowBase_def split: option.splits)
qed

text \<open>C25: An allocation that succeeds writes nothing, is for a flow that exists and is not read-only, and gives
  at most a hundred objects: in one mode as many fresh ids as asked, in the other exactly the
  requested ids, none of which a segment names.\<close>

theorem allocate_storage_exact:
  assumes "AllocateStorage envs obj fresh fid req d = (Ok objs, d')"
  shows "d' = d \<and> writable fid d \<and> length objs \<le> 100 \<and>
    (case al_Limit req of
       Some n \<Rightarrow> 1 \<le> n \<and> map mo_ObjectID objs = map fresh [0..<nat n]
     | None \<Rightarrow> map mo_ObjectID objs = al_ObjectIDs req \<and> list_all (\<lambda>x. references d x = 0) (al_ObjectIDs req))"
proof -
  from assms obtain fl d1 where fl: "GetFlow (envs 0) fid d = (Ok fl, d1)" by (auto simp: AllocateStorage_def tx_simps)
  from GetFlow_Ok [OF fl] obtain r where r: "d1 = d" "rows_find f_id fid (flows d) = Some r" "fl_ReadOnly fl = f_read_only r" by auto
  have ro: "\<not> fl_ReadOnly fl" and size: "validateAllocateSize req = Ok ()"
    using assms fl by (auto simp: AllocateStorage_def tx_simps split: if_splits)
  have w: "writable fid d" using r ro by (simp add: writable_def)
  show ?thesis
  proof (cases "al_Limit req")
    case (Some n)
    then have n: "1 \<le> n" "n \<le> 100" using size by (auto simp: validateAllocateSize_def res_simps MaxAllocate_def split: if_splits)
    from assms fl ro r(1) Some obtain ct where "mint_loop obj fresh ct 0 (nat n) = Ok objs" "d' = d"
      by (auto simp: AllocateStorage_def tx_simps Let_def)
    then show ?thesis using mint_loop_ids [of obj fresh ct 0 "nat n" objs] n w Some by (auto dest: arg_cong [of _ _ length])
  next
    case None
    then have n: "length (al_ObjectIDs req) \<le> 100" using size by (auto simp: validateAllocateSize_def res_simps MaxAllocate_def split: if_splits)
    from assms fl ro r(1) None obtain ct where "presign_loop envs obj ct 0 (al_ObjectIDs req) d = (Ok objs, d')"
      by (auto simp: AllocateStorage_def tx_simps Let_def)
    from presign_loop_Ok [OF this] n w None show ?thesis by (auto simp: list_all_iff dest: arg_cong [of _ _ length])
  qed
qed

definition ex_presigner :: presigner where
  "ex_presigner = \<lparr>PresignGetObject = (\<lambda>b k. Ok (''https://get/'' @ k)), PresignPutObject = (\<lambda>b k ct. Ok (''https://put/'' @ k))\<rparr>"

definition ex_bucket :: S3Store where
  "ex_bucket = \<lparr>st_bucket = ''b'', st_presign = Some ex_presigner,
     st_backend = \<lparr>bi_StorageID = [], bi_Provider = ''aws'', bi_Region = ''r1'', bi_StoreProduct = ''s3''\<rparr>\<rparr>"

theorem allocate_storage_exact_witness:
  "case AllocateStorage (\<lambda>_. ex_env) ex_bucket (\<lambda>i. ''id'' @ dec i) ''f1'' \<lparr>al_Limit = Some 2, al_ObjectIDs = []\<rparr> ex_db of
     (Ok objs, d') \<Rightarrow> d' = ex_db \<and> length objs \<le> 100 | _ \<Rightarrow> False"
proof -
  let ?run = "AllocateStorage (\<lambda>_. ex_env) ex_bucket (\<lambda>i. ''id'' @ dec i) ''f1'' \<lparr>al_Limit = Some 2, al_ObjectIDs = []\<rparr> ex_db"
  have "case fst ?run of Ok objs \<Rightarrow> True | _ \<Rightarrow> False" by code_simp
  then obtain objs where "?run = (Ok objs, snd ?run)" by (cases "fst ?run") (auto simp: prod_eq_iff)
  with allocate_storage_exact [OF this] show ?thesis by (auto split: prod.splits)
qed

end
