(* ===== verification/Flow_Handlers.thy ===== *)
theory Flow_Handlers
  imports Storage_Service Flow_Properties Segment_Handlers "HOL-Library.AList"
begin

text \<open>
  The flow service of \<^verbatim>\<open>internal/service/flow/flow.go\<close> (\<open>svc_\<close>) and the flow endpoints of
  \<^verbatim>\<open>internal/httpx/handlers/flows.go\<close> (\<open>h_\<close>). A flow is answered as the JSON document that
  \<^verbatim>\<open>mapFlowToAPI\<close> builds. The counters of \<^verbatim>\<open>observe\<close> and the log lines are left out; the
  empty problem documents of the 400 and 404 answers carry nothing, so the responses are plain constructors.
\<close>

section \<open>The flow service\<close>

definition Contains :: "string \<Rightarrow> string \<Rightarrow> bool" where
  "Contains s sub = list_ex (\<lambda>i. HasPrefix (drop i s) sub) [0..<Suc (length s)]"

record video_parameters =
  vp_VFR :: "bool option"
  vp_FrameRate :: "json option"

definition dec_opt_bool :: "json \<Rightarrow> bool option option" where
  "dec_opt_bool j = (case j of JNull \<Rightarrow> Some None | JBool b \<Rightarrow> Some (Some b) | _ \<Rightarrow> None)"

definition dec_video :: "json \<Rightarrow> video_parameters option" where
  "dec_video = decode_object [''vfr'', ''frame_rate'']
     (\<lambda>f j v. if f = ''vfr'' then map_option (\<lambda>b. v\<lparr>vp_VFR := b\<rparr>) (dec_opt_bool j) else Some (v\<lparr>vp_FrameRate := Some j\<rparr>))
     \<lparr>vp_VFR = None, vp_FrameRate = None\<rparr>"

definition validateVideoFlow :: "Flow \<Rightarrow> unit res" where
  "validateVideoFlow f =
     (case fl_EssenceParameters f of
        None \<Rightarrow> Ok ()
      | Some j \<Rightarrow>
          if \<not> Contains (fl_Format f) ''video'' then Ok ()
          else case dec_video j of
            None \<Rightarrow> Err (New SchemaValidation [Lit ''essence_parameters: invalid JSON''])
          | Some ep \<Rightarrow>
              let hasFrameRate = vp_FrameRate ep \<noteq> None
              in if vp_VFR ep \<noteq> Some True \<and> \<not> hasFrameRate then
                   Err (New VFRFrameRateConflict [Lit ''frame_rate required when vfr is false or absent for video flows''])
                 else if vp_VFR ep = Some True \<and> hasFrameRate then
                   Err (New VFRFrameRateConflict [Lit ''frame_rate must not be set when vfr is true''])
                 else Ok ())"

definition svc_UpsertFlow :: "db_env \<Rightarrow> Flow \<Rightarrow> bool tx" where
  "svc_UpsertFlow env f = tbind (tlift (validateVideoFlow f)) (\<lambda>_. UpsertFlow env f)"

definition svc_GetFlow :: "db_env \<Rightarrow> uuid \<Rightarrow> bool \<Rightarrow> TimeRange option \<Rightarrow> Flow tx" where
  "svc_GetFlow env fid includeTimerange trFilter =
     tbind (GetFlow env fid) (\<lambda>f.
     if includeTimerange then
       tbind (GetFlowTimerange env fid) (\<lambda>tr. case tr of
          None \<Rightarrow> tret f
        | Some s \<Rightarrow>
            (case trFilter of
               None \<Rightarrow> tret (f\<lparr>fl_Timerange := Some s\<rparr>)
             | Some w \<Rightarrow>
                 tlift (rbind (Parse s) (\<lambda>computed. rbind (Intersect computed w) (\<lambda>result.
                   rbind (TimeRange_String result) (\<lambda>str. Ok (f\<lparr>fl_Timerange := Some str\<rparr>)))))))
     else tret f)"

definition svc_ListFlows :: "libs \<Rightarrow> db_env \<Rightarrow> ListFlowsParams \<Rightarrow> FlowPage tx" where
  "svc_ListFlows l env p = ListFlows l env p"

definition svc_DeleteFlow :: "db_env \<Rightarrow> uuid \<Rightarrow> unit tx" where
  "svc_DeleteFlow env fid = DeleteFlow env fid"

section \<open>Bodies\<close>

record api_collection =
  ac_ID :: uuid
  ac_Role :: "string option"
  ac_CM :: "json option"

record apiFlowBase =
  ab_ID :: uuid
  ab_SourceID :: uuid
  ab_Format :: string
  ab_Codec :: "string option"
  ab_Container :: "string option"
  ab_Label :: "string option"
  ab_Description :: "string option"
  ab_Tags :: tagset
  ab_EssenceParameters :: "json option"
  ab_ContainerMapping :: "json option"
  ab_FlowCollection :: "api_collection list"
  ab_AvgBitRate :: "int option"
  ab_MaxBitRate :: "int option"
  ab_Generation :: "int option"
  ab_MetadataVersion :: "string option"
  ab_ReadOnly :: "bool option"

text \<open>A UUID decodes from a string only; \<^verbatim>\<open>null\<close> is an error for a text unmarshaler.\<close>

definition dec_uuid :: "libs \<Rightarrow> json \<Rightarrow> uuid option" where
  "dec_uuid l j = (case j of JStr s \<Rightarrow> uuid_Parse l s | _ \<Rightarrow> None)"

definition dec_tags :: "json \<Rightarrow> tagset \<Rightarrow> tagset option" where
  "dec_tags j old =
     (case j of
        JNull \<Rightarrow> Some []
      | JObj ms \<Rightarrow> Some (foldl (\<lambda>t (k, v). AList.update k v t) old ms)
      | _ \<Rightarrow> None)"

definition dec_collection :: "libs \<Rightarrow> json \<Rightarrow> api_collection list option" where
  "dec_collection l j =
     (case j of
        JNull \<Rightarrow> Some []
      | JArr js \<Rightarrow> all_Some (map (decode_object [''id'', ''role'', ''container_mapping'']
          (\<lambda>f v c. if f = ''id'' then map_option (\<lambda>u. c\<lparr>ac_ID := u\<rparr>) (dec_uuid l v)
                    else if f = ''role'' then map_option (\<lambda>r. c\<lparr>ac_Role := r\<rparr>) (dec_opt_string v)
                    else Some (c\<lparr>ac_CM := Some v\<rparr>))
          \<lparr>ac_ID = uuid_Nil, ac_Role = None, ac_CM = None\<rparr>) js)
      | _ \<Rightarrow> None)"

definition base_fields :: "string list" where
  "base_fields = [''id'', ''source_id'', ''format'', ''codec'', ''container'', ''label'', ''description'', ''tags'',
     ''essence_parameters'', ''container_mapping'', ''flow_collection'', ''avg_bit_rate'', ''max_bit_rate'',
     ''generation'', ''metadata_version'', ''read_only'']"

definition dec_base_field :: "libs \<Rightarrow> string \<Rightarrow> json \<Rightarrow> apiFlowBase \<Rightarrow> apiFlowBase option" where
  "dec_base_field l f j b =
     (if f = ''id'' then map_option (\<lambda>v. b\<lparr>ab_ID := v\<rparr>) (dec_uuid l j)
      else if f = ''source_id'' then map_option (\<lambda>v. b\<lparr>ab_SourceID := v\<rparr>) (dec_uuid l j)
      else if f = ''format'' then map_option (\<lambda>v. b\<lparr>ab_Format := v\<rparr>) (dec_string j (ab_Format b))
      else if f = ''codec'' then map_option (\<lambda>v. b\<lparr>ab_Codec := v\<rparr>) (dec_opt_string j)
      else if f = ''container'' then map_option (\<lambda>v. b\<lparr>ab_Container := v\<rparr>) (dec_opt_string j)
      else if f = ''label'' then map_option (\<lambda>v. b\<lparr>ab_Label := v\<rparr>) (dec_opt_string j)
      else if f = ''description'' then map_option (\<lambda>v. b\<lparr>ab_Description := v\<rparr>) (dec_opt_string j)
      else if f = ''tags'' then map_option (\<lambda>v. b\<lparr>ab_Tags := v\<rparr>) (dec_tags j (ab_Tags b))
      else if f = ''essence_parameters'' then Some (b\<lparr>ab_EssenceParameters := Some j\<rparr>)
      else if f = ''container_mapping'' then Some (b\<lparr>ab_ContainerMapping := Some j\<rparr>)
      else if f = ''flow_collection'' then map_option (\<lambda>v. b\<lparr>ab_FlowCollection := v\<rparr>) (dec_collection l j)
      else if f = ''avg_bit_rate'' then map_option (\<lambda>v. b\<lparr>ab_AvgBitRate := v\<rparr>) (dec_opt_int j)
      else if f = ''max_bit_rate'' then map_option (\<lambda>v. b\<lparr>ab_MaxBitRate := v\<rparr>) (dec_opt_int j)
      else if f = ''generation'' then map_option (\<lambda>v. b\<lparr>ab_Generation := v\<rparr>) (dec_opt_int j)
      else if f = ''metadata_version'' then map_option (\<lambda>v. b\<lparr>ab_MetadataVersion := v\<rparr>) (dec_opt_string j)
      else map_option (\<lambda>v. b\<lparr>ab_ReadOnly := v\<rparr>) (dec_opt_bool j))"

definition zeroBase :: apiFlowBase where
  "zeroBase = \<lparr>ab_ID = uuid_Nil, ab_SourceID = uuid_Nil, ab_Format = [], ab_Codec = None, ab_Container = None,
     ab_Label = None, ab_Description = None, ab_Tags = [], ab_EssenceParameters = None, ab_ContainerMapping = None,
     ab_FlowCollection = [], ab_AvgBitRate = None, ab_MaxBitRate = None, ab_Generation = None,
     ab_MetadataVersion = None, ab_ReadOnly = None\<rparr>"

definition parseFlowBody :: "libs \<Rightarrow> string \<Rightarrow> apiFlowBase option" where
  "parseFlowBody l raw =
     (case json_parse raw of None \<Rightarrow> None | Some j \<Rightarrow> decode_object base_fields (dec_base_field l) zeroBase j)"

definition apiFlowToMetastore :: "uuid \<Rightarrow> apiFlowBase \<Rightarrow> Flow" where
  "apiFlowToMetastore flowID base = \<lparr>fl_ID = flowID, fl_SourceID = ab_SourceID base, fl_Format = ab_Format base,
     fl_Codec = ab_Codec base, fl_Container = ab_Container base, fl_Label = ab_Label base,
     fl_Description = ab_Description base, fl_Tags = ab_Tags base, fl_EssenceParameters = ab_EssenceParameters base,
     fl_ContainerMapping = ab_ContainerMapping base,
     fl_FlowCollection = map (\<lambda>c. \<lparr>ci_ID = ac_ID c, ci_Role = ac_Role c, ci_ContainerMapping = ac_CM c\<rparr>) (ab_FlowCollection base),
     fl_AvgBitRate = ab_AvgBitRate base, fl_MaxBitRate = ab_MaxBitRate base, fl_SegmentDuration = None,
     fl_Generation = ab_Generation base,
     fl_MetadataVersion = (case ab_MetadataVersion base of
        None \<Rightarrow> None
      | Some s \<Rightarrow> (case ParseInt s 64 of (v, None) \<Rightarrow> Some v | (_, Some _) \<Rightarrow> None)),
     fl_ReadOnly = (case ab_ReadOnly base of None \<Rightarrow> False | Some b \<Rightarrow> b),
     fl_Created = time_zero, fl_MetadataUpdated = time_zero, fl_SegmentsUpdated = None, fl_Timerange = None\<rparr>"

text \<open>\<^verbatim>\<open>mapFlowToAPI\<close>: the members in the order of \<^verbatim>\<open>flowCommonJSON\<close>.\<close>

definition collItem :: "CollectionItem \<Rightarrow> json" where
  "collItem ci = JObj ([(''id'', JStr (ci_ID ci))] @
     (case ci_Role ci of None \<Rightarrow> [] | Some r \<Rightarrow> if r = [] then [] else [(''role'', JStr r)]) @
     omit_nil ''container_mapping'' (ci_ContainerMapping ci))"

definition mapFlowToAPI :: "libs \<Rightarrow> Flow \<Rightarrow> json" where
  "mapFlowToAPI l f = JObj
     ([(''id'', JStr (fl_ID f)), (''source_id'', JStr (fl_SourceID f)), (''format'', JStr (fl_Format f))] @
      omit_nil ''codec'' (map_option JStr (fl_Codec f)) @
      omit_nil ''container'' (map_option JStr (fl_Container f)) @
      omit_nil ''label'' (map_option JStr (fl_Label f)) @
      omit_nil ''description'' (map_option JStr (fl_Description f)) @
      (if fl_Tags f = [] then [] else [(''tags'', JObj (fl_Tags f))]) @
      omit_nil ''essence_parameters'' (fl_EssenceParameters f) @
      omit_nil ''container_mapping'' (fl_ContainerMapping f) @
      (if fl_FlowCollection f = [] then [] else [(''flow_collection'', JArr (map collItem (fl_FlowCollection f)))]) @
      omit_nil ''avg_bit_rate'' (map_option (\<lambda>n. JNum (fmt_d n)) (fl_AvgBitRate f)) @
      omit_nil ''max_bit_rate'' (map_option (\<lambda>n. JNum (fmt_d n)) (fl_MaxBitRate f)) @
      omit_nil ''generation'' (map_option (\<lambda>n. JNum (fmt_d n)) (fl_Generation f)) @
      omit_nil ''metadata_version'' (map_option (\<lambda>n. JStr (fmt_d n)) (fl_MetadataVersion f)) @
      [(''read_only'', JBool (fl_ReadOnly f)), (''created'', JStr (time_text l (fl_Created f))),
       (''metadata_updated'', JStr (time_text l (fl_MetadataUpdated f)))] @
      omit_nil ''segments_updated'' (map_option (\<lambda>t. JStr (time_text l t)) (fl_SegmentsUpdated f)) @
      omit_nil ''timerange'' (map_option JStr (fl_Timerange f)))"

section \<open>Flows\<close>

record GetFlowsParams =
  gf_SourceId :: "string option"
  gf_Timerange :: "string option"
  gf_Format :: "string option"
  gf_Codec :: "string option"
  gf_Label :: "string option"
  gf_TagName :: "string option"
  gf_TagExistsName :: "bool option"
  gf_FrameWidth :: "int option"
  gf_FrameHeight :: "int option"
  gf_Page :: "string option"
  gf_Limit :: "int option"
  gf_XRequestID :: "string option"

record listing_headers =
  lh_Limit :: int
  lh_NextKey :: "string option"
  lh_Link :: "string option"

datatype GetFlowsResponse = Flows200 "json list" listing_headers | Flows400 api_ProblemDetails
datatype HeadFlowsResponse = HeadFlows200 listing_headers | HeadFlows400
datatype GetFlowResponse = Flow200 json | Flow404
datatype PutFlowResponse = PutFlow201 json | PutFlow204 | PutFlow400
datatype 'a part_response = Part200 'a | Part204 | Part400 | Part404

definition parseGetFlowsParams :: "libs \<Rightarrow> GetFlowsParams \<Rightarrow> ListFlowsParams res" where
  "parseGetFlowsParams l q =
     (let p = \<lparr>lf_SourceID = (case gf_SourceId q of None \<Rightarrow> None | Some s \<Rightarrow> uuid_Parse l s), lf_Format = gf_Format q,
        lf_Label = gf_Label q, lf_Codec = gf_Codec q, lf_FrameWidth = gf_FrameWidth q, lf_FrameHeight = gf_FrameHeight q,
        lf_Timerange = None, lf_TagExists = [], lf_TagValues = [],
        lf_Limit = (case gf_Limit q of None \<Rightarrow> 100 | Some n \<Rightarrow> if n > 1000 then 1000 else n), lf_PageFrom = gf_Page q\<rparr>
      in case gf_Timerange q of
           None \<Rightarrow> Ok p
         | Some s \<Rightarrow> rbind (Parse s) (\<lambda>tr. Ok (p\<lparr>lf_Timerange := Some tr\<rparr>)))"

definition getFlows400InvalidTimerange :: "string \<Rightarrow> GetFlowsResponse" where
  "getFlows400InvalidTimerange detail =
     Flows400 (problemPtrs (problemType ''invalid-timerange'') ''Bad Request'' detail 400)"

definition listing_of :: "int \<Rightarrow> string option \<Rightarrow> listing_headers" where
  "listing_of limit next_cursor = \<lparr>lh_Limit = limit, lh_NextKey = next_cursor, lh_Link = map_option link_next next_cursor\<rparr>"

definition h_GetFlows :: "libs \<Rightarrow> texts \<Rightarrow> db_env \<Rightarrow> GetFlowsParams \<Rightarrow> GetFlowsResponse tx" where
  "h_GetFlows l tx env q = (\<lambda>d.
     case parseGetFlowsParams l q of
       Panic e \<Rightarrow> (Panic e, d)
     | Err err \<Rightarrow> (Ok (getFlows400InvalidTimerange (''timerange: '' @ error_text tx err)), d)
     | Ok p \<Rightarrow>
         (case svc_ListFlows l env p d of
            (Panic e, d1) \<Rightarrow> (Panic e, d1)
          | (Err err, d1) \<Rightarrow>
              (if errors_Is err ErrOutOfRange then Ok (getFlows400InvalidTimerange (''timerange: '' @ error_text tx err))
               else Err err, d1)
          | (Ok page, d1) \<Rightarrow>
              (Ok (Flows200 (map (mapFlowToAPI l) (fp_Items page)) (listing_of (lf_Limit p) (fp_NextCursor page))), d1)))"

definition h_HeadFlows :: "libs \<Rightarrow> db_env \<Rightarrow> GetFlowsParams \<Rightarrow> HeadFlowsResponse tx" where
  "h_HeadFlows l env q = (\<lambda>d.
     case parseGetFlowsParams l q of
       Panic e \<Rightarrow> (Panic e, d)
     | Err err \<Rightarrow> (Ok HeadFlows400, d)
     | Ok p \<Rightarrow>
         (case svc_ListFlows l env p d of
            (Panic e, d1) \<Rightarrow> (Panic e, d1)
          | (Err err, d1) \<Rightarrow> (if errors_Is err ErrOutOfRange then Ok HeadFlows400 else Err err, d1)
          | (Ok page, d1) \<Rightarrow> (Ok (HeadFlows200 (listing_of (lf_Limit p) (fp_NextCursor page))), d1)))"

definition h_GetFlow :: "libs \<Rightarrow> texts \<Rightarrow> db_env \<Rightarrow> string \<Rightarrow> bool option \<Rightarrow> string option \<Rightarrow> GetFlowResponse tx" where
  "h_GetFlow l tx env flowId incl tr = (\<lambda>d.
     case uuid_Parse l flowId of
       None \<Rightarrow> (Ok Flow404, d)
     | Some fid \<Rightarrow>
         (case (case tr of
              None \<Rightarrow> Ok None
            | Some s \<Rightarrow> rbind (rwrap (\<lambda>e. New InvalidTimerange [Lit ''timerange: '', T e]) (Parse s)) (\<lambda>w. Ok (Some w))) of
            Panic e \<Rightarrow> (Panic e, d)
          | Err err \<Rightarrow> (Err err, d)
          | Ok trFilter \<Rightarrow>
              (case svc_GetFlow env fid (incl = Some True) trFilter d of
                 (Panic e, d1) \<Rightarrow> (Panic e, d1)
               | (Err err, d1) \<Rightarrow> (if isNotFound err then Ok Flow404 else Err err, d1)
               | (Ok f, d1) \<Rightarrow> (Ok (Flow200 (mapFlowToAPI l f)), d1))))"

definition h_PutFlow :: "libs \<Rightarrow> db_env \<Rightarrow> string \<Rightarrow> string \<Rightarrow> PutFlowResponse tx" where
  "h_PutFlow l env flowId raw =
     (case uuid_Parse l flowId of
        None \<Rightarrow> tret PutFlow400
      | Some fid \<Rightarrow>
          (case parseFlowBody l raw of
             None \<Rightarrow> tret PutFlow400
           | Some base \<Rightarrow>
               tbind (svc_UpsertFlow env (apiFlowToMetastore fid base)) (\<lambda>created.
               if \<not> created then tret PutFlow204
               else tbind (svc_GetFlow env fid False None) (\<lambda>stored. tret (PutFlow201 (mapFlowToAPI l stored))))))"

section \<open>Parts of a flow\<close>

text \<open>The common shape of the reads and writes of a part.\<close>

definition flow_part :: "libs \<Rightarrow> db_env \<Rightarrow> string \<Rightarrow> (Flow \<Rightarrow> 'a option) \<Rightarrow> 'a part_response tx" where
  "flow_part l env flowId part = (\<lambda>d.
     case uuid_Parse l flowId of
       None \<Rightarrow> (Ok Part404, d)
     | Some fid \<Rightarrow>
         (case svc_GetFlow env fid False None d of
            (Panic e, d1) \<Rightarrow> (Panic e, d1)
          | (Err err, d1) \<Rightarrow> (if isNotFound err then Ok Part404 else Err err, d1)
          | (Ok f, d1) \<Rightarrow> (case part f of None \<Rightarrow> (Ok Part404, d1) | Some v \<Rightarrow> (Ok (Part200 v), d1))))"

definition write_part :: "libs \<Rightarrow> string \<Rightarrow> (uuid \<Rightarrow> unit tx) \<Rightarrow> unit part_response tx" where
  "write_part l owner op = (\<lambda>d.
     case uuid_Parse l owner of
       None \<Rightarrow> (Ok Part404, d)
     | Some oid \<Rightarrow>
         (case op oid d of
            (Panic e, d1) \<Rightarrow> (Panic e, d1)
          | (Err err, d1) \<Rightarrow> (if isNotFound err then Ok Part404 else Err err, d1)
          | (Ok _, d1) \<Rightarrow> (Ok Part204, d1)))"

definition present :: "'a option \<Rightarrow> unit option" where
  "present v = map_option (\<lambda>_. ()) v"

definition h_HeadFlow :: "libs \<Rightarrow> db_env \<Rightarrow> string \<Rightarrow> unit part_response tx" where
  "h_HeadFlow l env flowId = flow_part l env flowId (\<lambda>f. Some ())"

definition h_DeleteFlow :: "libs \<Rightarrow> db_env \<Rightarrow> string \<Rightarrow> unit part_response tx" where
  "h_DeleteFlow l env flowId = write_part l flowId (svc_DeleteFlow env)"

definition h_GetFlowDescription :: "libs \<Rightarrow> db_env \<Rightarrow> string \<Rightarrow> string part_response tx" where
  "h_GetFlowDescription l env flowId = flow_part l env flowId fl_Description"

definition h_HeadFlowDescription :: "libs \<Rightarrow> db_env \<Rightarrow> string \<Rightarrow> unit part_response tx" where
  "h_HeadFlowDescription l env flowId = flow_part l env flowId (\<lambda>f. present (fl_Description f))"

definition h_PutFlowDescription :: "libs \<Rightarrow> db_env \<Rightarrow> string \<Rightarrow> string \<Rightarrow> unit part_response tx" where
  "h_PutFlowDescription l env flowId body = write_part l flowId (\<lambda>fid. PutFlowDescription env fid body)"

definition h_DeleteFlowDescription :: "libs \<Rightarrow> db_env \<Rightarrow> string \<Rightarrow> unit part_response tx" where
  "h_DeleteFlowDescription l env flowId = write_part l flowId (DeleteFlowDescription env)"

definition h_GetFlowLabel :: "libs \<Rightarrow> db_env \<Rightarrow> string \<Rightarrow> string part_response tx" where
  "h_GetFlowLabel l env flowId = flow_part l env flowId fl_Label"

definition h_HeadFlowLabel :: "libs \<Rightarrow> db_env \<Rightarrow> string \<Rightarrow> unit part_response tx" where
  "h_HeadFlowLabel l env flowId = flow_part l env flowId (\<lambda>f. present (fl_Label f))"

definition h_PutFlowLabel :: "libs \<Rightarrow> db_env \<Rightarrow> string \<Rightarrow> string \<Rightarrow> unit part_response tx" where
  "h_PutFlowLabel l env flowId body = write_part l flowId (\<lambda>fid. PutFlowLabel env fid body)"

definition h_DeleteFlowLabel :: "libs \<Rightarrow> db_env \<Rightarrow> string \<Rightarrow> unit part_response tx" where
  "h_DeleteFlowLabel l env flowId = write_part l flowId (DeleteFlowLabel env)"

definition h_GetFlowTags :: "libs \<Rightarrow> db_env \<Rightarrow> string \<Rightarrow> tagset part_response tx" where
  "h_GetFlowTags l env flowId = flow_part l env flowId (\<lambda>f. Some (fl_Tags f))"

definition h_HeadFlowTags :: "libs \<Rightarrow> db_env \<Rightarrow> string \<Rightarrow> unit part_response tx" where
  "h_HeadFlowTags l env flowId = flow_part l env flowId (\<lambda>f. Some ())"

definition h_GetFlowTag :: "libs \<Rightarrow> db_env \<Rightarrow> string \<Rightarrow> string \<Rightarrow> json part_response tx" where
  "h_GetFlowTag l env flowId name = flow_part l env flowId (\<lambda>f. map_of (fl_Tags f) name)"

definition h_HeadFlowTag :: "libs \<Rightarrow> db_env \<Rightarrow> string \<Rightarrow> string \<Rightarrow> unit part_response tx" where
  "h_HeadFlowTag l env flowId name = flow_part l env flowId (\<lambda>f. present (map_of (fl_Tags f) name))"

definition h_PutFlowTag :: "libs \<Rightarrow> db_env \<Rightarrow> string \<Rightarrow> string \<Rightarrow> json \<Rightarrow> unit part_response tx" where
  "h_PutFlowTag l env flowId name body = write_part l flowId (\<lambda>fid. PutFlowTag env fid name body)"

definition h_DeleteFlowTag :: "libs \<Rightarrow> db_env \<Rightarrow> string \<Rightarrow> string \<Rightarrow> unit part_response tx" where
  "h_DeleteFlowTag l env flowId name = write_part l flowId (\<lambda>fid. DeleteFlowTag env fid name)"

text \<open>The wire form of a collection is the list of its ids and roles; an absent role is the empty text.\<close>

definition h_GetFlowCollection :: "libs \<Rightarrow> db_env \<Rightarrow> string \<Rightarrow> (string \<times> string) list part_response tx" where
  "h_GetFlowCollection l env flowId = flow_part l env flowId (\<lambda>f. Some (map (\<lambda>ci.
     (ci_ID ci, case ci_Role ci of None \<Rightarrow> [] | Some r \<Rightarrow> r)) (fl_FlowCollection f)))"

definition h_HeadFlowCollection :: "libs \<Rightarrow> db_env \<Rightarrow> string \<Rightarrow> unit part_response tx" where
  "h_HeadFlowCollection l env flowId = flow_part l env flowId (\<lambda>f. Some ())"

definition h_PutFlowCollection :: "libs \<Rightarrow> db_env \<Rightarrow> string \<Rightarrow> (string \<times> string) list \<Rightarrow> unit part_response tx" where
  "h_PutFlowCollection l env flowId body =
     (case uuid_Parse l flowId of
        None \<Rightarrow> tret Part404
      | Some _ \<Rightarrow>
          (case all_Some (map (\<lambda>(i, r). map_option (\<lambda>cid.
                 \<lparr>ci_ID = cid, ci_Role = Some r, ci_ContainerMapping = None\<rparr>) (uuid_Parse l i)) body) of
             None \<Rightarrow> tret Part400
           | Some items \<Rightarrow> write_part l flowId (\<lambda>fid. PutFlowCollection env fid items)))"

definition h_DeleteFlowCollection :: "libs \<Rightarrow> db_env \<Rightarrow> string \<Rightarrow> unit part_response tx" where
  "h_DeleteFlowCollection l env flowId = write_part l flowId (DeleteFlowCollection env)"

definition h_GetFlowAvgBitRate :: "libs \<Rightarrow> db_env \<Rightarrow> string \<Rightarrow> int part_response tx" where
  "h_GetFlowAvgBitRate l env flowId = flow_part l env flowId fl_AvgBitRate"

definition h_HeadFlowAvgBitRate :: "libs \<Rightarrow> db_env \<Rightarrow> string \<Rightarrow> unit part_response tx" where
  "h_HeadFlowAvgBitRate l env flowId = flow_part l env flowId (\<lambda>f. present (fl_AvgBitRate f))"

definition h_PutFlowAvgBitRate :: "libs \<Rightarrow> db_env \<Rightarrow> string \<Rightarrow> int \<Rightarrow> unit part_response tx" where
  "h_PutFlowAvgBitRate l env flowId body = write_part l flowId (\<lambda>fid. PutFlowAvgBitRate env fid body)"

definition h_DeleteFlowAvgBitRate :: "libs \<Rightarrow> db_env \<Rightarrow> string \<Rightarrow> unit part_response tx" where
  "h_DeleteFlowAvgBitRate l env flowId = write_part l flowId (DeleteFlowAvgBitRate env)"

definition h_GetFlowMaxBitRate :: "libs \<Rightarrow> db_env \<Rightarrow> string \<Rightarrow> int part_response tx" where
  "h_GetFlowMaxBitRate l env flowId = flow_part l env flowId fl_MaxBitRate"

definition h_HeadFlowMaxBitRate :: "libs \<Rightarrow> db_env \<Rightarrow> string \<Rightarrow> unit part_response tx" where
  "h_HeadFlowMaxBitRate l env flowId = flow_part l env flowId (\<lambda>f. present (fl_MaxBitRate f))"

definition h_PutFlowMaxBitRate :: "libs \<Rightarrow> db_env \<Rightarrow> string \<Rightarrow> int \<Rightarrow> unit part_response tx" where
  "h_PutFlowMaxBitRate l env flowId body = write_part l flowId (\<lambda>fid. PutFlowMaxBitRate env fid body)"

definition h_DeleteFlowMaxBitRate :: "libs \<Rightarrow> db_env \<Rightarrow> string \<Rightarrow> unit part_response tx" where
  "h_DeleteFlowMaxBitRate l env flowId = write_part l flowId (DeleteFlowMaxBitRate env)"

definition h_GetFlowReadOnly :: "libs \<Rightarrow> db_env \<Rightarrow> string \<Rightarrow> bool part_response tx" where
  "h_GetFlowReadOnly l env flowId = flow_part l env flowId (\<lambda>f. Some (fl_ReadOnly f))"

definition h_HeadFlowReadOnly :: "libs \<Rightarrow> db_env \<Rightarrow> string \<Rightarrow> unit part_response tx" where
  "h_HeadFlowReadOnly l env flowId = flow_part l env flowId (\<lambda>f. Some ())"

definition h_PutFlowReadOnly :: "libs \<Rightarrow> db_env \<Rightarrow> string \<Rightarrow> bool \<Rightarrow> unit part_response tx" where
  "h_PutFlowReadOnly l env flowId body = write_part l flowId (\<lambda>fid. PutFlowReadOnly env fid body)"

section \<open>Writes of a whole flow\<close>

lemma svc_UpsertFlow_no_faults:
  "no_faults env \<Longrightarrow> validateVideoFlow f = Ok () \<Longrightarrow> svc_UpsertFlow env f d = upsert_outcome env f d"
  by (simp add: svc_UpsertFlow_def tbind_def tlift_def UpsertFlow_no_faults)

lemma base_simps [simp]:
  "fl_ID (apiFlowToMetastore fid base) = fid" "fl_SourceID (apiFlowToMetastore fid base) = ab_SourceID base"
  "fl_Format (apiFlowToMetastore fid base) = ab_Format base" "fl_Codec (apiFlowToMetastore fid base) = ab_Codec base"
  "fl_Timerange (apiFlowToMetastore fid base) = None"
  by (simp_all add: apiFlowToMetastore_def)

text \<open>C28: The read-only flag guards the parts of a flow, but not the flow: a PUT that keeps source,
  format and codec is accepted and a DELETE succeeds whether or not the flow is read-only. The PUT clears the
  stored time range of the flow and ignores the tags of its body.\<close>

theorem whole_flow_writes_ignore_read_only:
  assumes "no_faults env" "uuid_Parse l flowId = Some fid" "rows_find f_id fid (flows d) = Some r"
    and "parseFlowBody l raw = Some base" "validateVideoFlow (apiFlowToMetastore fid base) = Ok ()"
    and "ab_SourceID base = f_source_id r" "ab_Format base = f_format r" "ab_Codec base = f_codec r"
    and "list_all (\<lambda>ob. int4_ok (o_ref_count ob - 1)) (objects d)"
  shows "fst (h_PutFlow l env flowId raw d) = Ok PutFlow204 \<and>
    map_option f_timerange (rows_find f_id fid (flows (snd (h_PutFlow l env flowId raw d)))) = Some None \<and>
    flow_tags (snd (h_PutFlow l env flowId raw d)) = flow_tags d \<and>
    fst (h_DeleteFlow l env flowId d) = Ok Part204 \<and>
    rows_find f_id fid (flows (snd (h_DeleteFlow l env flowId d))) = None"
proof -
  let ?f = "apiFlowToMetastore fid base"
  have "changeable ?f d" using assms(3,6-8) by (simp add: changeable_def)
  then have put: "h_PutFlow l env flowId raw d = (Ok PutFlow204, updated_flow env ?f d)"
    using assms(2-4)
    by (simp add: h_PutFlow_def tbind_def tret_def svc_UpsertFlow_no_faults [OF assms(1,5)] upsert_outcome_def)
  have row: "rows_find f_id fid (flows (updated_flow env ?f d)) = Some (set_flow env ?f r)"
    using assms(3) by (simp add: updated_flow_def flows_t.lookup_update set_flow_def)
  have refs: "\<not> list_ex (\<lambda>ob. o_id ob \<in> g_object_id ` set (flow_rows fid d) \<and> \<not> int4_ok (o_ref_count ob - 1)) (objects d)"
    using assms(9) by (auto simp: list_all_iff list_ex_iff)
  have del: "DeleteFlow env fid d = (Ok (), deleted_flow fid d)"
    using assms(3) by (simp add: DeleteFlow_def in_tx_no_faults [OF assms(1)] tcall_no_faults [OF assms(1)] tbind_def twrap_def tx_defs
        decrement_refs_def delete_flow_row_def deleted_flow_def Let_def refs)
  show ?thesis
    using put row del assms(2)
    by (simp add: set_flow_def updated_flow_def h_DeleteFlow_def write_part_def svc_DeleteFlow_def
        deleted_flow_def flows_t.lookup_delete)
qed

definition ex_frozen :: db where
  "ex_frozen = ex_store\<lparr>flows := map (\<lambda>r. r\<lparr>f_read_only := True\<rparr>) (flows ex_store)\<rparr>"

theorem whole_flow_writes_ignore_read_only_witness:
  "map f_read_only (flows ex_frozen) = [True] \<and>
    fst (h_PutFlow ex_libs ex_env ''f1'' ''{\"source_id\":\"s1\",\"format\":\"video\"}'' ex_frozen) = Ok PutFlow204 \<and>
    fst (h_DeleteFlow ex_libs ex_env ''f1'' ex_frozen) = Ok Part204"
proof -
  let ?raw = "''{\"source_id\":\"s1\",\"format\":\"video\"}''"
  let ?base = "zeroBase\<lparr>ab_SourceID := ''s1'', ab_Format := ''video''\<rparr>"
  let ?r = "hd (flows ex_frozen)"
  have facts: "map f_read_only (flows ex_frozen) = [True]" "rows_find f_id ''f1'' (flows ex_frozen) = Some ?r"
    "parseFlowBody ex_libs ?raw = Some ?base" "validateVideoFlow (apiFlowToMetastore ''f1'' ?base) = Ok ()"
    "f_source_id ?r = ''s1''" "f_format ?r = ''video''" "f_codec ?r = None"
    "list_all (\<lambda>ob. int4_ok (o_ref_count ob - 1)) (objects ex_frozen)" "uuid_Parse ex_libs ''f1'' = Some ''f1''"
    by code_simp+
  show ?thesis
    using whole_flow_writes_ignore_read_only [OF ex_env_no_faults facts(9,2,3,4)] facts by (simp add: zeroBase_def)
qed

end
