(* ===== verification/Source_Handlers.thy ===== *)
theory Source_Handlers
  imports Flow_Handlers Source_Store
begin

text \<open>
  The source endpoints of \<^verbatim>\<open>internal/httpx/handlers/sources.go\<close> (\<open>h_\<close>), on the source store. The
  empty problem documents of the 404 answers are the constructor \<open>Part404\<close>.
\<close>

record api_Source =
  ao_CollectedBy :: "string list option"
  ao_Created :: "time option"
  ao_CreatedBy :: "string option"
  ao_Description :: "string option"
  ao_Format :: string
  ao_Id :: string
  ao_Label :: "string option"
  ao_SourceCollection :: "(string \<times> string) list option"
  ao_Tags :: "tagset option"
  ao_Updated :: "time option"
  ao_UpdatedBy :: "string option"

record GetSourcesParams =
  gs_Label :: "string option"
  gs_Format :: "string option"
  gs_TagName :: "string option"
  gs_TagExistsName :: "bool option"
  gs_Page :: "string option"
  gs_Limit :: "int option"
  gs_XRequestID :: "string option"

definition parseSourceID :: "libs \<Rightarrow> string \<Rightarrow> uuid option" where
  "parseSourceID l s = uuid_Parse l s"

definition mapSource :: "Source \<Rightarrow> api_Source" where
  "mapSource s = \<lparr>ao_CollectedBy = None, ao_Created = Some (sr_Created s), ao_CreatedBy = None,
     ao_Description = sr_Description s, ao_Format = sr_Format s, ao_Id = sr_ID s, ao_Label = sr_Label s,
     ao_SourceCollection = None, ao_Tags = (if sr_Tags s = [] then None else Some (sr_Tags s)),
     ao_Updated = Some (sr_Updated s), ao_UpdatedBy = None\<rparr>"

definition h_GetSources :: "libs \<Rightarrow> db_env \<Rightarrow> GetSourcesParams \<Rightarrow> (api_Source list \<times> listing_headers) tx" where
  "h_GetSources l env q =
     (let p = \<lparr>ls_Limit = (case gs_Limit q of None \<Rightarrow> 100 | Some n \<Rightarrow> if n > 1000 then 1000 else n),
        ls_PageFrom = gs_Page q, ls_Label = gs_Label q, ls_Format = gs_Format q, ls_TagExists = [], ls_TagValues = []\<rparr>
      in tbind (ListSources l env p) (\<lambda>page.
         tret (map mapSource (sp_Items page), listing_of (ls_Limit p) (sp_NextCursor page))))"

definition h_HeadSources :: "libs \<Rightarrow> db_env \<Rightarrow> GetSourcesParams \<Rightarrow> listing_headers tx" where
  "h_HeadSources l env q =
     (let p = \<lparr>ls_Limit = (case gs_Limit q of None \<Rightarrow> 100 | Some n \<Rightarrow> n), ls_PageFrom = gs_Page q,
        ls_Label = None, ls_Format = None, ls_TagExists = [], ls_TagValues = []\<rparr>
      in tbind (ListSources l env p) (\<lambda>page. tret (listing_of (ls_Limit p) (sp_NextCursor page))))"

definition source_part :: "libs \<Rightarrow> db_env \<Rightarrow> string \<Rightarrow> (Source \<Rightarrow> 'a option) \<Rightarrow> 'a part_response tx" where
  "source_part l env sourceId part = (\<lambda>d.
     case parseSourceID l sourceId of
       None \<Rightarrow> (Ok Part404, d)
     | Some sid \<Rightarrow>
         (case GetSource env sid d of
            (Panic e, d1) \<Rightarrow> (Panic e, d1)
          | (Err err, d1) \<Rightarrow> (if isNotFound err then Ok Part404 else Err err, d1)
          | (Ok s, d1) \<Rightarrow> (case part s of None \<Rightarrow> (Ok Part404, d1) | Some v \<Rightarrow> (Ok (Part200 v), d1))))"

definition h_GetSource :: "libs \<Rightarrow> db_env \<Rightarrow> string \<Rightarrow> api_Source part_response tx" where
  "h_GetSource l env sourceId = source_part l env sourceId (\<lambda>s. Some (mapSource s))"

definition h_HeadSource :: "libs \<Rightarrow> db_env \<Rightarrow> string \<Rightarrow> unit part_response tx" where
  "h_HeadSource l env sourceId = source_part l env sourceId (\<lambda>s. Some ())"

definition h_GetSourceDescription :: "libs \<Rightarrow> db_env \<Rightarrow> string \<Rightarrow> string part_response tx" where
  "h_GetSourceDescription l env sourceId = source_part l env sourceId sr_Description"

definition h_HeadSourceDescription :: "libs \<Rightarrow> db_env \<Rightarrow> string \<Rightarrow> unit part_response tx" where
  "h_HeadSourceDescription l env sourceId = source_part l env sourceId (\<lambda>s. present (sr_Description s))"

definition h_PutSourceDescription :: "libs \<Rightarrow> db_env \<Rightarrow> string \<Rightarrow> string \<Rightarrow> unit part_response tx" where
  "h_PutSourceDescription l env sourceId body = write_part l sourceId (\<lambda>sid. PutSourceDescription env sid body)"

definition h_DeleteSourceDescription :: "libs \<Rightarrow> db_env \<Rightarrow> string \<Rightarrow> unit part_response tx" where
  "h_DeleteSourceDescription l env sourceId = write_part l sourceId (DeleteSourceDescription env)"

definition h_GetSourceLabel :: "libs \<Rightarrow> db_env \<Rightarrow> string \<Rightarrow> string part_response tx" where
  "h_GetSourceLabel l env sourceId = source_part l env sourceId sr_Label"

definition h_HeadSourceLabel :: "libs \<Rightarrow> db_env \<Rightarrow> string \<Rightarrow> unit part_response tx" where
  "h_HeadSourceLabel l env sourceId = source_part l env sourceId (\<lambda>s. present (sr_Label s))"

definition h_PutSourceLabel :: "libs \<Rightarrow> db_env \<Rightarrow> string \<Rightarrow> string \<Rightarrow> unit part_response tx" where
  "h_PutSourceLabel l env sourceId body = write_part l sourceId (\<lambda>sid. PutSourceLabel env sid body)"

definition h_DeleteSourceLabel :: "libs \<Rightarrow> db_env \<Rightarrow> string \<Rightarrow> unit part_response tx" where
  "h_DeleteSourceLabel l env sourceId = write_part l sourceId (DeleteSourceLabel env)"

definition h_GetSourceTags :: "libs \<Rightarrow> db_env \<Rightarrow> string \<Rightarrow> tagset part_response tx" where
  "h_GetSourceTags l env sourceId = source_part l env sourceId (\<lambda>s. Some (sr_Tags s))"

definition h_HeadSourceTags :: "libs \<Rightarrow> db_env \<Rightarrow> string \<Rightarrow> unit part_response tx" where
  "h_HeadSourceTags l env sourceId = source_part l env sourceId (\<lambda>s. Some ())"

definition h_GetSourceTag :: "libs \<Rightarrow> db_env \<Rightarrow> string \<Rightarrow> string \<Rightarrow> json part_response tx" where
  "h_GetSourceTag l env sourceId name = source_part l env sourceId (\<lambda>s. map_of (sr_Tags s) name)"

definition h_HeadSourceTag :: "libs \<Rightarrow> db_env \<Rightarrow> string \<Rightarrow> string \<Rightarrow> unit part_response tx" where
  "h_HeadSourceTag l env sourceId name = source_part l env sourceId (\<lambda>s. present (map_of (sr_Tags s) name))"

definition h_PutSourceTag :: "libs \<Rightarrow> db_env \<Rightarrow> string \<Rightarrow> string \<Rightarrow> json \<Rightarrow> unit part_response tx" where
  "h_PutSourceTag l env sourceId name body = write_part l sourceId (\<lambda>sid. PutSourceTag env sid name body)"

definition h_DeleteSourceTag :: "libs \<Rightarrow> db_env \<Rightarrow> string \<Rightarrow> string \<Rightarrow> unit part_response tx" where
  "h_DeleteSourceTag l env sourceId name = write_part l sourceId (\<lambda>sid. DeleteSourceTag env sid name)"

end
