(* ===== verification/System.thy ===== *)
theory System
  imports Handler_Properties Source_Handlers
begin

text \<open>
  The server as a whole: a request or a background task is one step on the tables, and \<open>system_ok\<close>
  is what holds of them at all times. Every endpoint that writes is a rule of \<open>served\<close>, with any
  arguments, any libraries and any faults.
\<close>

section \<open>The invariant\<close>

definition system_ok :: "db \<Rightarrow> bool" where
  "system_ok d \<longleftrightarrow> store_ok d \<and> rows_unique k_key (idempotency_keys d)"

lemma store_ok_keys [simp]: "store_ok (d\<lparr>idempotency_keys := ks\<rparr>) = store_ok d"
  by (simp add: store_ok_def meta_ok_def ref_covers_def references_def)

section \<open>The tables of the store\<close>

interpretation same_keys: tx_durable "\<lambda>a b. idempotency_keys a = idempotency_keys b"
  by unfold_locales (auto simp: rollback_def)

abbreviation keeps_keys :: "'a tx \<Rightarrow> bool" where
  "keeps_keys \<equiv> tx_rel (\<lambda>a b. idempotency_keys a = idempotency_keys b)"

lemma keys_statements:
  "keeps_keys (upsert_flow_tag fid name v)" "keeps_keys (\<lambda>d. (Ok (), d\<lparr>flow_tags := drop_tag fid name (flow_tags d)\<rparr>))"
  "keeps_keys (upsert_source_tag sid name v)" "keeps_keys (\<lambda>d. (Ok (), d\<lparr>source_tags := drop_tag sid name (source_tags d)\<rparr>))"
  "keeps_keys (clear_collection fid)" "keeps_keys (insert_item fid i ci)" "keeps_keys (exec_flow_update fid f)"
  by (auto simp: tx_rel_def upsert_flow_tag_def upsert_source_tag_def clear_collection_def insert_item_def exec_flow_update_def
      split: option.split)

lemma reads_keys: "reads_only m \<Longrightarrow> keeps_keys m"
  by (auto simp: tx_rel_def)

lemma keys_updateFlowField: "keeps_keys (updateFlowField env fid col f)"
  unfolding updateFlowField_def by (auto intro!: same_keys.rules keys_statements reads_keys [OF flowWritable_reads])

lemma keys_updateSourceField: "keeps_keys (updateSourceField env sid col f)"
proof -
  have "keeps_keys (\<lambda>d. (Ok (if rows_find s_id sid (sources d) = None then 0 else (1::int)),
      d\<lparr>sources := rows_update s_id sid (\<lambda>r. (f r)\<lparr>s_updated := now env\<rparr>) (sources d)\<rparr>))"
    by (simp add: tx_rel_def)
  then show ?thesis unfolding updateSourceField_def by (auto intro!: same_keys.rules)
qed

lemma keys_parts:
  "keeps_keys (PutFlowLabel env fid s)" "keeps_keys (DeleteFlowLabel env fid)"
  "keeps_keys (PutFlowDescription env fid s)" "keeps_keys (DeleteFlowDescription env fid)"
  "keeps_keys (PutFlowAvgBitRate env fid n)" "keeps_keys (DeleteFlowAvgBitRate env fid)"
  "keeps_keys (PutFlowMaxBitRate env fid n)" "keeps_keys (DeleteFlowMaxBitRate env fid)"
  "keeps_keys (PutFlowReadOnly env fid b)" "keeps_keys (PutFlowTag env fid name v)"
  "keeps_keys (DeleteFlowTag env fid name)" "keeps_keys (PutFlowCollection env fid items)"
  "keeps_keys (DeleteFlowCollection env fid)"
  "keeps_keys (PutSourceLabel env sid s)" "keeps_keys (DeleteSourceLabel env sid)"
  "keeps_keys (PutSourceDescription env sid s)" "keeps_keys (DeleteSourceDescription env sid)"
  "keeps_keys (PutSourceTag env sid name v)" "keeps_keys (DeleteSourceTag env sid name)"
  unfolding flow_field_defs PutFlowReadOnly_def PutFlowTag_def DeleteFlowTag_def PutFlowCollection_def DeleteFlowCollection_def
    PutSourceLabel_def DeleteSourceLabel_def PutSourceDescription_def DeleteSourceDescription_def PutSourceTag_def DeleteSourceTag_def
  by (auto intro!: same_keys.rules same_keys.in_tx keys_statements keys_updateFlowField keys_updateSourceField
      reads_keys [OF flowWritable_reads] reads_keys [OF sourceExists_reads] split: option.split)

lemma keys_UpsertFlow: "keeps_keys (UpsertFlow env f)"
  unfolding tx_rel_def
proof
  fix d
  obtain r d' where run: "UpsertFlow env f d = (r, d')" by force
  then have "idempotency_keys d = idempotency_keys d'"
    by (cases rule: UpsertFlow_cases) (simp_all add: created_flow_def updated_flow_def)
  then show "idempotency_keys d = idempotency_keys (snd (UpsertFlow env f d))" by (simp add: run)
qed

lemma keys_DeleteFlow: "keeps_keys (DeleteFlow env fid)"
  unfolding tx_rel_def
proof
  fix d
  obtain r d' where run: "DeleteFlow env fid d = (r, d')" by force
  then have "idempotency_keys d = idempotency_keys d'"
    by (cases rule: DeleteFlow_cases) (simp_all add: deleted_flow_def)
  then show "idempotency_keys d = idempotency_keys (snd (DeleteFlow env fid d))" by (simp add: run)
qed

section \<open>Segments keep the store\<close>

lemma meta_ok_flow_update:
  assumes "meta_ok d" "flow_frame f" "sources d' = sources d" "source_tags d' = source_tags d" "flow_tags d' = flow_tags d"
    "flow_collection d' = flow_collection d" "flows d' = rows_update f_id k f (flows d)"
  shows "meta_ok d'"
proof -
  have ids: "f_id ` set (flows d') = f_id ` set (flows d)"
    using assms(2) by (simp add: assms(7) flow_frame_def rows_update_ids)
  have "format_ok (sources d) (f r) = format_ok (sources d) r" for r
    using assms(2) by (simp add: flow_frame_def format_ok_def cong: option.case_cong)
  then have "list_all (format_ok (sources d)) (rows_update f_id k f (flows d))"
    using assms(1) by (auto simp: meta_ok_def list_all_iff rows_update_def)
  then show ?thesis using assms(1,3-6) ids by (simp add: meta_ok_def assms(7) [symmetric])
qed

lemma span_frame: "flow_frame (\<lambda>r. r\<lparr>f_segments_updated := t, f_timerange := s\<rparr>)"
  by (simp add: flow_frame_def)

lemma InsertSegments_store_ok:
  assumes "store_ok d" "list_all wf_segment (ib_Segments batch)" "InsertSegments env batch d = (r, d')"
  shows "store_ok d'"
proof -
  have ok: "db_ok d" "ref_covers d" "meta_ok d" using assms(1) by (simp_all add: store_ok_def)
  have eff: "store_ok d'" if "insert_effect env batch bounds d d'" "segmentBounds (ib_Segments batch) = Ok bounds" for bounds
  proof -
    have "meta_ok d'"
      using that(1) meta_ok_flow_update [OF ok(3) span_frame] by (auto simp: insert_effect_def)
    then show ?thesis
      using InsertSegments_db_ok [OF ok(1) assms(2,3)] insert_effect_ref_ok(2) [OF ok(1) that] ok(2)
      by (simp add: store_ok_def)
  qed
  from assms(3) show ?thesis
  proof (cases rule: InsertSegments_cases)
    case kept
    then show ?thesis using store_ok_seq [OF assms(1) kept(2)] by simp
  next
    case (lost bounds e)
    then show ?thesis using eff by blast
  next
    case (finished bounds)
    then show ?thesis using eff by blast
  qed
qed

lemma DeleteSegments_store_ok:
  assumes "store_ok d" "DeleteSegmentsByTimerange env q d = (r, d')"
  shows "store_ok d' \<and> idempotency_keys d' = idempotency_keys d"
proof -
  have ok: "db_ok d" "ref_covers d" "meta_ok d" using assms(1) by (simp_all add: store_ok_def)
  have eff: "store_ok d' \<and> idempotency_keys d' = idempotency_keys d" if "delete_effect env q lo hi d d'" for lo hi
  proof -
    have "meta_ok d'" "idempotency_keys d' = idempotency_keys d"
      using that meta_ok_flow_update [OF ok(3) span_frame] by (auto simp: delete_effect_def Let_def)
    then show ?thesis
      using DeleteSegments_db_ok [OF ok(1) assms(2)] delete_effect_ref_ok(2) [OF ok(1) that] ok(2)
      by (simp add: store_ok_def)
  qed
  from assms(2) show ?thesis
  proof (cases rule: DeleteSegments_cases)
    case kept
    then have "idempotency_keys d' = idempotency_keys d" by (metis db.select_convs db.surjective db.update_convs)
    then show ?thesis using store_ok_seq [OF assms(1) kept(2)] kept(1) by simp
  next
    case (lost lo hi e)
    then show ?thesis using eff by blast
  next
    case (finished lo hi)
    then show ?thesis using eff by blast
  qed
qed

section \<open>Keys stay unique\<close>

abbreviation keys_unique :: "db \<Rightarrow> db \<Rightarrow> bool" where
  "keys_unique \<equiv> (\<lambda>a b. rows_unique k_key (idempotency_keys a) \<longrightarrow> rows_unique k_key (idempotency_keys b))"

interpretation unique_keys: tx_durable keys_unique
  by unfold_locales (auto simp: rollback_def)

lemma unique_statements: "tx_rel keys_unique (delete_keys P)" "tx_rel keys_unique (insert_key env key h t)"
proof -
  show "tx_rel keys_unique (delete_keys P)"
    by (auto simp: tx_rel_def delete_keys_def rows_unique_def distinct_map_filter)
  show "tx_rel keys_unique (insert_key env key h t)"
    by (auto simp: tx_rel_def insert_key_def intro!: keys_t.invar_insert)
qed

lemma unique_Complete: "tx_rel keys_unique (Complete env key st b)"
proof -
  have "tx_rel keys_unique (\<lambda>d. if \<not> int4_ok st then (Err encode_error, d) else (Ok (), d\<lparr>idempotency_keys := rows_update k_key key
      (\<lambda>r. r\<lparr>k_in_flight := False, k_response_status := st, k_response_body := b\<rparr>) (idempotency_keys d)\<rparr>))"
    by (auto simp: tx_rel_def intro!: keys_t.invar_update)
  then show ?thesis unfolding Complete_def by (auto intro!: unique_keys.rules)
qed

lemma unique_operations:
  "tx_rel keys_unique (Acquire env clock key h ttl)" "tx_rel keys_unique (Release env key)"
  "tx_rel keys_unique (Prune env)" "tx_rel keys_unique (ReapStale env n)"
  unfolding Acquire_def Release_def Prune_def ReapStale_def
  by (auto intro!: unique_keys.rules unique_keys.in_tx unique_statements split: option.split)

section \<open>Steps\<close>

abbreviation sys_kept :: "db \<Rightarrow> db \<Rightarrow> bool" where
  "sys_kept \<equiv> (\<lambda>a b. system_ok a \<longrightarrow> system_ok b)"

interpretation sys: tx_relation sys_kept
  by unfold_locales auto

lemma store_step: "tx_rel store_kept m \<Longrightarrow> keeps_keys m \<Longrightarrow> tx_rel sys_kept m"
  by (auto simp: tx_rel_def system_ok_def)

lemma key_step: "tx_rel (\<lambda>a b. other_tables a = other_tables b) m \<Longrightarrow> tx_rel keys_unique m \<Longrightarrow> tx_rel sys_kept m"
proof -
  assume a: "tx_rel (\<lambda>a b. other_tables a = other_tables b) m" "tx_rel keys_unique m"
  have other: "store_ok (other_tables d) = store_ok d" for d by (simp add: other_tables_def)
  have "other_tables d = other_tables (snd (m d))" for d using a(1) by (simp add: tx_rel_def)
  then have "store_ok (snd (m d)) = store_ok d" for d
    using other [of d] other [of "snd (m d)"] by simp
  then show ?thesis using a(2) by (auto simp: tx_rel_def system_ok_def)
qed

lemmas key_steps = key_step [OF keys_only_operations(1) unique_operations(1)]
  key_step [OF keys_only_operations(2) unique_Complete] key_step [OF keys_only_operations(3) unique_operations(2)]
  key_step [OF keys_only_operations(4) unique_operations(3)] key_step [OF keys_only_operations(5) unique_operations(4)]

lemma reads_sys: "reads_only m \<Longrightarrow> tx_rel sys_kept m"
  by (auto simp: tx_rel_def)

lemma sys_succeeded: "tx_rel sys_kept m \<Longrightarrow> tx_rel sys_kept (succeeded m)"
  by (auto simp: tx_rel_def succeeded_def split: prod.split res.split)

lemma registerBatch_db:
  "registerBatch (InsertSegments env) cid params d = (r, d') \<Longrightarrow> d' = d \<or> d' = snd (InsertSegments env (sent cid params) d)"
  by (auto simp: registerBatch_def validate_batch_spec sent_def tbind_def twrap_def tx_defs
      split: if_splits prod.splits res.splits)

lemma segment_delete_db:
  "segment_delete (DeleteSegmentsByTimerange env) p d = (r, d') \<Longrightarrow>
   d' = d \<or> d' = snd (DeleteSegmentsByTimerange env
     \<lparr>dq_FlowID = dp_FlowID p, dq_Timerange = dp_Timerange p, dq_ObjectID = dp_ObjectID p\<rparr> d)"
  by (auto simp: segment_delete_def tbind_def twrap_def tx_defs split: prod.splits res.splits)

lemma sys_registerBatch:
  assumes "list_all wf_segment (rp_Segments params)"
  shows "tx_rel sys_kept (registerBatch (InsertSegments env) cid params)"
proof -
  have "system_ok d'" if "system_ok d" "registerBatch (InsertSegments env) cid params d = (r, d')" for d r d'
  proof -
    have "d' = d \<or> d' = snd (InsertSegments env (sent cid params) d)"
      using that(2) by (rule registerBatch_db)
    moreover have "store_ok (snd (InsertSegments env (sent cid params) d))"
      using InsertSegments_store_ok [OF _ sent_bounds(1) [OF assms]] that(1) by (metis prod.collapse system_ok_def)
    ultimately show ?thesis
      using that(1) registerBatch_keys [OF that(2)] by (auto simp: system_ok_def)
  qed
  then show ?thesis by (auto simp: tx_rel_def) (metis prod.collapse)
qed

lemma sys_post_claimed:
  assumes "list_all wf_segment (rp_Segments params)"
  shows "tx_rel sys_kept (post_claimed sv key params)"
  unfolding tx_rel_def
proof (intro allI impI)
  fix d assume d: "system_ok d"
  obtain r d1 where run: "registerBatch (InsertSegments (sv_env sv)) (sv_storage sv) params d = (r, d1)" by force
  have d1: "system_ok d1" using sys_registerBatch [OF assms] d run by (metis tx_relD)
  have "system_ok (snd (tbind (succeeded m) (\<lambda>fin. tret (x, fin)) d1))" if "tx_rel sys_kept m"
    for m and x :: "PostSegmentsResponse res"
  proof -
    have "tx_rel sys_kept (tbind (succeeded m) (\<lambda>fin. tret (x, fin)))"
      by (intro sys.bind sys_succeeded that sys.basic)
    then show ?thesis using d1 by (simp add: tx_rel_def)
  qed
  then show "system_ok (snd (post_claimed sv key params d))"
    using run d1 key_steps by (auto simp: post_claimed_def completeNoBody_def completeWithBody_def Let_def
        split: res.split option.split RegisterOutcome.split)
qed

lemma sys_deferring: "tx_rel sys_kept body \<Longrightarrow> tx_rel sys_kept (deferring env key body)"
proof -
  assume body: "tx_rel sys_kept body"
  have "system_ok (snd (Release env key d1))" if "system_ok d1" for d1
    using key_steps(3) that by (simp add: tx_rel_def)
  then show ?thesis
    using body by (auto simp: tx_rel_def deferring_def split: prod.split res.split)
qed

lemma sys_Post: "tx_rel sys_kept (PostFlowSegments sv req)"
proof (cases rule: PostFlowSegments_split [of sv req])
  case (answered r)
  then show ?thesis using sys.basic(3) by simp
next
  case (claiming raw params)
  from claiming(3) obtain p fid where "body_params raw = Ok p" "params = p\<lparr>rp_FlowID := fid\<rparr>" by blast
  then have wf: "list_all wf_segment (rp_Segments params)" using body_params_wf by simp
  show ?thesis
    unfolding claiming(2) post_acquire_def
  proof (rule sys.bind [OF key_steps(1)])
    fix acq
    show "tx_rel sys_kept (case ar_Status acq of
         StatusAcquired \<Rightarrow> deferring (sv_defer sv) (pq_Key req) (post_claimed sv (pq_Key req) params)
       | StatusInFlight \<Rightarrow> tret (postSegmentsCachedConflict ''idempotency key is already in-flight'')
       | StatusCached \<Rightarrow> tret (cachedPostResponse (ar_Cached acq))
       | StatusConflict \<Rightarrow> tret (postSegmentsCachedConflict ''idempotency key reused with a different request body''))"
      using sys_deferring [OF sys_post_claimed [OF wf]] by (cases "ar_Status acq") (simp_all add: sys.basic)
  qed
qed

lemma sys_DeleteSegments: "tx_rel sys_kept (DeleteFlowSegments sv fid qp)"
proof -
  have del: "system_ok d'" if "system_ok d" "segment_delete (DeleteSegmentsByTimerange env) p d = (r, d')" for env p d r d'
  proof -
    note segment_delete_db [OF that(2)]
    then show ?thesis
      using that(1) DeleteSegments_store_ok by (metis prod.collapse system_ok_def)
  qed
  have "system_ok (snd (DeleteFlowSegments sv fid qp d))" if "system_ok d" for d
    using that del by (auto simp: DeleteFlowSegments_def split: option.split res.split prod.split)
  then show ?thesis by (simp add: tx_rel_def)
qed

lemma sys_write_part:
  assumes "\<And>k. tx_rel store_kept (op k)" "\<And>k. keeps_keys (op k)"
  shows "tx_rel sys_kept (write_part l owner op)"
proof -
  have "system_ok d'" if "system_ok d" "op k d = (r, d')" for k d r d'
    using store_step [OF assms] that by (auto simp: tx_rel_def) (metis snd_conv)
  then show ?thesis by (auto simp: tx_rel_def write_part_def split: option.split res.split prod.split)
qed

lemma svc_GetFlow_reads: "reads_only (svc_GetFlow env fid incl w)"
  unfolding svc_GetFlow_def GetFlow_def GetFlowTimerange_def flowSpan_def
  by (auto intro!: unchanged.rules split: option.split)

lemma sys_PutFlow: "tx_rel sys_kept (h_PutFlow l env fid raw)"
  unfolding h_PutFlow_def svc_UpsertFlow_def
  by (auto intro!: sys.rules store_step [OF UpsertFlow_kept keys_UpsertFlow] reads_sys [OF svc_GetFlow_reads] split: option.split)

section \<open>Runs\<close>

text \<open>One request to an endpoint that writes, or one run of a background task, with its effect on the
  tables. The other endpoints only read.\<close>

inductive served :: "db \<Rightarrow> db \<Rightarrow> bool" where
  post_segments: "served d (snd (PostFlowSegments sv req d))"
| delete_segments: "served d (snd (DeleteFlowSegments sv flowId qp d))"
| put_flow: "served d (snd (h_PutFlow l env flowId raw d))"
| delete_flow: "served d (snd (h_DeleteFlow l env flowId d))"
| put_flow_description: "served d (snd (h_PutFlowDescription l env flowId text d))"
| delete_flow_description: "served d (snd (h_DeleteFlowDescription l env flowId d))"
| put_flow_label: "served d (snd (h_PutFlowLabel l env flowId text d))"
| delete_flow_label: "served d (snd (h_DeleteFlowLabel l env flowId d))"
| put_flow_tag: "served d (snd (h_PutFlowTag l env flowId name v d))"
| delete_flow_tag: "served d (snd (h_DeleteFlowTag l env flowId name d))"
| put_flow_collection: "served d (snd (h_PutFlowCollection l env flowId items d))"
| delete_flow_collection: "served d (snd (h_DeleteFlowCollection l env flowId d))"
| put_flow_avg_bit_rate: "served d (snd (h_PutFlowAvgBitRate l env flowId n d))"
| delete_flow_avg_bit_rate: "served d (snd (h_DeleteFlowAvgBitRate l env flowId d))"
| put_flow_max_bit_rate: "served d (snd (h_PutFlowMaxBitRate l env flowId n d))"
| delete_flow_max_bit_rate: "served d (snd (h_DeleteFlowMaxBitRate l env flowId d))"
| put_flow_read_only: "served d (snd (h_PutFlowReadOnly l env flowId b d))"
| put_source_description: "served d (snd (h_PutSourceDescription l env sourceId text d))"
| delete_source_description: "served d (snd (h_DeleteSourceDescription l env sourceId d))"
| put_source_label: "served d (snd (h_PutSourceLabel l env sourceId text d))"
| delete_source_label: "served d (snd (h_DeleteSourceLabel l env sourceId d))"
| put_source_tag: "served d (snd (h_PutSourceTag l env sourceId name v d))"
| delete_source_tag: "served d (snd (h_DeleteSourceTag l env sourceId name d))"
| prune: "served d (snd (Prune env d))"
| reap: "served d (snd (ReapStale env n d))"

lemmas part_steps = kept_flow_fields kept_flow_parts kept_source_parts keys_parts

lemmas handler_defs = h_PutFlowDescription_def h_DeleteFlowDescription_def h_PutFlowLabel_def h_DeleteFlowLabel_def
  h_PutFlowTag_def h_DeleteFlowTag_def h_DeleteFlowCollection_def h_PutFlowAvgBitRate_def h_DeleteFlowAvgBitRate_def
  h_PutFlowMaxBitRate_def h_DeleteFlowMaxBitRate_def h_PutFlowReadOnly_def h_PutSourceDescription_def
  h_DeleteSourceDescription_def h_PutSourceLabel_def h_DeleteSourceLabel_def h_PutSourceTag_def h_DeleteSourceTag_def

lemma sys_parts:
  "tx_rel sys_kept (h_PutFlowDescription l env k t)" "tx_rel sys_kept (h_DeleteFlowDescription l env k)"
  "tx_rel sys_kept (h_PutFlowLabel l env k t)" "tx_rel sys_kept (h_DeleteFlowLabel l env k)"
  "tx_rel sys_kept (h_PutFlowTag l env k name v)" "tx_rel sys_kept (h_DeleteFlowTag l env k name)"
  "tx_rel sys_kept (h_DeleteFlowCollection l env k)"
  "tx_rel sys_kept (h_PutFlowAvgBitRate l env k n)" "tx_rel sys_kept (h_DeleteFlowAvgBitRate l env k)"
  "tx_rel sys_kept (h_PutFlowMaxBitRate l env k n)" "tx_rel sys_kept (h_DeleteFlowMaxBitRate l env k)"
  "tx_rel sys_kept (h_PutFlowReadOnly l env k b)"
  "tx_rel sys_kept (h_PutSourceDescription l env k t)" "tx_rel sys_kept (h_DeleteSourceDescription l env k)"
  "tx_rel sys_kept (h_PutSourceLabel l env k t)" "tx_rel sys_kept (h_DeleteSourceLabel l env k)"
  "tx_rel sys_kept (h_PutSourceTag l env k name v)" "tx_rel sys_kept (h_DeleteSourceTag l env k name)"
  unfolding handler_defs by (rule sys_write_part; rule part_steps)+

lemma sys_flow:
  "tx_rel sys_kept (h_DeleteFlow l env k)" "tx_rel sys_kept (h_PutFlowCollection l env k items)"
proof -
  show "tx_rel sys_kept (h_DeleteFlow l env k)"
    unfolding h_DeleteFlow_def by (rule sys_write_part) (simp_all add: svc_DeleteFlow_def DeleteFlow_kept keys_DeleteFlow)
  have "tx_rel sys_kept (write_part l k (\<lambda>fid. PutFlowCollection env fid its))" for its
    by (rule sys_write_part; rule part_steps)
  then show "tx_rel sys_kept (h_PutFlowCollection l env k items)"
    unfolding h_PutFlowCollection_def by (simp add: sys.basic split: option.split)
qed

lemma tx_sys: "tx_rel sys_kept m \<Longrightarrow> system_ok d \<Longrightarrow> system_ok (snd (m d))"
  by (simp add: tx_rel_def)

lemmas all_steps = sys_Post sys_DeleteSegments sys_PutFlow sys_flow sys_parts key_steps

lemma served_kept: "served d d' \<Longrightarrow> system_ok d \<Longrightarrow> system_ok d'"
  by (induction rule: served.induct; rule tx_sys, rule all_steps, assumption)

lemma system_ok_empty: "system_ok empty_db"
  using empty_store_ok by (simp add: system_ok_def) (simp add: empty_db_def rows_unique_def)

text \<open>C1: Whatever requests the server serves, in whatever order, with whatever arguments and whatever
  failures of its dependencies, the tables it leaves are consistent: keys are unique, no reference dangles, every
  flow has the format of its source, the stored bounds of a segment are those of its text, no two
  segments of a flow share an instant, and no object is counted less often than segments name it.\<close>

theorem system_consistent:
  assumes "served\<^sup>*\<^sup>* empty_db d"
  shows "system_ok d"
  using assms by (induction rule: rtranclp_induct) (auto intro: served_kept system_ok_empty)

definition ex_put :: string where
  "ex_put = ''{\"source_id\":\"s1\",\"format\":\"video\"}''"

theorem system_consistent_witness:
  "system_ok (snd (PostFlowSegments ex_server ex_post (snd (h_PutFlow ex_libs ex_env ''f1'' ex_put empty_db))))"
proof (rule system_consistent)
  let ?d = "snd (h_PutFlow ex_libs ex_env ''f1'' ex_put empty_db)"
  have "served empty_db ?d" "served ?d (snd (PostFlowSegments ex_server ex_post ?d))"
    by (rule served.put_flow, rule served.post_segments)
  then show "served\<^sup>*\<^sup>* empty_db (snd (PostFlowSegments ex_server ex_post ?d))"
    by (rule rtranclp.rtrancl_into_rtrancl [OF r_into_rtranclp])
qed

end
