(* ===== verification/Timeline.thy ===== *)
theory Timeline
  imports System
begin

text \<open>
  What the store promises its clients, without tables, requests or failures: every flow has a timeline, a set of objects
  placed on disjoint ranges. Objects are added to it and removed from it only while the flow is not read-only, unless the
  whole flow is dropped. \<open>tstep\<close> is the specification and \<open>timeline\<close> the abstraction; every request and every background task is one step of it or none.
\<close>

section \<open>The specification\<close>

record placed =
  pl_lower :: int
  pl_upper :: int
  pl_object :: string

type_synonym timelines = "uuid \<Rightarrow> (bool \<times> placed set) option"

definition clear_of :: "placed \<Rightarrow> placed \<Rightarrow> bool" where
  "clear_of p q \<longleftrightarrow> pl_upper p \<le> pl_lower q \<or> pl_upper q \<le> pl_lower p"

definition within :: "int option \<Rightarrow> int option \<Rightarrow> string option \<Rightarrow> placed \<Rightarrow> bool" where
  "within lo hi oid p \<longleftrightarrow>
     (case lo of None \<Rightarrow> True | Some l \<Rightarrow> l \<le> pl_lower p) \<and>
     (case hi of None \<Rightarrow> True | Some h \<Rightarrow> pl_upper p \<le> h) \<and>
     (case oid of None \<Rightarrow> True | Some k \<Rightarrow> pl_object p = k)"

inductive tstep :: "timelines \<Rightarrow> timelines \<Rightarrow> bool" where
  create: "t fid = None \<Longrightarrow> tstep t (t(fid \<mapsto> (ro, {})))"
| lock: "t fid = Some (ro, X) \<Longrightarrow> tstep t (t(fid \<mapsto> (ro', X)))"
| drop: "t fid = Some x \<Longrightarrow> tstep t (t(fid := None))"
| register: "t fid = Some (False, X) \<Longrightarrow> finite N \<Longrightarrow> \<forall>p \<in> N. pl_lower p < pl_upper p \<Longrightarrow>
    \<forall>p \<in> N. \<forall>q \<in> X. clear_of p q \<Longrightarrow> pairwise clear_of N \<Longrightarrow> tstep t (t(fid \<mapsto> (False, X \<union> N)))"
| remove: "t fid = Some (False, X) \<Longrightarrow> tstep t (t(fid \<mapsto> (False, {p \<in> X. \<not> within lo hi oid p})))"

section \<open>The abstraction\<close>

definition place :: "segments_row \<Rightarrow> placed" where
  "place g = \<lparr>pl_lower = g_lower_ns g, pl_upper = g_upper_ns g, pl_object = g_object_id g\<rparr>"

definition timeline :: "db \<Rightarrow> timelines" where
  "timeline d = (\<lambda>fid. map_option (\<lambda>r. (f_read_only r, place ` {g \<in> set (segments d). g_flow_id g = fid}))
     (rows_find f_id fid (flows d)))"

lemma timeline_empty: "timeline empty_db = Map.empty"
  by (simp add: timeline_def empty_db_def rows_find_def)

lemma timeline_cong: "flows d' = flows d \<Longrightarrow> segments d' = segments d \<Longrightarrow> timeline d' = timeline d"
  by (simp add: timeline_def)

section \<open>Operations that leave the timelines alone\<close>

interpretation tl_same: tx_durable "\<lambda>a b. timeline a = timeline b"
  by unfold_locales (auto simp: rollback_def timeline_def)

abbreviation keeps_timeline :: "'a tx \<Rightarrow> bool" where
  "keeps_timeline \<equiv> tx_rel (\<lambda>a b. timeline a = timeline b)"

lemma timeline_update:
  assumes "\<And>r. f_id (f r) = f_id r" "\<And>r. f_read_only (f r) = f_read_only r"
  shows "timeline (d\<lparr>flows := rows_update f_id k f (flows d)\<rparr>) = timeline d"
  by (auto simp: timeline_def fun_eq_iff flows_t.lookup_update [of f, OF assms(1)] option.map_comp comp_def assms(2))

lemma timeline_exec:
  "(\<And>r. f_id (f r) = f_id r) \<Longrightarrow> (\<And>r. f_read_only (f r) = f_read_only r) \<Longrightarrow> keeps_timeline (exec_flow_update fid f)"
  by (auto simp: tx_rel_def exec_flow_update_def timeline_update)

lemma timeline_statements:
  "keeps_timeline (upsert_flow_tag fid name v)" "keeps_timeline (\<lambda>d. (Ok (), d\<lparr>flow_tags := drop_tag fid name (flow_tags d)\<rparr>))"
  "keeps_timeline (upsert_source_tag sid name v)" "keeps_timeline (\<lambda>d. (Ok (), d\<lparr>source_tags := drop_tag sid name (source_tags d)\<rparr>))"
  "keeps_timeline (clear_collection fid)" "keeps_timeline (insert_item fid i ci)"
  by (auto simp: tx_rel_def upsert_flow_tag_def upsert_source_tag_def clear_collection_def insert_item_def timeline_def
      split: option.split)

lemma reads_timeline: "reads_only m \<Longrightarrow> keeps_timeline m"
  by (auto simp: tx_rel_def)

lemma timeline_updateFlowField:
  assumes "\<And>r. f_id (f r) = f_id r" "\<And>r. f_read_only (f r) = f_read_only r"
  shows "keeps_timeline (updateFlowField env fid col f)"
  unfolding updateFlowField_def
  by (auto intro!: tl_same.rules timeline_exec reads_timeline [OF flowWritable_reads] simp: assms)

lemma timeline_updateSourceField: "keeps_timeline (updateSourceField env sid col f)"
proof -
  have "keeps_timeline (\<lambda>d. (Ok (if rows_find s_id sid (sources d) = None then 0 else (1::int)),
      d\<lparr>sources := rows_update s_id sid (\<lambda>r. (f r)\<lparr>s_updated := now env\<rparr>) (sources d)\<rparr>))"
    by (simp add: tx_rel_def timeline_def)
  then show ?thesis unfolding updateSourceField_def by (auto intro!: tl_same.rules)
qed

lemma timeline_fields:
  "keeps_timeline (PutFlowLabel env fid s)" "keeps_timeline (DeleteFlowLabel env fid)"
  "keeps_timeline (PutFlowDescription env fid s)" "keeps_timeline (DeleteFlowDescription env fid)"
  "keeps_timeline (PutFlowAvgBitRate env fid n)" "keeps_timeline (DeleteFlowAvgBitRate env fid)"
  "keeps_timeline (PutFlowMaxBitRate env fid n)" "keeps_timeline (DeleteFlowMaxBitRate env fid)"
  unfolding flow_field_defs by (rule timeline_updateFlowField; simp)+

lemma timeline_parts:
  "keeps_timeline (PutFlowTag env fid name v)" "keeps_timeline (DeleteFlowTag env fid name)"
  "keeps_timeline (PutFlowCollection env fid items)" "keeps_timeline (DeleteFlowCollection env fid)"
  "keeps_timeline (PutSourceLabel env sid s)" "keeps_timeline (DeleteSourceLabel env sid)"
  "keeps_timeline (PutSourceDescription env sid s)" "keeps_timeline (DeleteSourceDescription env sid)"
  "keeps_timeline (PutSourceTag env sid name v)" "keeps_timeline (DeleteSourceTag env sid name)"
  unfolding PutFlowTag_def DeleteFlowTag_def PutFlowCollection_def DeleteFlowCollection_def
    PutSourceLabel_def DeleteSourceLabel_def PutSourceDescription_def DeleteSourceDescription_def PutSourceTag_def DeleteSourceTag_def
  by (auto intro!: tl_same.rules tl_same.in_tx timeline_statements timeline_exec timeline_updateSourceField
      reads_timeline [OF flowWritable_reads] reads_timeline [OF sourceExists_reads] split: option.split)

lemma key_timeline: "tx_rel (\<lambda>a b. other_tables a = other_tables b) m \<Longrightarrow> keeps_timeline m"
proof -
  assume a: "tx_rel (\<lambda>a b. other_tables a = other_tables b) m"
  have other: "timeline (other_tables d) = timeline d" for d by (simp add: other_tables_def timeline_def)
  from a show ?thesis unfolding tx_rel_def by (metis other)
qed

lemmas key_timelines = keys_only_operations [THEN key_timeline]

section \<open>Operations that make a step\<close>

definition follows :: "db \<Rightarrow> db \<Rightarrow> bool" where
  "follows d d' \<longleftrightarrow> (system_ok d \<longrightarrow> timeline d' = timeline d \<or> tstep (timeline d) (timeline d'))"

lemma followsI: "timeline d' = timeline d \<Longrightarrow> follows d d'" "tstep (timeline d) (timeline d') \<Longrightarrow> follows d d'"
  by (simp_all add: follows_def)

lemma follows_refl [simp]: "follows d d"
  by (simp add: follows_def)

lemma timeline_kept: "d' = d\<lparr>seg_seq := n\<rparr> \<Longrightarrow> timeline d' = timeline d"
  by (simp add: timeline_def)

lemma UpsertFlow_follows:
  assumes "UpsertFlow env f d = (r, d')"
  shows "follows d d'"
proof (cases "system_ok d")
  case ok: True
  from assms show ?thesis
  proof (cases rule: UpsertFlow_cases)
    case kept
    then show ?thesis by (simp add: followsI)
  next
    case created
    then have none: "rows_find f_id (fl_ID f) (flows d) = None" by (simp add: creatable_def)
    then have "\<not> (\<exists>g \<in> set (segments d). g_flow_id g = fl_ID f)"
      using ok by (auto simp: system_ok_def store_ok_def db_ok_def list_all_iff)
    then have "timeline d' = (timeline d)(fl_ID f \<mapsto> (fl_ReadOnly f, {}))"
      using none flows_t.lookup_insert [of "new_flow_row env f" "flows d"]
      by (auto simp: timeline_def created(2) created_flow_def fun_eq_iff new_flow_row_def)
    then show ?thesis using tstep.create [of "timeline d" "fl_ID f"] none by (simp add: followsI timeline_def)
  next
    case updated
    obtain row where row: "rows_find f_id (fl_ID f) (flows d) = Some row"
      using updated(1) by (auto simp: changeable_def split: option.splits)
    have "timeline d' = (timeline d)(fl_ID f \<mapsto> (fl_ReadOnly f, place ` {g \<in> set (segments d). g_flow_id g = fl_ID f}))"
      using row by (auto simp: timeline_def updated(2) updated_flow_def fun_eq_iff flows_t.lookup_update set_flow_def)
    moreover have "timeline d (fl_ID f) = Some (f_read_only row, place ` {g \<in> set (segments d). g_flow_id g = fl_ID f})"
      using row by (simp add: timeline_def)
    ultimately show ?thesis using tstep.lock by (simp add: followsI)
  qed
qed (simp add: follows_def)

lemma DeleteFlow_follows:
  assumes "DeleteFlow env fid d = (r, d')"
  shows "follows d d'"
  using assms
proof (cases rule: DeleteFlow_cases)
  case kept
  then show ?thesis by (simp add: followsI)
next
  case deleted
  then have "timeline d' = (timeline d)(fid := None)"
    by (auto simp: timeline_def deleted_flow_def fun_eq_iff flows_t.lookup_delete intro!: option.map_cong0)
  moreover obtain x where "timeline d fid = Some x" using deleted(1) by (auto simp: timeline_def)
  ultimately show ?thesis using tstep.drop by (simp add: followsI)
qed

lemma PutFlowReadOnly_follows:
  assumes "PutFlowReadOnly env fid b d = (r, d')"
  shows "follows d d'"
proof -
  let ?f = "\<lambda>r. r\<lparr>f_read_only := b, f_metadata_updated := now env\<rparr>"
  have "d' = d \<or> d' = d\<lparr>flows := rows_update f_id fid ?f (flows d)\<rparr>"
    using assms by (auto simp: PutFlowReadOnly_def tbind_def twrap_def tcall_def tx_defs exec_flow_update_def
        split: if_splits option.splits prod.splits res.splits)
  moreover have "follows d (d\<lparr>flows := rows_update f_id fid ?f (flows d)\<rparr>)"
  proof (cases "rows_find f_id fid (flows d)")
    case None
    then have "timeline (d\<lparr>flows := rows_update f_id fid ?f (flows d)\<rparr>) = timeline d"
      by (auto simp: timeline_def fun_eq_iff flows_t.lookup_update)
    then show ?thesis by (rule followsI)
  next
    case (Some row)
    then have "timeline (d\<lparr>flows := rows_update f_id fid ?f (flows d)\<rparr>) =
        (timeline d)(fid \<mapsto> (b, place ` {g \<in> set (segments d). g_flow_id g = fid}))"
      by (auto simp: timeline_def fun_eq_iff flows_t.lookup_update)
    then show ?thesis using tstep.lock [of "timeline d" fid] Some by (simp add: followsI timeline_def)
  qed
  ultimately show ?thesis using followsI(1) by auto
qed

lemma delete_effect_follows:
  assumes "delete_effect env q lo hi d d'"
  shows "follows d d'"
proof -
  let ?fid = "dq_FlowID q"
  let ?on = "\<lambda>d. place ` {g \<in> set (segments d). g_flow_id g = ?fid}"
  obtain span row objs where eff: "segments d' = filter (\<lambda>g. \<not> delete_where q lo hi g) (segments d)"
    "flows d' = rows_update f_id ?fid (\<lambda>r. r\<lparr>f_segments_updated := Some (now env), f_timerange := span\<rparr>) (flows d)"
    "rows_find f_id ?fid (flows d) = Some row" "\<not> f_read_only row"
    using assms by (auto simp: delete_effect_def Let_def)
  have gone: "?on d' = {p \<in> ?on d. \<not> within lo hi (dq_ObjectID q) p}"
    by (auto simp: eff(1) delete_where_def within_def place_def split: option.splits)
  have "timeline d' = (timeline d)(?fid \<mapsto> (False, ?on d'))"
  proof
    fix fid
    have "{g \<in> set (segments d'). g_flow_id g = fid} = {g \<in> set (segments d). g_flow_id g = fid}" if "fid \<noteq> ?fid"
      using that by (auto simp: eff(1) delete_where_def)
    then show "timeline d' fid = ((timeline d)(?fid \<mapsto> (False, ?on d'))) fid"
      using eff(3,4) by (auto simp: timeline_def eff(2) flows_t.lookup_update)
  qed
  moreover have "timeline d ?fid = Some (False, ?on d)" using eff(3,4) by (simp add: timeline_def)
  ultimately show ?thesis using tstep.remove [of "timeline d" ?fid] by (simp add: followsI gone)
qed

lemma new_rows_place:
  "place ` set (new_rows env fid n sbs) = (\<lambda>(sg, b). \<lparr>pl_lower = Lower b, pl_upper = Upper b, pl_object = ObjectID sg\<rparr>) ` set sbs"
proof (induction sbs arbitrary: n)
  case (Cons x sbs)
  then show ?case by (cases x) (simp add: new_rows_Cons, simp add: place_def segment_row_of_def)
qed (simp add: new_rows_def)

lemma new_rows_flow: "g \<in> set (new_rows env fid n sbs) \<Longrightarrow> g_flow_id g = fid"
  by (auto simp: new_rows_def segment_row_of_def)

lemma apart_clear: "apart g h \<Longrightarrow> g_flow_id g = g_flow_id h \<Longrightarrow> clear_of (place g) (place h)"
  by (auto simp: apart_def clear_of_def place_def)

lemma clear_of_sym: "clear_of p q \<Longrightarrow> clear_of q p"
  by (auto simp: clear_of_def)

lemma sorted_clear:
  assumes "sorted_wrt apart xs" "\<forall>g \<in> set xs. g_flow_id g = fid"
  shows "pairwise clear_of (place ` set xs)"
  using assms
proof (induction xs)
  case (Cons x xs)
  then have "clear_of (place x) (place g)" if "g \<in> set xs" for g
    using that by (intro apart_clear) simp_all
  with Cons show ?case by (auto simp: pairwise_insert intro: clear_of_sym)
qed simp

lemma insert_effect_follows:
  assumes "insert_effect env batch bounds d d'"
  shows "follows d d'"
proof (cases "system_ok d")
  case ok: True
  let ?fid = "ib_FlowID batch"
  let ?on = "\<lambda>d. place ` {g \<in> set (segments d). g_flow_id g = ?fid}"
  let ?new = "new_rows env ?fid (seg_seq d) (zip (ib_Segments batch) bounds)"
  have db: "sorted_wrt apart (segments d)" "list_all (\<lambda>g. g_lower_ns g < g_upper_ns g) (segments d)"
    using ok by (auto simp: system_ok_def store_ok_def db_ok_def list_all_iff intro: row_ok_bounds)
  obtain span row where eff: "segments d' = segments d @ ?new"
    "flows d' = rows_update f_id ?fid (\<lambda>r. r\<lparr>f_segments_updated := Some (now env), f_timerange := span\<rparr>) (flows d)"
    "rows_find f_id ?fid (flows d) = Some row" "\<not> f_read_only row"
    using assms unfolding insert_effect_def by (elim exE conjE) simp
  have proper: "\<forall>(sg, b) \<in> set (zip (ib_Segments batch) bounds). \<not> LowerUnbounded b \<and> \<not> UpperUnbounded b \<and> Lower b < Upper b"
    using assms unfolding insert_effect_def by blast
  have sorted: "sorted_wrt apart (segments d')"
    using assms db unfolding insert_effect_def by blast
  have nonempty: "\<forall>p \<in> place ` set ?new. pl_lower p < pl_upper p"
    using proper by (auto simp: new_rows_place)
  have clear: "\<forall>p \<in> place ` set ?new. \<forall>q \<in> ?on d. clear_of p q"
  proof (intro ballI)
    fix p q assume "p \<in> place ` set ?new" "q \<in> ?on d"
    then obtain g h where gh: "g \<in> set ?new" "h \<in> set (segments d)" "g_flow_id h = ?fid" "p = place g" "q = place h" by blast
    then have "apart h g" using sorted by (simp add: eff(1) sorted_wrt_append)
    then have "clear_of (place h) (place g)" using gh(3) new_rows_flow [OF gh(1)] by (simp add: apart_clear)
    then show "clear_of p q" unfolding gh(4,5) by (rule clear_of_sym)
  qed
  have pair: "pairwise clear_of (place ` set ?new)"
    using sorted sorted_clear [of ?new ?fid] new_rows_flow by (auto simp: eff(1) sorted_wrt_append)
  have on: "?on d' = ?on d \<union> place ` set ?new" using new_rows_flow by (auto simp: eff(1))
  have "timeline d' = (timeline d)(?fid \<mapsto> (False, ?on d'))"
  proof
    fix fid
    have "{g \<in> set (segments d'). g_flow_id g = fid} = {g \<in> set (segments d). g_flow_id g = fid}" if "fid \<noteq> ?fid"
      using that new_rows_flow by (auto simp: eff(1))
    then show "timeline d' fid = ((timeline d)(?fid \<mapsto> (False, ?on d'))) fid"
      using eff(3,4) by (auto simp: timeline_def eff(2) flows_t.lookup_update)
  qed
  moreover have "timeline d ?fid = Some (False, ?on d)" using eff(3,4) by (simp add: timeline_def)
  ultimately show ?thesis
    using tstep.register [of "timeline d" ?fid _ "place ` set ?new"] nonempty clear pair by (simp add: followsI on)
qed (simp add: follows_def)

lemma InsertSegments_follows: "InsertSegments env batch d = (r, d') \<Longrightarrow> follows d d'"
  by (cases rule: InsertSegments_cases) (auto intro: followsI timeline_kept insert_effect_follows)

lemma DeleteSegments_follows: "DeleteSegmentsByTimerange env q d = (r, d') \<Longrightarrow> follows d d'"
  by (cases rule: DeleteSegments_cases) (auto intro: followsI timeline_kept delete_effect_follows)

section \<open>Requests\<close>

lemma follows_after:
  "follows d d1 \<Longrightarrow> timeline d2 = timeline d1 \<Longrightarrow> follows d d2"
  "timeline d1 = timeline d \<Longrightarrow> (system_ok d \<Longrightarrow> system_ok d1) \<Longrightarrow> follows d1 d2 \<Longrightarrow> follows d d2"
  by (simp_all add: follows_def)

lemma keeps_timelineD: "keeps_timeline m \<Longrightarrow> timeline (snd (m d)) = timeline d"
  by (simp add: tx_rel_def)

lemma succeeded_timeline: "keeps_timeline m \<Longrightarrow> keeps_timeline (succeeded m)"
  by (auto simp: tx_rel_def succeeded_def split: prod.split res.split) (metis snd_conv)+

lemma bind_follows:
  assumes "\<And>r d'. m d = (r, d') \<Longrightarrow> follows d d'" "\<And>x. keeps_timeline (f x)"
  shows "follows d (snd (tbind m f d))"
proof (cases "m d")
  case (Pair r d1)
  then have "timeline (snd (tbind m f d)) = timeline d1"
    using keeps_timelineD [OF assms(2)] by (auto simp: tbind_def split: res.split)
  then show ?thesis using follows_after(1) [OF assms(1) [OF Pair]] by simp
qed

lemma snd_follows: "follows d (snd (InsertSegments env batch d))" "follows d (snd (DeleteSegmentsByTimerange env q d))"
  using InsertSegments_follows [of env batch d] DeleteSegments_follows [of env q d]
  by (cases "InsertSegments env batch d"; cases "DeleteSegmentsByTimerange env q d"; simp)+

lemma registerBatch_follows:
  assumes "registerBatch (InsertSegments env) cid params d = (r, d')"
  shows "follows d d'"
  using registerBatch_db [OF assms] by (elim disjE) (simp_all add: snd_follows)

lemma post_claimed_follows: "follows d (snd (post_claimed sv key params d))"
proof -
  obtain r d1 where run: "registerBatch (InsertSegments (sv_env sv)) (sv_storage sv) params d = (r, d1)" by force
  have same: "keeps_timeline m \<Longrightarrow> keeps_timeline (tbind (succeeded m) (\<lambda>fin. tret (x, fin)))" for m and x :: "PostSegmentsResponse res"
    by (intro tl_same.bind tl_same.basic succeeded_timeline)
  have "timeline (snd (post_claimed sv key params d)) = timeline d1"
    using run keeps_timelineD [OF same [OF key_timelines(2)]] keeps_timelineD [OF same [OF key_timelines(3)]]
    by (auto simp: post_claimed_def completeNoBody_def completeWithBody_def Let_def
        split: res.split option.split RegisterOutcome.split)
  then show ?thesis using follows_after(1) [OF registerBatch_follows [OF run]] by simp
qed

lemma deferring_follows:
  assumes "\<And>d. follows d (snd (body d))"
  shows "follows d (snd (deferring env key body d))"
proof -
  have "timeline (snd (deferring env key body d)) = timeline (snd (body d))"
    using keeps_timelineD [OF key_timelines(3)] by (auto simp: deferring_def split: prod.split res.split)
  then show ?thesis using follows_after(1) [OF assms] by simp
qed

lemma Post_follows: "follows d (snd (PostFlowSegments sv req d))"
proof (cases rule: PostFlowSegments_split [of sv req])
  case (answered r)
  then show ?thesis by (simp add: tlift_def)
next
  case (claiming raw params)
  obtain ra d1 where acq: "Acquire (sv_idem sv) (sv_clock sv) (pq_Key req) (sv_hash sv raw) (sv_ttl sv) d = (ra, d1)" by force
  have d1: "timeline d1 = timeline d" "system_ok d \<Longrightarrow> system_ok d1"
    using keeps_timelineD [OF key_timelines(1), of "sv_idem sv" "sv_clock sv" "pq_Key req" "sv_hash sv raw" "sv_ttl sv" d]
      tx_sys [OF key_steps(1), of d "sv_idem sv" "sv_clock sv" "pq_Key req" "sv_hash sv raw" "sv_ttl sv"] acq by simp_all
  have "follows d1 (snd (post_acquire sv (pq_Key req) raw params d))"
    using acq deferring_follows [OF post_claimed_follows]
    by (auto simp: post_acquire_def tbind_def tx_defs split: res.split Idempotency.Status.split)
  then show ?thesis unfolding claiming(2) using d1 follows_after(2) by blast
qed

lemma DeleteFlowSegments_follows: "follows d (snd (DeleteFlowSegments sv fid qp d))"
proof -
  have del: "follows d d'" if "segment_delete (DeleteSegmentsByTimerange env) p d = (r, d')" for env p d r d'
    using segment_delete_db [OF that] by (elim disjE) (simp_all add: snd_follows)
  have "snd (DeleteFlowSegments sv fid qp d) = d \<or>
    (\<exists>p r. segment_delete (DeleteSegmentsByTimerange (sv_env sv)) p d = (r, snd (DeleteFlowSegments sv fid qp d)))"
    by (simp add: DeleteFlowSegments_def split: option.split res.split prod.split) blast
  then show ?thesis using del by auto
qed

lemma write_part_follows:
  assumes "\<And>k r d'. op k d = (r, d') \<Longrightarrow> follows d d'"
  shows "follows d (snd (write_part l owner op d))"
  using assms by (auto simp: write_part_def split: option.split res.split prod.split)

lemma svc_UpsertFlow_follows: "svc_UpsertFlow env f d = (r, d') \<Longrightarrow> follows d d'"
  by (auto simp: svc_UpsertFlow_def tbind_def tlift_def dest: UpsertFlow_follows split: res.splits)

lemma PutFlow_follows: "follows d (snd (h_PutFlow l env fid raw d))"
proof -
  have "keeps_timeline (if \<not> created then tret PutFlow204
      else tbind (svc_GetFlow env k False None) (\<lambda>stored. tret (PutFlow201 (mapFlowToAPI l stored))))" for created k
    by (simp add: tl_same.rules reads_timeline [OF svc_GetFlow_reads])
  then have "follows d (snd (tbind (svc_UpsertFlow env f) (\<lambda>created. if \<not> created then tret PutFlow204
      else tbind (svc_GetFlow env k False None) (\<lambda>stored. tret (PutFlow201 (mapFlowToAPI l stored)))) d))" for f k
    by (rule bind_follows [rotated]) (rule svc_UpsertFlow_follows)
  then show ?thesis by (auto simp: h_PutFlow_def tret_def split: option.split)
qed

lemma part_follows:
  "(\<And>k. keeps_timeline (op k)) \<Longrightarrow> follows d (snd (write_part l owner op d))"
  by (rule write_part_follows, rule followsI(1)) (metis keeps_timelineD snd_conv)

lemma parts_follow:
  "follows d (snd (h_PutFlowDescription l env k t d))" "follows d (snd (h_DeleteFlowDescription l env k d))"
  "follows d (snd (h_PutFlowLabel l env k t d))" "follows d (snd (h_DeleteFlowLabel l env k d))"
  "follows d (snd (h_PutFlowTag l env k name v d))" "follows d (snd (h_DeleteFlowTag l env k name d))"
  "follows d (snd (h_DeleteFlowCollection l env k d))"
  "follows d (snd (h_PutFlowAvgBitRate l env k n d))" "follows d (snd (h_DeleteFlowAvgBitRate l env k d))"
  "follows d (snd (h_PutFlowMaxBitRate l env k n d))" "follows d (snd (h_DeleteFlowMaxBitRate l env k d))"
  "follows d (snd (h_PutSourceDescription l env k t d))" "follows d (snd (h_DeleteSourceDescription l env k d))"
  "follows d (snd (h_PutSourceLabel l env k t d))" "follows d (snd (h_DeleteSourceLabel l env k d))"
  "follows d (snd (h_PutSourceTag l env k name v d))" "follows d (snd (h_DeleteSourceTag l env k name d))"
  unfolding handler_defs by (rule part_follows; rule timeline_fields timeline_parts)+

lemma flow_follows:
  "follows d (snd (h_DeleteFlow l env k d))" "follows d (snd (h_PutFlowReadOnly l env k b d))"
  "follows d (snd (h_PutFlowCollection l env k items d))"
proof -
  show "follows d (snd (h_DeleteFlow l env k d))" "follows d (snd (h_PutFlowReadOnly l env k b d))"
    unfolding h_DeleteFlow_def svc_DeleteFlow_def h_PutFlowReadOnly_def
    by (rule write_part_follows, erule DeleteFlow_follows PutFlowReadOnly_follows)+
  have "follows d (snd (write_part l k (\<lambda>fid. PutFlowCollection env fid its) d))" for its
    by (rule part_follows, rule timeline_parts)
  then show "follows d (snd (h_PutFlowCollection l env k items d))"
    unfolding h_PutFlowCollection_def by (simp add: tret_def split: option.split)
qed

lemmas all_follow = Post_follows DeleteFlowSegments_follows PutFlow_follows flow_follows parts_follow
  followsI(1) [OF keeps_timelineD [OF key_timelines(4)]] followsI(1) [OF keeps_timelineD [OF key_timelines(5)]]

lemma served_follows: "served d d' \<Longrightarrow> follows d d'"
  by (induction rule: served.induct; rule all_follow)

text \<open>C2: The store refines the timelines. The empty tables have none, and whatever request is served on consistent
  tables, with whatever outcome and whatever failures, the timelines change by one step of the specification or not at
  all; so the timelines after any run are reached from none by specified steps.\<close>

theorem timelines_refined:
  "timeline empty_db = Map.empty \<and>
   (system_ok d \<and> served d d' \<longrightarrow> timeline d' = timeline d \<or> tstep (timeline d) (timeline d')) \<and>
   (served\<^sup>*\<^sup>* empty_db d \<longrightarrow> tstep\<^sup>*\<^sup>* Map.empty (timeline d))"
proof -
  have "system_ok d \<and> tstep\<^sup>*\<^sup>* Map.empty (timeline d)" if "served\<^sup>*\<^sup>* empty_db d" for d
    using that
  proof (induction rule: rtranclp_induct)
    case base
    then show ?case by (simp add: timeline_empty system_ok_empty)
  next
    case (step d d')
    then have "timeline d' = timeline d \<or> tstep (timeline d) (timeline d')"
      using served_follows by (simp add: follows_def)
    then show ?case using step by (auto intro: served_kept rtranclp.rtrancl_into_rtrancl)
  qed
  then show ?thesis using served_follows timeline_empty by (auto simp: follows_def)
qed

theorem timelines_refined_witness:
  "tstep\<^sup>*\<^sup>* Map.empty (timeline (snd (PostFlowSegments ex_server ex_post (snd (h_PutFlow ex_libs ex_env ''f1'' ex_put empty_db)))))"
proof (rule timelines_refined [THEN conjunct2, THEN conjunct2, rule_format])
  let ?d = "snd (h_PutFlow ex_libs ex_env ''f1'' ex_put empty_db)"
  have "served empty_db ?d" "served ?d (snd (PostFlowSegments ex_server ex_post ?d))"
    by (rule served.put_flow, rule served.post_segments)
  then show "served\<^sup>*\<^sup>* empty_db (snd (PostFlowSegments ex_server ex_post ?d))"
    by (rule rtranclp.rtrancl_into_rtrancl [OF r_into_rtranclp])
qed

section \<open>What the specification gives\<close>

lemma tstep_disjoint:
  assumes "tstep\<^sup>*\<^sup>* Map.empty t" "t fid = Some (ro, X)"
  shows "pairwise clear_of X \<and> (\<forall>p \<in> X. pl_lower p < pl_upper p) \<and> finite X"
  using assms
proof (induction arbitrary: fid ro X rule: rtranclp_induct)
  case (step t t')
  from step(2) step.prems step.IH show ?case
    by (cases rule: tstep.cases)
      (auto simp: pairwise_def intro: clear_of_sym split: if_splits)
qed simp

text \<open>A flow that is read-only keeps its timeline until it is unlocked or dropped.\<close>

lemma tstep_locked:
  "tstep t t' \<Longrightarrow> t fid = Some (True, X) \<Longrightarrow> t' fid = None \<or> (\<exists>ro. t' fid = Some (ro, X))"
  by (cases rule: tstep.cases) (auto split: if_splits)

end
