(* ===== verification/Head_Methods.thy ===== *)
theory Head_Methods
  imports Handler_Properties Source_Handlers
begin

text \<open>
  The HEAD endpoints of the listings against their GET counterparts. A HEAD answer is the GET answer without its body;
  \<open>head_flows\<close> and \<open>map_res\<close> say so for flows and sources, and for segments the successful answers agree.
\<close>

fun map_res :: "('a \<Rightarrow> 'b) \<Rightarrow> 'a res \<Rightarrow> 'b res" where
  "map_res f (Ok x) = Ok (f x)"
| "map_res f (Err e) = Err e"
| "map_res f (Panic p) = Panic p"

fun head_flows :: "GetFlowsResponse \<Rightarrow> HeadFlowsResponse" where
  "head_flows (Flows200 items headers) = HeadFlows200 headers"
| "head_flows (Flows400 problem) = HeadFlows400"

lemma head_flows_eq:
  "h_HeadFlows l env q d = map_prod (map_res head_flows) id (h_GetFlows l tx env q d)"
  by (auto simp: h_HeadFlows_def h_GetFlows_def getFlows400InvalidTimerange_def split: res.split prod.split)

lemma head_sources_eq:
  assumes "gs_Label q = None" "gs_Format q = None" "\<And>n. gs_Limit q = Some n \<Longrightarrow> n \<le> 1000"
  shows "h_HeadSources l env q d = map_prod (map_res snd) id (h_GetSources l env q d)"
proof -
  have "(case gs_Limit q of None \<Rightarrow> 100 | Some n \<Rightarrow> if n > 1000 then 1000 else n) =
      (case gs_Limit q of None \<Rightarrow> 100 | Some n \<Rightarrow> n)"
    using assms(3) by (auto split: option.split)
  then show ?thesis
    by (auto simp: h_HeadSources_def h_GetSources_def Let_def tbind_def tret_def assms(1,2) split: res.split prod.split)
qed

text \<open>The signer is a parameter: it returns a URL or an error. Signing a URL may fail, but the listing never fails with it.\<close>

definition signer_returns :: "S3Store \<Rightarrow> bool" where
  "signer_returns st \<longleftrightarrow> (\<forall>p b k e. st_presign st = Some p \<longrightarrow> PresignGetObject p b k \<noteq> Panic e)"

lemma project_one_Ok: "signer_returns st \<Longrightarrow> \<exists>w'. project_one st presigned sg w = Ok w'"
  by (auto simp: signer_returns_def project_one_def controlledGetURLs_def GenerateDownloadURL_def Let_def res_simps
      split: res.split option.split)

lemma projection_total:
  assumes "signer_returns st"
  obtains body where "projectSegmentURLs st page (SegmentPageToAPI page) presigned = Ok body" "length body = length (Items page)"
proof -
  have "\<exists>ys. rmap (\<lambda>(sg, w). project_one st presigned sg w) xs = Ok ys" for xs
    by (rule rmap_all_Ok) (auto simp: project_one_Ok [OF assms] split: prod.split)
  then obtain body where body: "projectSegmentURLs st page (SegmentPageToAPI page) presigned = Ok body"
    unfolding projectSegmentURLs_def by blast
  then have "length body = length (Items page)"
    unfolding projectSegmentURLs_def by (auto dest!: rmap_Ok_length simp: SegmentPageToAPI_def RegisterAcceptedToAPI_def)
  with body show ?thesis using that by blast
qed

lemma get_page:
  assumes "signer_returns (sv_objects sv)" "uuid_Parse (sv_libs sv) fid = Some flowID" "ListParamsFromAPI qp = Ok params"
    and "segment_list (ListSegments (sv_env sv)) (params\<lparr>lp_FlowID := flowID\<rparr>) d = (Ok page, d1)"
  obtains body where "length body = length (Items page)"
    "GetFlowSegments sv fid qp d = (rbind (headers_of page (length body) (params\<lparr>lp_FlowID := flowID\<rparr>)) (\<lambda>h. Ok (Get200 body h)), d1)"
    "HeadFlowSegments sv fid qp d = (rbind (headers_of page (length body) (params\<lparr>lp_FlowID := flowID\<rparr>)) (\<lambda>h. Ok (Head200 h)), d1)"
proof (rule projection_total [OF assms(1), of page "lp_Presigned params"])
  fix body
  assume body: "projectSegmentURLs (sv_objects sv) page (SegmentPageToAPI page) (lp_Presigned params) = Ok body"
    "length body = length (Items page)"
  show ?thesis
    by (rule that [of body]) (simp_all add: GetFlowSegments_def HeadFlowSegments_def Let_def assms(2-4) body)
qed

lemma head_segments_iff:
  assumes "signer_returns (sv_objects sv)"
  shows "HeadFlowSegments sv fid qp d = (Ok (Head200 h), d') \<longleftrightarrow> (\<exists>body. GetFlowSegments sv fid qp d = (Ok (Get200 body h), d'))"
proof (cases "\<exists>flowID params page d1. uuid_Parse (sv_libs sv) fid = Some flowID \<and> ListParamsFromAPI qp = Ok params \<and>
    segment_list (ListSegments (sv_env sv)) (params\<lparr>lp_FlowID := flowID\<rparr>) d = (Ok page, d1)")
  case True
  then obtain flowID params page d1 where "uuid_Parse (sv_libs sv) fid = Some flowID" "ListParamsFromAPI qp = Ok params"
    "segment_list (ListSegments (sv_env sv)) (params\<lparr>lp_FlowID := flowID\<rparr>) d = (Ok page, d1)" by blast
  from get_page [OF assms this] obtain body where
    "GetFlowSegments sv fid qp d = (rbind (headers_of page (length body) (params\<lparr>lp_FlowID := flowID\<rparr>)) (\<lambda>h. Ok (Get200 body h)), d1)"
    "HeadFlowSegments sv fid qp d = (rbind (headers_of page (length body) (params\<lparr>lp_FlowID := flowID\<rparr>)) (\<lambda>h. Ok (Head200 h)), d1)"
    by blast
  then show ?thesis by (auto simp: rbind_Ok_iff)
next
  case False
  then have "HeadFlowSegments sv fid qp d \<noteq> (Ok (Head200 h), d')" "GetFlowSegments sv fid qp d \<noteq> (Ok (Get200 body h), d')" for body
    by (auto simp: HeadFlowSegments_def GetFlowSegments_def Let_def getSegments400_def getSegments404_def
        split: option.splits res.splits prod.splits if_splits)
  then show ?thesis by blast
qed

text \<open>C29: A HEAD request to the flows is answered as the GET request with the same query, with its status and headers and
  without its body, in every case. For segments the two succeed together, with the same headers, provided that the signer
  of URLs returns. For sources they agree if the query names no label and no format and asks for at most a thousand.\<close>

theorem head_agrees_with_get:
  "h_HeadFlows l env q d = map_prod (map_res head_flows) id (h_GetFlows l tx env q d) \<and>
   (signer_returns (sv_objects sv) \<longrightarrow>
     (HeadFlowSegments sv fid qp d = (Ok (Head200 h), d') \<longleftrightarrow> (\<exists>body. GetFlowSegments sv fid qp d = (Ok (Get200 body h), d')))) \<and>
   (gs_Label sq = None \<and> gs_Format sq = None \<and> (\<forall>n. gs_Limit sq = Some n \<longrightarrow> n \<le> 1000) \<longrightarrow>
     h_HeadSources l env sq d = map_prod (map_res snd) id (h_GetSources l env sq d))"
  using head_flows_eq head_segments_iff head_sources_eq by blast

definition ex_sources_query :: "GetSourcesParams" where
  "ex_sources_query = \<lparr>gs_Label = None, gs_Format = None, gs_TagName = None, gs_TagExistsName = None, gs_Page = None,
     gs_Limit = Some 10, gs_XRequestID = None\<rparr>"

definition ex_listing :: "GetFlowSegmentsParams" where
  "ex_listing = \<lparr>gp_ObjectId = None, gp_Timerange = Some ''[0:0_5:0)'', gp_ReverseOrder = None, gp_VerboseStorage = None,
     gp_AcceptGetUrls = None, gp_AcceptStorageIds = None, gp_Presigned = None, gp_IncludeObjectTimerange = None,
     gp_Page = None, gp_Limit = None, gp_XRequestID = None\<rparr>"

theorem head_agrees_with_get_witness:
  "signer_returns (sv_objects ex_server) \<and>
   h_HeadSources ex_libs ex_env ex_sources_query ex_db = map_prod (map_res snd) id (h_GetSources ex_libs ex_env ex_sources_query ex_db) \<and>
   fst (h_HeadSources ex_libs ex_env ex_sources_query ex_db) = Ok \<lparr>lh_Limit = 10, lh_NextKey = None, lh_Link = None\<rparr> \<and>
   (\<forall>h d'. HeadFlowSegments ex_server ''f1'' ex_listing ex_db = (Ok (Head200 h), d') \<longleftrightarrow>
     (\<exists>body. GetFlowSegments ex_server ''f1'' ex_listing ex_db = (Ok (Get200 body h), d')))"
proof (intro conjI allI)
  show signer: "signer_returns (sv_objects ex_server)" by (simp add: signer_returns_def ex_server_def)
  show "h_HeadSources ex_libs ex_env ex_sources_query ex_db = map_prod (map_res snd) id (h_GetSources ex_libs ex_env ex_sources_query ex_db)"
    by (rule head_agrees_with_get [THEN conjunct2, THEN conjunct2, rule_format]) (simp add: ex_sources_query_def)
  show "fst (h_HeadSources ex_libs ex_env ex_sources_query ex_db) = Ok \<lparr>lh_Limit = 10, lh_NextKey = None, lh_Link = None\<rparr>"
    by code_simp
  show "HeadFlowSegments ex_server ''f1'' ex_listing ex_db = (Ok (Head200 h), d') \<longleftrightarrow>
     (\<exists>body. GetFlowSegments ex_server ''f1'' ex_listing ex_db = (Ok (Get200 body h), d'))" for h d'
    by (rule head_agrees_with_get [THEN conjunct2, THEN conjunct1, rule_format, OF signer])
qed

end
