(* ===== verification/Idempotency_Machine.thy ===== *)
theory Idempotency_Machine
  imports Idempotency
begin

text \<open>
  Clients that use one idempotency key at the same time. The statements of \<^verbatim>\<open>Acquire\<close> are not one
  atomic step here: looking for the row and inserting it are separate, and any number of other
  clients and the reapers act in between. A client that holds the key is processing its
  request. \<open>machine_step\<close> is the step relation, \<open>machine_reach\<close> its reachable states, and
  \<open>timely_reach\<close> the runs in which no holder outlives the expiry of its row or the threshold
  of the reaper.
\<close>

datatype phase = Idle | Looked | Holds

record machine =
  m_db :: db
  m_now :: time
  m_pc :: "nat \<Rightarrow> phase"

definition env_at :: "time \<Rightarrow> db_env" where
  "env_at t = \<lparr>flt = (\<lambda>_ _. None), commit_applied = False, now = t\<rparr>"

lemma no_faults_env_at [simp]: "no_faults (env_at t)" "now (env_at t) = t"
  by (simp_all add: no_faults_def env_at_def)

definition goto :: "nat \<Rightarrow> phase \<Rightarrow> machine \<Rightarrow> machine" where
  "goto c p m = m\<lparr>m_pc := (m_pc m)(c := p)\<rparr>"

text \<open>The tables as the claiming transaction sees them after its first statement.\<close>

definition after_expiry :: "string \<Rightarrow> machine \<Rightarrow> db" where
  "after_expiry key m = snd (delete_keys (\<lambda>r. k_key r = key \<and> expired (env_at (m_now m)) r) (m_db m))"

inductive machine_step :: "string \<Rightarrow> string \<Rightarrow> int \<Rightarrow> machine \<Rightarrow> machine \<Rightarrow> bool"
  for key and h and thr where
  look: "m_pc m c = Idle \<Longrightarrow> live (env_at (m_now m)) key (m_db m) = None \<Longrightarrow>
    machine_step key h thr m (goto c Looked m)"
| claim: "m_pc m c = Looked \<Longrightarrow> insert_key (env_at (m_now m)) key h expires (after_expiry key m) = (Ok (), d') \<Longrightarrow>
    machine_step key h thr m (goto c Holds (m\<lparr>m_db := d'\<rparr>))"
| clash: "m_pc m c = Looked \<Longrightarrow> insert_key (env_at (m_now m)) key h expires (after_expiry key m) = (Err e, d') \<Longrightarrow>
    machine_step key h thr m (goto c Idle m)"
| complete: "m_pc m c = Holds \<Longrightarrow> Complete (env_at (m_now m)) key st body (m_db m) = (Ok (), d') \<Longrightarrow>
    machine_step key h thr m (goto c Idle (m\<lparr>m_db := d'\<rparr>))"
| release: "m_pc m c = Holds \<Longrightarrow> Release (env_at (m_now m)) key (m_db m) = (Ok (), d') \<Longrightarrow>
    machine_step key h thr m (goto c Idle (m\<lparr>m_db := d'\<rparr>))"
| tick: "m_now m \<le> t \<Longrightarrow> machine_step key h thr m (m\<lparr>m_now := t\<rparr>)"
| prune: "Prune (env_at (m_now m)) (m_db m) = (Ok n, d') \<Longrightarrow> machine_step key h thr m (m\<lparr>m_db := d'\<rparr>)"
| reap: "ReapStale (env_at (m_now m)) thr (m_db m) = (Ok n, d') \<Longrightarrow> machine_step key h thr m (m\<lparr>m_db := d'\<rparr>)"

definition machine_start :: "time \<Rightarrow> machine" where
  "machine_start t = \<lparr>m_db = empty_db, m_now = t, m_pc = (\<lambda>_. Idle)\<rparr>"

text \<open>No holder outlives its row: the row has not expired and is too young to be reaped.\<close>

definition timely :: "string \<Rightarrow> int \<Rightarrow> machine \<Rightarrow> bool" where
  "timely key thr m \<longleftrightarrow> (\<forall>c r. m_pc m c = Holds \<longrightarrow> rows_find k_key key (idempotency_keys (m_db m)) = Some r \<longrightarrow>
     m_now m < k_expires_at r \<and> m_now m < k_acquired_at r + thr)"

inductive machine_reach :: "string \<Rightarrow> string \<Rightarrow> int \<Rightarrow> machine \<Rightarrow> bool" for key and h and thr where
  start: "machine_reach key h thr (machine_start t)"
| step: "machine_reach key h thr m \<Longrightarrow> machine_step key h thr m m' \<Longrightarrow> machine_reach key h thr m'"

inductive timely_reach :: "string \<Rightarrow> string \<Rightarrow> int \<Rightarrow> machine \<Rightarrow> bool" for key and h and thr where
  start: "timely_reach key h thr (machine_start t)"
| step: "timely_reach key h thr m \<Longrightarrow> machine_step key h thr m m' \<Longrightarrow> timely key thr m' \<Longrightarrow> timely_reach key h thr m'"

section \<open>At most one holder\<close>

definition one_holder :: "string \<Rightarrow> machine \<Rightarrow> bool" where
  "one_holder key m \<longleftrightarrow> rows_unique k_key (idempotency_keys (m_db m)) \<and>
     (\<forall>c. m_pc m c = Holds \<longrightarrow> (\<exists>r. rows_find k_key key (idempotency_keys (m_db m)) = Some r \<and> k_in_flight r)) \<and>
     (\<forall>c c'. m_pc m c = Holds \<longrightarrow> m_pc m c' = Holds \<longrightarrow> c = c')"

lemma goto_simps [simp]: "m_db (goto c p m) = m_db m" "m_now (goto c p m) = m_now m"
  "m_pc (goto c p m) = (m_pc m)(c := p)"
  by (simp_all add: goto_def)

lemma rows_find_filter:
  "rows_unique key rows \<Longrightarrow> rows_find key k (filter P rows) =
    (case rows_find key k rows of None \<Rightarrow> None | Some r \<Rightarrow> if P r then Some r else None)"
  by (induction rows) (auto simp: rows_find_def rows_unique_def find_None_iff dest!: find_Some_in split: option.splits)

lemma unique_filter: "rows_unique key rows \<Longrightarrow> rows_unique key (filter P rows)"
  by (simp add: rows_unique_def distinct_map_filter)

lemma delete_keys_holders:
  assumes "one_holder key m" "\<And>r c. m_pc m c = Holds \<Longrightarrow> rows_find k_key key (idempotency_keys (m_db m)) = Some r \<Longrightarrow> \<not> P r"
  shows "one_holder key (m\<lparr>m_db := (m_db m)\<lparr>idempotency_keys := filter (\<lambda>r. \<not> P r) (idempotency_keys (m_db m))\<rparr>\<rparr>)"
  using assms unfolding one_holder_def by (fastforce simp: rows_find_filter unique_filter)

lemma one_holder_step:
  assumes "machine_step key h thr m m'" "one_holder key m" "timely key thr m"
  shows "one_holder key m'"
  using assms(1)
proof (cases rule: machine_step.cases)
  case (look c)
  then show ?thesis using assms(2) by (auto simp: one_holder_def split: if_splits)
next
  case (claim c expires d')
  let ?rows = "filter (\<lambda>r. \<not> (k_key r = key \<and> expired (env_at (m_now m)) r)) (idempotency_keys (m_db m))"
  have u: "rows_unique k_key (idempotency_keys (m_db m))" using assms(2) by (simp add: one_holder_def)
  have rows: "idempotency_keys (after_expiry key m) = ?rows" by (simp add: after_expiry_def delete_keys_def)
  from claim(3) have none: "rows_find k_key key ?rows = None"
    and d': "idempotency_keys d' = rows_insert (new_key_row (env_at (m_now m)) key h expires) ?rows"
    by (auto simp: insert_key_def new_key_row_def rows split: if_splits)
  have "m_pc m c' \<noteq> Holds" for c'
    using assms(2,3) none u
    by (fastforce simp: one_holder_def timely_def rows_find_filter expired_def split: if_splits)
  moreover have "rows_unique k_key (idempotency_keys d')"
    unfolding d' using keys_t.invar_insert [OF unique_filter [OF u]] none by (simp add: new_key_row_def)
  moreover have "rows_find k_key key (idempotency_keys d') = Some (new_key_row (env_at (m_now m)) key h expires)"
    unfolding d' using none by (simp add: keys_t.lookup_insert new_key_row_def)
  ultimately show ?thesis using claim(1) by (auto simp: one_holder_def new_key_row_def split: if_splits)
next
  case (clash c expires e d')
  then show ?thesis using assms(2) by (auto simp: one_holder_def split: if_splits)
next
  case (complete c st body d')
  have "idempotency_keys d' = rows_update k_key key
      (\<lambda>r. r\<lparr>k_in_flight := False, k_response_status := st, k_response_body := body\<rparr>) (idempotency_keys (m_db m))"
    using complete(3) by (auto simp: Complete_def tx_simps tcall_no_faults split: if_splits)
  then have "rows_unique k_key (idempotency_keys d')"
    using assms(2) by (simp add: one_holder_def keys_t.invar_update)
  moreover have "m_pc m c' \<noteq> Holds" if "c' \<noteq> c" for c' using assms(2) complete(2) that by (auto simp: one_holder_def)
  ultimately show ?thesis using complete(1) by (auto simp: one_holder_def split: if_splits)
next
  case (release c d')
  have "idempotency_keys d' = filter (\<lambda>r. k_key r \<noteq> key) (idempotency_keys (m_db m))"
    using release(3) by (auto simp: Release_def tx_simps tcall_no_faults delete_keys_def split: if_splits)
  then have "rows_unique k_key (idempotency_keys d')"
    using assms(2) by (simp add: one_holder_def unique_filter)
  moreover have "m_pc m c' \<noteq> Holds" if "c' \<noteq> c" for c' using assms(2) release(2) that by (auto simp: one_holder_def)
  ultimately show ?thesis using release(1) by (auto simp: one_holder_def split: if_splits)
next
  case (tick t)
  then show ?thesis using assms(2) by (simp add: one_holder_def)
next
  case (prune n d')
  then have "d' = (m_db m)\<lparr>idempotency_keys := filter (\<lambda>r. \<not> expired (env_at (m_now m)) r) (idempotency_keys (m_db m))\<rparr>"
    by (auto simp: Prune_def tcall_no_faults delete_keys_def)
  then show ?thesis
    using prune(1) delete_keys_holders [OF assms(2), of "expired (env_at (m_now m))"] assms(3)
    by (fastforce simp: timely_def expired_def)
next
  case (reap n d')
  let ?P = "\<lambda>r. k_in_flight r \<and> k_acquired_at r \<le> m_now m - thr"
  from reap(2) have "d' = (m_db m)\<lparr>idempotency_keys := filter (\<lambda>r. \<not> ?P r) (idempotency_keys (m_db m))\<rparr>"
    by (auto simp: ReapStale_def tcall_no_faults delete_keys_def)
  then show ?thesis
    using reap(1) delete_keys_holders [OF assms(2), of ?P] assms(3) by (fastforce simp: timely_def)
qed

lemma timely_reach_one_holder: "timely_reach key h thr m \<Longrightarrow> one_holder key m \<and> timely key thr m"
proof (induction rule: timely_reach.induct)
  case (start t)
  then show ?case by (simp add: one_holder_def timely_def machine_start_def empty_db_def rows_unique_def)
next
  case (step m m')
  then show ?case using one_holder_step by blast
qed

section \<open>Properties\<close>

text \<open>C22: As long as no client holds the key past the expiry of its row or the threshold of the reaper, at
  most one client at a time is processing the request of the key, however the statements of
  the clients and of the reapers interleave.\<close>

theorem at_most_one_holder:
  assumes "timely_reach key h thr m" "m_pc m c = Holds" "m_pc m c' = Holds"
  shows "c = c'"
  using timely_reach_one_holder [OF assms(1)] assms(2,3) by (simp add: one_holder_def)

definition ex_claimed :: "nat \<Rightarrow> machine" where
  "ex_claimed c = goto c Holds (goto c Looked (machine_start 0)\<lparr>m_db := claimed (env_at 0) ''k'' ''h'' 100 empty_db\<rparr>)"

lemma ex_claim_steps:
  "machine_step ''k'' ''h'' 50 (machine_start 0) (goto c Looked (machine_start 0))"
  "machine_step ''k'' ''h'' 50 (goto c Looked (machine_start 0)) (ex_claimed c)"
proof -
  show "machine_step ''k'' ''h'' 50 (machine_start 0) (goto c Looked (machine_start 0))"
    by (rule look) (simp_all add: machine_start_def live_def empty_db_def rows_find_def)
  have "insert_key (env_at 0) ''k'' ''h'' 100 (after_expiry ''k'' (goto c Looked (machine_start 0))) =
      (Ok (), claimed (env_at 0) ''k'' ''h'' 100 empty_db)"
    by (simp add: after_expiry_def machine_start_def delete_keys_def insert_key_def claimed_def new_key_row_def
        empty_db_def rows_find_def)
  then show "machine_step ''k'' ''h'' 50 (goto c Looked (machine_start 0)) (ex_claimed c)"
    unfolding ex_claimed_def by (intro claim) (simp_all add: machine_start_def)
qed

theorem at_most_one_holder_witness: "{c. m_pc (ex_claimed 3) c = Holds} = {3}"
proof -
  have "timely ''k'' 50 (goto 3 Looked (machine_start 0))" "timely ''k'' 50 (ex_claimed 3)"
    by (auto simp: timely_def ex_claimed_def machine_start_def empty_db_def claimed_def new_key_row_def env_at_def
        rows_find_def rows_insert_def split: if_splits)
  then have "timely_reach ''k'' ''h'' 50 (ex_claimed 3)"
    using timely_reach.step [OF timely_reach.step [OF timely_reach.start ex_claim_steps(1)] ex_claim_steps(2)] by blast
  moreover have "m_pc (ex_claimed 3) 3 = Holds" by (simp add: ex_claimed_def)
  ultimately show ?thesis using at_most_one_holder by blast
qed

text \<open>Claiming as two steps, from any state in which the key is free.\<close>

lemma claim_run:
  assumes "m_pc m c = Idle" "live (env_at (m_now m)) key (m_db m) = None"
  shows "(machine_step key h thr)\<^sup>*\<^sup>* m (goto c Holds (m\<lparr>m_db := claimed (env_at (m_now m)) key h expires (m_db m)\<rparr>))"
proof -
  let ?m = "goto c Looked m"
  have "insert_key (env_at (m_now ?m)) key h expires (after_expiry key ?m) =
      (Ok (), claimed (env_at (m_now m)) key h expires (m_db m))"
    using assms(2)
    by (simp add: after_expiry_def delete_keys_def insert_key_def live_def live_after_expiry claimed_def new_key_row_def)
  then have "machine_step key h thr ?m (goto c Holds (?m\<lparr>m_db := claimed (env_at (m_now m)) key h expires (m_db m)\<rparr>))"
    by (intro claim) simp_all
  moreover have "goto c Holds (?m\<lparr>m_db := d\<rparr>) = goto c Holds (m\<lparr>m_db := d\<rparr>)" for d by (simp add: goto_def)
  ultimately have "machine_step key h thr ?m (goto c Holds (m\<lparr>m_db := claimed (env_at (m_now m)) key h expires (m_db m)\<rparr>))"
    by simp
  then have "(machine_step key h thr)\<^sup>*\<^sup>* ?m (goto c Holds (m\<lparr>m_db := claimed (env_at (m_now m)) key h expires (m_db m)\<rparr>))"
    by (rule r_into_rtranclp)
  with look [OF assms] show ?thesis by (rule converse_rtranclp_into_rtranclp)
qed

lemma reach_run: "(machine_step key h thr)\<^sup>*\<^sup>* m m' \<Longrightarrow> machine_reach key h thr m \<Longrightarrow> machine_reach key h thr m'"
  by (induction rule: rtranclp_induct) (auto intro: machine_reach.step)

definition ex_second :: machine where
  "ex_second = \<lparr>m_db = claimed (env_at 100) ''k'' ''h'' 200 (claimed (env_at 0) ''k'' ''h'' 100 empty_db),
     m_now = 100, m_pc = (\<lambda>_. Idle)(0 := Holds, 1 := Holds)\<rparr>"

lemma ex_second_reach: "machine_reach ''k'' ''h'' 50 ex_second"
proof -
  let ?m0 = "goto 0 Holds (machine_start 0\<lparr>m_db := claimed (env_at 0) ''k'' ''h'' 100 empty_db\<rparr>)"
  let ?m1 = "?m0\<lparr>m_now := 100\<rparr>"
  have start: "m_db (machine_start 0) = empty_db" "m_now (machine_start 0) = 0" "m_pc (machine_start 0) = (\<lambda>_. Idle)"
    by (simp_all add: machine_start_def)
  have "(machine_step ''k'' ''h'' 50)\<^sup>*\<^sup>* (machine_start 0) ?m0"
    using claim_run [of "machine_start 0" 0 "''k''" "''h''" 50 100]
    by (simp add: start live_def empty_db_def rows_find_def)
  then have "machine_reach ''k'' ''h'' 50 ?m0" using machine_reach.start reach_run by blast
  moreover have "machine_step ''k'' ''h'' 50 ?m0 ?m1" by (rule tick) (simp add: start)
  ultimately have "machine_reach ''k'' ''h'' 50 ?m1" by (rule machine_reach.step)
  moreover have "live (env_at 100) ''k'' (m_db ?m1) = None"
    by (simp add: live_def claimed_def new_key_row_def rows_insert_def empty_db_def expired_def rows_find_def)
  then have "(machine_step ''k'' ''h'' 50)\<^sup>*\<^sup>* ?m1
      (goto 1 Holds (?m1\<lparr>m_db := claimed (env_at (m_now ?m1)) ''k'' ''h'' 200 (m_db ?m1)\<rparr>))"
    by (intro claim_run) (simp_all add: start)
  ultimately have "machine_reach ''k'' ''h'' 50 (goto 1 Holds (?m1\<lparr>m_db := claimed (env_at (m_now ?m1)) ''k'' ''h'' 200 (m_db ?m1)\<rparr>))"
    using reach_run by blast
  moreover have "goto 1 Holds (?m1\<lparr>m_db := claimed (env_at (m_now ?m1)) ''k'' ''h'' 200 (m_db ?m1)\<rparr>) = ex_second"
    by (simp add: ex_second_def goto_def machine_start_def)
  ultimately show ?thesis by simp
qed

text \<open>C23: \<^verbatim>\<open>Release\<close> does not ask who holds the key. A client that outlived its row releases the row of the
  client that claimed the key after it, and a third client then claims the key while the
  second is still processing, well before the row of the second expires.\<close>

theorem stale_release_frees_key:
  "\<exists>m m'. machine_reach ''k'' ''h'' 50 m \<and> m_pc m 1 = Holds \<and>
     (\<exists>r. rows_find k_key ''k'' (idempotency_keys (m_db m)) = Some r \<and> m_now m < k_expires_at r \<and>
        m_now m < k_acquired_at r + 50) \<and>
     (machine_step ''k'' ''h'' 50)\<^sup>*\<^sup>* m m' \<and> m_now m' = m_now m \<and> m_pc m' 1 = Holds \<and> m_pc m' 2 = Holds"
proof (intro exI conjI)
  let ?m1 = "goto 0 Idle (ex_second\<lparr>m_db := empty_db\<rparr>)"
  show "machine_reach ''k'' ''h'' 50 ex_second" by (rule ex_second_reach)
  show "m_pc ex_second 1 = Holds" by (simp add: ex_second_def)
  show "rows_find k_key ''k'' (idempotency_keys (m_db ex_second)) = Some (new_key_row (env_at 100) ''k'' ''h'' 200)"
    by (simp add: ex_second_def claimed_def new_key_row_def rows_insert_def rows_find_def expired_def empty_db_def)
  show "m_now ex_second < k_expires_at (new_key_row (env_at 100) ''k'' ''h'' 200)"
    "m_now ex_second < k_acquired_at (new_key_row (env_at 100) ''k'' ''h'' 200) + 50"
    by (simp_all add: ex_second_def new_key_row_def)
  have "Release (env_at 100) ''k'' (m_db ex_second) = (Ok (), empty_db)"
    by (simp add: Release_no_faults validateKey_def ex_second_def claimed_def new_key_row_def rows_insert_def
        rows_delete_def expired_def empty_db_def)
  then have "machine_step ''k'' ''h'' 50 ex_second ?m1"
    by (intro release) (simp_all add: ex_second_def)
  moreover have "(machine_step ''k'' ''h'' 50)\<^sup>*\<^sup>* ?m1
      (goto 2 Holds (?m1\<lparr>m_db := claimed (env_at (m_now ?m1)) ''k'' ''h'' 300 (m_db ?m1)\<rparr>))"
    by (intro claim_run) (simp_all add: ex_second_def live_def empty_db_def rows_find_def)
  ultimately show "(machine_step ''k'' ''h'' 50)\<^sup>*\<^sup>* ex_second
      (goto 2 Holds (?m1\<lparr>m_db := claimed (env_at (m_now ?m1)) ''k'' ''h'' 300 (m_db ?m1)\<rparr>))"
    by (rule converse_rtranclp_into_rtranclp)
qed (simp_all add: ex_second_def)

end
