(* ===== verification/Durations.thy ===== *)
theory Durations
  imports Prelude
begin

text \<open>
  \<^verbatim>\<open>time.ParseDuration\<close> of the Go library, by which \<^verbatim>\<open>internal/config\<close> reads its intervals: a sign and a sequence of
  decimal numbers with units. A duration is an \<open>int\<close> of nanoseconds. A fraction is scaled in float64, as
  the library does it: every result is rounded to 53 bits, ties to even.
\<close>

section \<open>Rounding to float64\<close>

function ilog2 :: "int \<Rightarrow> int" where
  "ilog2 n = (if n < 2 then 0 else 1 + ilog2 (n div 2))"
  by pat_completeness auto

termination ilog2
  by (relation "measure nat") auto

declare ilog2.simps [simp del]

definition round_even :: "int \<Rightarrow> int \<Rightarrow> int" where
  "round_even n m =
     (let q = n div m; r = n mod m
      in if 2 * r < m then q else if 2 * r > m then q + 1 else if even q then q else q + 1)"

text \<open>The float64 nearest to the fraction \<open>n / m\<close> of positive numbers, as a fraction. All values are normal.\<close>

definition float64 :: "int \<Rightarrow> int \<Rightarrow> int \<times> int" where
  "float64 n m =
     (let k = ilog2 n - ilog2 m;
          e = (if n * 2 ^ nat (- k) \<ge> m * 2 ^ nat k then k - 52 else k - 53);
          q = round_even (n * 2 ^ nat (- e)) (m * 2 ^ nat e)
      in (q * 2 ^ nat e, 2 ^ nat (- e)))"

text \<open>\<^verbatim>\<open>uint64(float64(f) * (float64(unit) / scale))\<close>.\<close>

definition scaled :: "int \<Rightarrow> int \<Rightarrow> int \<Rightarrow> int" where
  "scaled f unit scale =
     (let (a, b) = float64 f 1; (c, d) = float64 unit scale; (p, q) = float64 (a * c) (b * d)
      in p div q)"

section \<open>Parsing\<close>

definition unitMap :: "(string \<times> int) list" where
  "unitMap = [(''ns'', 1), (''us'', 1000), ([CHR 0xC2, CHR 0xB5, CHR ''s''], 1000),
     ([CHR 0xCE, CHR 0xBC, CHR ''s''], 1000), (''ms'', 1000000), (''s'', 1000000000),
     (''m'', 60000000000), (''h'', 3600000000000)]"

fun leadingInt :: "int \<Rightarrow> string \<Rightarrow> (int \<times> string) option" where
  "leadingInt x [] = Some (x, [])"
| "leadingInt x (c # s) =
     (if is_digit c then
        if x > 2 ^ 63 div 10 then None
        else let y = x * 10 + int (digit_val c) in if y > 2 ^ 63 then None else leadingInt y s
      else Some (x, c # s))"

fun leadingFraction :: "int \<Rightarrow> int \<Rightarrow> bool \<Rightarrow> string \<Rightarrow> int \<times> int \<times> string" where
  "leadingFraction x scale overflow [] = (x, scale, [])"
| "leadingFraction x scale overflow (c # s) =
     (if \<not> is_digit c then (x, scale, c # s)
      else if overflow then leadingFraction x scale overflow s
      else if x > (2 ^ 63 - 1) div 10 then leadingFraction x scale True s
      else let y = x * 10 + int (digit_val c)
           in if y > 2 ^ 63 then leadingFraction x scale True s
              else leadingFraction y (scale * 10) overflow s)"

text \<open>One number with its unit: its nanoseconds and the rest of the text.\<close>

definition duration_term :: "string \<Rightarrow> (int \<times> string) option" where
  "duration_term s =
     (if s = [] \<or> \<not> (hd s = CHR ''.'' \<or> is_digit (hd s)) then None
      else case leadingInt 0 s of
        None \<Rightarrow> None
      | Some (v, s1) \<Rightarrow>
          let pre = length s1 \<noteq> length s;
              (f, scale, s2, post) =
                (if s1 \<noteq> [] \<and> hd s1 = CHR ''.'' then
                   let (f, scale, s2) = leadingFraction 0 1 False (tl s1)
                   in (f, scale, s2, length s2 \<noteq> length (tl s1))
                 else (0, 1, s1, False));
              u = takeWhile (\<lambda>c. c \<noteq> CHR ''.'' \<and> \<not> is_digit c) s2;
              s3 = dropWhile (\<lambda>c. c \<noteq> CHR ''.'' \<and> \<not> is_digit c) s2
          in if \<not> pre \<and> \<not> post then None
             else if u = [] then None
             else case map_of unitMap u of
               None \<Rightarrow> None
             | Some unit \<Rightarrow>
                 if v > 2 ^ 63 div unit then None
                 else if f > 0 then
                   let w = v * unit + scaled f unit scale
                   in if w > 2 ^ 63 then None else Some (w, s3)
                 else Some (v * unit, s3))"

lemma leadingInt_rest: "leadingInt x s = Some (v, r) \<Longrightarrow> length r \<le> length s"
  by (induction x s rule: leadingInt.induct) (auto simp: Let_def split: if_splits)

lemma leadingFraction_rest: "leadingFraction x sc ov s = (f, sc', r) \<Longrightarrow> length r \<le> length s"
  by (induction x sc ov s rule: leadingFraction.induct) (auto simp: Let_def split: if_splits)

lemma dropWhile_shorter: "takeWhile P xs \<noteq> [] \<Longrightarrow> length (dropWhile P xs) < length xs"
  by (cases xs) (auto simp: length_dropWhile_le le_imp_less_Suc split: if_splits)

lemma duration_term_shorter: "duration_term s = Some (v, r) \<Longrightarrow> length r < length s"
proof -
  assume *: "duration_term s = Some (v, r)"
  then obtain x s1 where s1: "leadingInt 0 s = Some (x, s1)"
    by (auto simp: duration_term_def split: if_splits option.splits)
  define s2 where "s2 = (if s1 \<noteq> [] \<and> hd s1 = CHR ''.'' then snd (snd (leadingFraction 0 1 False (tl s1))) else s1)"
  have "length s2 \<le> length s1"
    using leadingFraction_rest [of 0 1 False "tl s1"] by (cases "leadingFraction 0 1 False (tl s1)") (force simp: s2_def)
  moreover have "length r < length s2"
    using * s1 by (auto simp: duration_term_def s2_def Let_def dropWhile_shorter split: if_splits option.splits prod.splits)
  ultimately show ?thesis using leadingInt_rest [OF s1] by simp
qed

text \<open>The sum is a \<^verbatim>\<open>uint64\<close>: two terms of \<open>2 ^ 63\<close> wrap around to zero.\<close>

function duration_sum :: "int \<Rightarrow> string \<Rightarrow> int option" where
  "duration_sum d s =
     (if s = [] then Some d
      else case duration_term s of
             None \<Rightarrow> None
           | Some (v, rest) \<Rightarrow> if u64 (d + v) > 2 ^ 63 then None else duration_sum (u64 (d + v)) rest)"
  by pat_completeness auto

termination duration_sum
  by (relation "measure (\<lambda>(d, s). length s)") (auto dest: duration_term_shorter)

declare duration_sum.simps [simp del]

definition ParseDuration :: "string \<Rightarrow> int option" where
  "ParseDuration s =
     (let neg = s \<noteq> [] \<and> hd s = CHR ''-'';
          body = (if s \<noteq> [] \<and> (hd s = CHR ''-'' \<or> hd s = CHR ''+'') then tl s else s)
      in if body = ''0'' then Some 0
         else if body = [] then None
         else case duration_sum 0 body of
                None \<Rightarrow> None
              | Some d \<Rightarrow>
                  if neg then Some (i64 (- i64 d))
                  else if d > 2 ^ 63 - 1 then None
                  else Some d)"

section \<open>Facts\<close>

lemma u64_nonneg [simp]: "0 \<le> u64 x"
  by (simp add: u64_def)

lemma duration_sum_range: "duration_sum d s = Some r \<Longrightarrow> 0 \<le> d \<Longrightarrow> d \<le> 2 ^ 63 \<Longrightarrow> 0 \<le> r \<and> r \<le> 2 ^ 63"
proof (induction d s rule: duration_sum.induct)
  case (1 d s)
  show ?case
  proof (cases "s = [] \<or> duration_term s = None")
    case True
    with 1(2-4) show ?thesis by (cases "s = []") (auto simp: duration_sum.simps)
  next
    case False
    then obtain v rest where t: "duration_term s = Some (v, rest)" by auto
    with 1(2) False have le: "\<not> u64 (d + v) > 2 ^ 63" and r: "duration_sum (u64 (d + v)) rest = Some r"
      by (auto simp: duration_sum.simps [of d s] split: if_splits)
    from 1(1) [OF _ t refl le r] False le show ?thesis by simp
  qed
qed

text \<open>A parsed duration fits the type, and a duration without a sign is not negative.\<close>

lemma ParseDuration_range:
  assumes "ParseDuration s = Some d"
  shows "in_i64 d" and "s = [] \<or> hd s \<noteq> CHR ''-'' \<Longrightarrow> 0 \<le> d"
proof -
  have sum: "0 \<le> r \<and> r \<le> 2 ^ 63" if "duration_sum 0 b = Some r" for b r
    using duration_sum_range [OF that] by simp
  show "in_i64 d"
    using assms
    by (auto simp: ParseDuration_def Let_def in_i64_i64 dest!: sum split: if_splits option.splits)
      (simp_all add: in_i64_def MinInt64_def MaxInt64_def)
  show "0 \<le> d" if "s = [] \<or> hd s \<noteq> CHR ''-''"
    using assms sum that by (auto simp: ParseDuration_def Let_def split: if_splits option.splits)
qed

lemma ParseDuration_examples:
  "ParseDuration ''1h30m'' = Some 5400000000000" "ParseDuration ''1.5s'' = Some 1500000000"
  "ParseDuration ''-60s'' = Some (- 60000000000)" "ParseDuration ''.3ms'' = Some 300000"
  "ParseDuration ''10'' = None" "ParseDuration ''0'' = Some 0" "ParseDuration [] = None"
  by code_simp+

text \<open>The wrap of the sum: a text of two terms, each at the limit, is accepted as zero.\<close>

lemma ParseDuration_wraps: "ParseDuration ''9223372036854775808ns9223372036854775808ns'' = Some 0"
  by code_simp

end
