(* ===== verification/Access.thy ===== *)
theory Access
  imports Cursor App_Error
begin

text \<open>
  Authentication: \<^verbatim>\<open>pkg/jwtauth/jwtauth.go\<close>, which tries the configured issuers in order, and
  \<^verbatim>\<open>internal/auth/auth.go\<close>, which turns its verdict into a principal or an application error and gates
  the tokens of the internal issuer by an allowlist of subjects. The verification of a signature is
  a parameter, one function per issuer, and so is the clock.
\<close>

section \<open>Tokens\<close>

record ValidatedToken =
  vt_Subject :: string
  vt_MatchedIssuer :: string

datatype ErrCode = ErrExpired | ErrNoMatch

text \<open>
  What a validator of the library returns for an accepted token: its claims, a stub with a
  method \<^verbatim>\<open>subject\<close>, or a value of another type.
\<close>

datatype claims = ValidatedClaims string | Subjecter string | OtherClaims

fun subjectOf :: "claims \<Rightarrow> string" where
  "subjectOf (ValidatedClaims s) = s"
| "subjectOf (Subjecter s) = s"
| "subjectOf OtherClaims = []"

record namedValidator =
  nv_name :: string
  nv_ValidateToken :: "string \<Rightarrow> claims option"

text \<open>\<^verbatim>\<open>strings.SplitN(rawToken, ".", 3)\<close> has three parts when the token has two dots or more.\<close>

definition isExpiredToken :: "int \<Rightarrow> string \<Rightarrow> bool" where
  "isExpiredToken unix rawToken =
     (let (header, rest, one) = Cut rawToken (CHR ''.'');
          (body, signature, two) = Cut rest (CHR ''.'')
      in if \<not> (one \<and> two) then False
         else case DecodeString body of
                None \<Rightarrow> False
              | Some payload \<Rightarrow>
                  (case Unmarshal_ints [''exp''] payload of
                     None \<Rightarrow> False
                   | Some m \<Rightarrow> m ''exp'' > 0 \<and> unix > m ''exp''))"

fun first_match :: "namedValidator list \<Rightarrow> string \<Rightarrow> ValidatedToken option" where
  "first_match [] rawToken = None"
| "first_match (nv # nvs) rawToken =
     (case nv_ValidateToken nv rawToken of
        None \<Rightarrow> first_match nvs rawToken
      | Some result \<Rightarrow> Some \<lparr>vt_Subject = subjectOf result, vt_MatchedIssuer = nv_name nv\<rparr>)"

definition Validate :: "int \<Rightarrow> namedValidator list \<Rightarrow> string \<Rightarrow> ErrCode + ValidatedToken" where
  "Validate unix vs rawToken =
     (case first_match vs rawToken of
        Some tok \<Rightarrow> Inr tok
      | None \<Rightarrow> Inl (if isExpiredToken unix rawToken then ErrExpired else ErrNoMatch))"

section \<open>Providers\<close>

record Principal =
  pr_Subject :: string
  pr_IssuerType :: string

type_synonym Provider = "string \<Rightarrow> Principal res"

definition internalIssuerName :: string where
  "internalIssuerName = ''internal''"

record JWTProvider =
  jp_v :: "string \<Rightarrow> ErrCode + ValidatedToken"
  jp_internalAllowed :: "string list"

definition NewJWTProvider :: "(string \<Rightarrow> ErrCode + ValidatedToken) \<Rightarrow> string list \<Rightarrow> JWTProvider" where
  "NewJWTProvider v internalAllowedSubjects = \<lparr>jp_v = v, jp_internalAllowed = remdups internalAllowedSubjects\<rparr>"

definition JWT_Authenticate :: "JWTProvider \<Rightarrow> Provider" where
  "JWT_Authenticate p rawToken =
     (case jp_v p rawToken of
        Inr tok \<Rightarrow>
          if vt_MatchedIssuer tok = internalIssuerName \<and> vt_Subject tok \<notin> set (jp_internalAllowed p) then
            Err (New Forbidden [Lit ''service account not permitted''])
          else Ok \<lparr>pr_Subject = vt_Subject tok, pr_IssuerType = vt_MatchedIssuer tok\<rparr>
      | Inl code \<Rightarrow>
          if code = ErrExpired then Err (New TokenExpired [Lit ''token has expired''])
          else Err (New Unauthorized [Lit ''token is not valid'']))"

definition Dev_Authenticate :: Provider where
  "Dev_Authenticate rawToken = Ok \<lparr>pr_Subject = ''dev'', pr_IssuerType = ''dev''\<rparr>"

section \<open>Which tokens are accepted\<close>

lemma first_match_Some:
  "first_match vs raw = Some tok \<longleftrightarrow>
    (\<exists>i c. i < length vs \<and> (\<forall>j < i. nv_ValidateToken (vs ! j) raw = None) \<and>
       nv_ValidateToken (vs ! i) raw = Some c \<and> tok = \<lparr>vt_Subject = subjectOf c, vt_MatchedIssuer = nv_name (vs ! i)\<rparr>)"
proof (induction vs)
  case (Cons nv nvs)
  show ?case
  proof (cases "nv_ValidateToken nv raw")
    case None
    then show ?thesis using Cons.IH by (auto simp: Ex_less_Suc2 All_less_Suc2 Let_def conj_disj_distribL)
  next
    case (Some c)
    then show ?thesis by (fastforce simp: nth_Cons split: nat.splits)
  qed
qed simp

lemma JWT_Authenticate_Ok:
  "JWT_Authenticate p raw = Ok pr \<longleftrightarrow>
    (\<exists>tok. jp_v p raw = Inr tok \<and> pr = \<lparr>pr_Subject = vt_Subject tok, pr_IssuerType = vt_MatchedIssuer tok\<rparr> \<and>
       (vt_MatchedIssuer tok = internalIssuerName \<longrightarrow> vt_Subject tok \<in> set (jp_internalAllowed p)))"
  by (auto simp: JWT_Authenticate_def split: sum.splits)

text \<open>Every refusal is an application error, and no token makes the provider panic.\<close>

lemma JWT_Authenticate_Err:
  assumes "JWT_Authenticate p raw = Err e"
  shows "\<exists>code st d. errors_As e = Some (code, st, d) \<and> (st = 401 \<or> st = 403)"
  using assms by (auto simp: JWT_Authenticate_def split: sum.splits if_splits)

lemma JWT_Authenticate_no_panic: "JWT_Authenticate p raw \<noteq> Panic s"
  by (auto simp: JWT_Authenticate_def split: sum.splits)

text \<open>
  With the validators of the configured issuers: a token is accepted exactly when some issuer accepts it and
  the first such issuer is not the internal one, or is and its subject is listed.
\<close>

lemma accepted_iff:
  "(\<exists>pr. JWT_Authenticate (NewJWTProvider (Validate unix vs) allowed) raw = Ok pr) \<longleftrightarrow>
    (\<exists>tok. first_match vs raw = Some tok \<and>
       (vt_MatchedIssuer tok = internalIssuerName \<longrightarrow> vt_Subject tok \<in> set allowed))"
  by (auto simp: JWT_Authenticate_Ok NewJWTProvider_def Validate_def split: option.splits)

end
