(* ===== verification/Http_Edge.thy ===== *)
theory Http_Edge
  imports Access Segment_Handlers
begin

text \<open>
  The edge of the HTTP server: the chain that \<^verbatim>\<open>internal/server/server.go\<close> builds around every handler,
  with the middleware of \<^verbatim>\<open>internal/httpx/middleware/middleware.go\<close>, \<^verbatim>\<open>pkg/requestid/ginadapter\<close> and
  \<^verbatim>\<open>pkg/httprecovery/ginadapter\<close>, and the error handlers of \<^verbatim>\<open>problem.go\<close> and \<^verbatim>\<open>validator.go\<close>.

  A link of the chain takes the rest of the chain as an argument, as gin's \<^verbatim>\<open>c.Next()\<close> does, and not calling
  it is \<^verbatim>\<open>c.Abort()\<close>. The context is passed along; a panic unwinds as a value. The validator of
  the OpenAPI document, the binding of parameters and the decoding of a body are parameters: what they found
  wrong with the request, if anything. The links that only log or count are left out.
\<close>

section \<open>The context of a request\<close>

datatype 'r reply = Reply 'r | ProblemReply int ProblemDetails

record 'r gin =
  gin_RequestURI :: string
  gin_Authorization :: string
  gin_XRequestID :: string
  gin_requestID :: string
  gin_subject :: "string option"
  gin_errors :: "go_error list"
  gin_status :: int
  gin_reply :: "'r reply option"

type_synonym 'r link = "'r gin \<Rightarrow> db \<Rightarrow> string option \<times> 'r gin \<times> db"

definition gin_Error :: "'r gin \<Rightarrow> go_error \<Rightarrow> 'r gin" where
  "gin_Error c e = c\<lparr>gin_errors := gin_errors c @ [e]\<rparr>"

text \<open>\<^verbatim>\<open>c.JSON(status, pd)\<close>: the status is set and the body written.\<close>

definition gin_JSON :: "'r gin \<Rightarrow> int \<Rightarrow> ProblemDetails \<Rightarrow> 'r gin" where
  "gin_JSON c status pd = c\<lparr>gin_status := status, gin_reply := Some (ProblemReply status pd)\<rparr>"

definition new_context :: "string \<Rightarrow> string \<Rightarrow> string \<Rightarrow> 'r gin" where
  "new_context uri authorization xRequestID =
     \<lparr>gin_RequestURI = uri, gin_Authorization = authorization, gin_XRequestID = xRequestID, gin_requestID = [],
      gin_subject = None, gin_errors = [], gin_status = 200, gin_reply = None\<rparr>"

section \<open>The links\<close>

definition requestid_Middleware :: "string \<Rightarrow> 'r link \<Rightarrow> 'r link" where
  "requestid_Middleware generated next = (\<lambda>c.
     next (c\<lparr>gin_requestID := (if gin_XRequestID c = [] then generated else gin_XRequestID c)\<rparr>))"

definition PanicWriter :: ProblemDetails where
  "PanicWriter = \<lparr>pd_Type = [], pd_Title = ''Internal Server Error'', pd_Status = 500, pd_Detail = [],
     pd_Instance = [], pd_RequestID = []\<rparr>"

definition recovery_Middleware :: "'r link \<Rightarrow> 'r link" where
  "recovery_Middleware next = (\<lambda>c d.
     case next c d of
       (None, c1, d1) \<Rightarrow> (None, c1, d1)
     | (Some r, c1, d1) \<Rightarrow> (None, gin_JSON c1 500 PanicWriter, d1))"

definition ErrorHandler :: "'r link \<Rightarrow> 'r link" where
  "ErrorHandler next = (\<lambda>c d.
     case next c d of
       (Some r, c1, d1) \<Rightarrow> (Some r, c1, d1)
     | (None, c1, d1) \<Rightarrow>
         if gin_reply c1 \<noteq> None \<or> gin_errors c1 = [] then (None, c1, d1)
         else (case errors_As (last (gin_errors c1)) of
                 Some ae \<Rightarrow>
                   (None, gin_JSON c1 (fst (snd ae)) (ToProblemDetails ae (gin_RequestURI c1) (gin_requestID c1)), d1)
               | None \<Rightarrow>
                   (None, gin_JSON c1 500 \<lparr>pd_Type = [], pd_Title = ''Internal Server Error'', pd_Status = 500,
                      pd_Detail = [], pd_Instance = gin_RequestURI c1, pd_RequestID = gin_requestID c1\<rparr>, d1)))"

definition CutPrefix :: "string \<Rightarrow> string \<Rightarrow> string option" where
  "CutPrefix s p = (if HasPrefix s p then Some (drop (length p) s) else None)"

definition Auth :: "Provider \<Rightarrow> 'r link \<Rightarrow> 'r link" where
  "Auth provider next = (\<lambda>c d.
     case CutPrefix (gin_Authorization c) ''Bearer '' of
       None \<Rightarrow> (None, gin_Error c (New Unauthorized [Lit ''missing or malformed Authorization header'']), d)
     | Some token \<Rightarrow>
         if token = [] then
           (None, gin_Error c (New Unauthorized [Lit ''missing or malformed Authorization header'']), d)
         else (case provider token of
                 Panic p \<Rightarrow> (Some p, c, d)
               | Err e \<Rightarrow> (None, gin_Error c (New Unauthorized [Lit ''authentication failed'']), d)
               | Ok pr \<Rightarrow> next (c\<lparr>gin_subject := Some (pr_Subject pr)\<rparr>) d))"

definition AuthSubject :: "'r gin \<Rightarrow> string" where
  "AuthSubject c = (case gin_subject c of None \<Rightarrow> [] | Some s \<Rightarrow> s)"

text \<open>\<^verbatim>\<open>http.StatusText\<close>.\<close>

definition status_texts :: "(int \<times> string) list" where
  "status_texts = [
     (100, ''Continue''), (101, ''Switching Protocols''), (102, ''Processing''), (103, ''Early Hints''),
     (200, ''OK''), (201, ''Created''), (202, ''Accepted''), (203, ''Non-Authoritative Information''),
     (204, ''No Content''), (205, ''Reset Content''), (206, ''Partial Content''), (207, ''Multi-Status''),
     (208, ''Already Reported''), (226, ''IM Used''),
     (300, ''Multiple Choices''), (301, ''Moved Permanently''), (302, ''Found''), (303, ''See Other''),
     (304, ''Not Modified''), (305, ''Use Proxy''), (307, ''Temporary Redirect''), (308, ''Permanent Redirect''),
     (400, ''Bad Request''), (401, ''Unauthorized''), (402, ''Payment Required''), (403, ''Forbidden''),
     (404, ''Not Found''), (405, ''Method Not Allowed''), (406, ''Not Acceptable''),
     (407, ''Proxy Authentication Required''), (408, ''Request Timeout''), (409, ''Conflict''), (410, ''Gone''),
     (411, ''Length Required''), (412, ''Precondition Failed''), (413, ''Request Entity Too Large''),
     (414, ''Request URI Too Long''), (415, ''Unsupported Media Type''),
     (416, ''Requested Range Not Satisfiable''), (417, ''Expectation Failed''), (418, ''I'm a teapot''),
     (421, ''Misdirected Request''), (422, ''Unprocessable Entity''), (423, ''Locked''),
     (424, ''Failed Dependency''), (425, ''Too Early''), (426, ''Upgrade Required''),
     (428, ''Precondition Required''), (429, ''Too Many Requests''), (431, ''Request Header Fields Too Large''),
     (451, ''Unavailable For Legal Reasons''),
     (500, ''Internal Server Error''), (501, ''Not Implemented''), (502, ''Bad Gateway''),
     (503, ''Service Unavailable''), (504, ''Gateway Timeout''), (505, ''HTTP Version Not Supported''),
     (506, ''Variant Also Negotiates''), (507, ''Insufficient Storage''), (508, ''Loop Detected''),
     (510, ''Not Extended''), (511, ''Network Authentication Required'')]"

definition StatusText :: "int \<Rightarrow> string" where
  "StatusText code = (case map_of status_texts code of None \<Rightarrow> [] | Some t \<Rightarrow> t)"

definition paramParseErrorHandler :: "'r gin \<Rightarrow> message \<Rightarrow> int \<Rightarrow> 'r gin" where
  "paramParseErrorHandler c err status =
     (let title = (if StatusText status = [] then ''Bad Request'' else StatusText status)
      in gin_JSON c status \<lparr>pd_Type = [], pd_Title = title, pd_Status = status, pd_Detail = err,
           pd_Instance = gin_RequestURI c, pd_RequestID = gin_requestID c\<rparr>)"

text \<open>
  What the validator of the OpenAPI document reports: its error, whether that is a
  \<^verbatim>\<open>*routers.RouteError\<close>, its message and the status that the middleware proposes.
\<close>

record violation =
  vi_error :: go_error
  vi_is_route :: bool
  vi_message :: string
  vi_status :: int

text \<open>The middleware records the error on the context before it calls the handler.\<close>

definition validatorErrorHandler :: "'r gin \<Rightarrow> violation \<Rightarrow> 'r gin" where
  "validatorErrorHandler c v =
     paramParseErrorHandler c [S (vi_message v)] (if vi_is_route v then 404 else vi_status v)"

definition validatorMW :: "violation option \<Rightarrow> 'r link \<Rightarrow> 'r link" where
  "validatorMW found next = (\<lambda>c d.
     case found of
       None \<Rightarrow> next c d
     | Some v \<Rightarrow> (None, validatorErrorHandler (gin_Error c (vi_error v)) v, d))"

text \<open>
  The generated wrapper and strict handler of an operation: a parameter that does not bind is answered by
  \<^verbatim>\<open>paramParseErrorHandler\<close>, a body that does not decode by \<^verbatim>\<open>RequestErrorHandlerFunc\<close>, an
  error of the handler by \<^verbatim>\<open>HandlerErrorFunc\<close>.
\<close>

definition RequestErrorHandlerFunc :: "'r gin \<Rightarrow> go_error \<Rightarrow> 'r gin" where
  "RequestErrorHandlerFunc c e = gin_Error (c\<lparr>gin_status := 400\<rparr>) e"

definition HandlerErrorFunc :: "'r gin \<Rightarrow> go_error \<Rightarrow> 'r gin" where
  "HandlerErrorFunc c e = (gin_Error c e)\<lparr>gin_status := 500\<rparr>"

definition operation :: "(message \<times> int) option \<Rightarrow> go_error option \<Rightarrow> 'r tx \<Rightarrow> 'r link" where
  "operation badParam badBody handler = (\<lambda>c d.
     case badParam of
       Some (err, status) \<Rightarrow> (None, paramParseErrorHandler c err status, d)
     | None \<Rightarrow>
         (case badBody of
            Some e \<Rightarrow> (None, RequestErrorHandlerFunc c e, d)
          | None \<Rightarrow>
              (case handler d of
                 (Ok r, d1) \<Rightarrow> (None, c\<lparr>gin_reply := Some (Reply r)\<rparr>, d1)
               | (Err e, d1) \<Rightarrow> (None, HandlerErrorFunc c e, d1)
               | (Panic p, d1) \<Rightarrow> (Some p, c, d1))))"

section \<open>The chain\<close>

record edge =
  ed_provider :: Provider
  ed_generated :: string
  ed_violation :: "violation option"
  ed_badParam :: "(message \<times> int) option"
  ed_badBody :: "go_error option"

definition authed :: "edge \<Rightarrow> 'r tx \<Rightarrow> 'r link" where
  "authed ed handler =
     requestid_Middleware (ed_generated ed) (recovery_Middleware (ErrorHandler
       (Auth (ed_provider ed) (validatorMW (ed_violation ed)
         (operation (ed_badParam ed) (ed_badBody ed) handler)))))"

section \<open>Construction\<close>

datatype server_error = ErrMissingConfig | ErrMissingLogger | ErrMissingHandlers | ErrMissingChecker
  | ErrMissingAuth | ErrMissingGatherer | ErrMissingRegisterer | ErrInvalidTLSConfig

text \<open>The bundle of dependencies, reduced to what \<^verbatim>\<open>validateDeps\<close> looks at: which are nil, and the TLS files.\<close>

record Deps =
  dp_Config :: "(string \<times> string) option"
  dp_Logger :: bool
  dp_Handlers :: bool
  dp_Checker :: bool
  dp_AuthProvider :: bool
  dp_Gatherer :: bool
  dp_HTTPMetricsRegisterer :: bool

definition validateDeps :: "Deps \<Rightarrow> server_error option" where
  "validateDeps dp =
     (case dp_Config dp of
        None \<Rightarrow> Some ErrMissingConfig
      | Some (certFile, keyFile) \<Rightarrow>
          if \<not> dp_Logger dp then Some ErrMissingLogger
          else if \<not> dp_Handlers dp then Some ErrMissingHandlers
          else if \<not> dp_Checker dp then Some ErrMissingChecker
          else if \<not> dp_AuthProvider dp then Some ErrMissingAuth
          else if \<not> dp_Gatherer dp then Some ErrMissingGatherer
          else if \<not> dp_HTTPMetricsRegisterer dp then Some ErrMissingRegisterer
          else if (certFile = []) \<noteq> (keyFile = []) then Some ErrInvalidTLSConfig
          else None)"

section \<open>Who is let in, and what is answered\<close>

definition bearer :: "'r gin \<Rightarrow> string option" where
  "bearer c = (case CutPrefix (gin_Authorization c) ''Bearer '' of
     None \<Rightarrow> None | Some t \<Rightarrow> if t = [] then None else Some t)"

definition let_in :: "edge \<Rightarrow> 'r gin \<Rightarrow> bool" where
  "let_in ed c \<longleftrightarrow> (\<exists>t pr. bearer c = Some t \<and> ed_provider ed t = Ok pr)"

definition well_formed :: "edge \<Rightarrow> bool" where
  "well_formed ed \<longleftrightarrow> ed_violation ed = None \<and> ed_badParam ed = None \<and> ed_badBody ed = None"

lemma gin_simps [simp]:
  "gin_reply (gin_JSON c st pd) = Some (ProblemReply st pd)"
  "gin_reply (gin_Error c e) = gin_reply c"
  "gin_errors (gin_Error c e) = gin_errors c @ [e]"
  by (simp_all add: gin_JSON_def gin_Error_def)

lemma paramParseErrorHandler_replies [simp]: "gin_reply (paramParseErrorHandler c m st) \<noteq> None"
  by (simp add: paramParseErrorHandler_def Let_def)

text \<open>What the links do, one lemma per link of the chain.\<close>

lemma Auth_cases:
  obtains (missing) "bearer c = None"
      "\<And>rest d. Auth prov rest c d =
        (None, gin_Error c (New Unauthorized [Lit ''missing or malformed Authorization header'']), d)"
  | (refused) t e where "bearer c = Some t" "prov t = Err e"
      "\<And>rest d. Auth prov rest c d = (None, gin_Error c (New Unauthorized [Lit ''authentication failed'']), d)"
  | (panics) t s where "bearer c = Some t" "prov t = Panic s" "\<And>rest d. Auth prov rest c d = (Some s, c, d)"
  | (accepted) t pr where "bearer c = Some t" "prov t = Ok pr"
      "\<And>rest d. Auth prov rest c d = rest (c\<lparr>gin_subject := Some (pr_Subject pr)\<rparr>) d"
proof (cases "CutPrefix (gin_Authorization c) ''Bearer ''")
  case None
  then show thesis by (intro missing) (simp_all add: Auth_def bearer_def)
next
  case (Some t)
  show thesis
  proof (cases "t = []")
    case True
    with Some show thesis by (intro missing) (simp_all add: Auth_def bearer_def)
  next
    case False
    with Some show thesis
      by (cases "prov t") (auto simp: Auth_def bearer_def intro: refused panics accepted)
  qed
qed

lemma ErrorHandler_replied:
  "rest c d = (None, c1, d1) \<Longrightarrow> gin_reply c1 \<noteq> None \<Longrightarrow> ErrorHandler rest c d = (None, c1, d1)"
  by (simp add: ErrorHandler_def)

lemma ErrorHandler_failed:
  assumes "rest c d = (None, c1, d1)" "gin_reply c1 = None" "gin_errors c1 = es @ [e]"
  obtains pd c2 where "ErrorHandler rest c d = (None, c2, d1)" "gin_reply c2 = Some (ProblemReply (pd_Status pd) pd)"
    "case errors_As e of
       Some (code, st, det) \<Rightarrow> pd_Status pd = st \<and> pd_Detail pd = det \<and>
         (code \<noteq> NoCode \<longrightarrow> pd_Type pd = typeURIBase @ slug code)
     | None \<Rightarrow> pd_Status pd = 500 \<and> pd_Detail pd = [] \<and> pd_Type pd = []"
proof (cases "errors_As e")
  case None
  define pd where "pd = \<lparr>pd_Type = [], pd_Title = ''Internal Server Error'', pd_Status = 500, pd_Detail = [],
    pd_Instance = gin_RequestURI c1, pd_RequestID = gin_requestID c1\<rparr>"
  have "ErrorHandler rest c d = (None, gin_JSON c1 500 pd, d1)"
    using assms None by (simp add: ErrorHandler_def pd_def)
  then show thesis by (rule that [where pd = pd]) (simp_all add: None pd_def)
next
  case (Some a)
  obtain code st det where a: "a = (code, st, det)" by (cases a)
  define pd where "pd = ToProblemDetails a (gin_RequestURI c1) (gin_requestID c1)"
  have pd: "pd_Status pd = st" "pd_Detail pd = det" "code \<noteq> NoCode \<Longrightarrow> pd_Type pd = typeURIBase @ slug code"
    using catalogue_total [of code] by (auto simp: pd_def a ToProblemDetails_def split: option.splits)
  have "ErrorHandler rest c d = (None, gin_JSON c1 st pd, d1)"
    using assms Some by (simp add: ErrorHandler_def pd_def a)
  then show thesis by (rule that [where pd = pd]) (simp_all add: Some a pd)
qed

lemma operation_spec:
  assumes "ed_violation ed = None" "ed_badParam ed = None" "ed_badBody ed = None"
  shows "validatorMW (ed_violation ed) (operation (ed_badParam ed) (ed_badBody ed) h) c d =
    (case h d of
       (Ok r, d1) \<Rightarrow> (None, c\<lparr>gin_reply := Some (Reply r)\<rparr>, d1)
     | (Err e, d1) \<Rightarrow> (None, (gin_Error c e)\<lparr>gin_status := 500\<rparr>, d1)
     | (Panic p, d1) \<Rightarrow> (Some p, c, d1))"
  using assms by (simp add: validatorMW_def operation_def HandlerErrorFunc_def split: prod.split res.split)

text \<open>A malformed request is answered, or recorded as an error, and no handler runs.\<close>

lemma operation_malformed:
  assumes "\<not> well_formed ed"
  obtains c1 where "validatorMW (ed_violation ed) (operation (ed_badParam ed) (ed_badBody ed) h) c d = (None, c1, d)"
    "gin_reply c1 \<noteq> None \<or> (\<exists>e. gin_reply c1 = gin_reply c \<and> gin_errors c1 = gin_errors c @ [e])"
proof (cases "ed_violation ed")
  case (Some v)
  then show thesis
    by (intro that [of "validatorErrorHandler (gin_Error c (vi_error v)) v"])
      (simp_all add: validatorMW_def validatorErrorHandler_def del: not_None_eq)
next
  case valid: None
  show thesis
  proof (cases "ed_badParam ed")
    case (Some b)
    obtain m st where "b = (m, st)" by force
    with Some valid show thesis
      by (intro that [of "paramParseErrorHandler c m st"])
        (simp_all add: validatorMW_def operation_def del: not_None_eq)
  next
    case None
    with valid assms obtain e where "ed_badBody ed = Some e" by (auto simp: well_formed_def)
    then show thesis
      by (intro that [of "RequestErrorHandlerFunc c e"])
        (simp_all add: None valid validatorMW_def operation_def RequestErrorHandlerFunc_def)
  qed
qed

lemma surjective_pairing3: "x = (fst x, fst (snd x), snd (snd x))"
  by simp

text \<open>C8: Every request to the API gets exactly one response and no panic leaves the chain. The tables change only for
  a request that carries an accepted token and is well formed, and then as its handler changes them. The response is that of the
  handler; an application error is answered with its status and detail, any other error and a panic with a
  bare 500 that tells nothing of the cause. A request with no token or a refused one is answered with 401 and
  the type of an unauthorized request, whatever the reason of the refusal.\<close>

theorem every_request_answered:
  assumes "authed ed handler c d = (p, c', d')" "gin_errors c = []" "gin_reply c = None"
  shows "p = None \<and> gin_reply c' \<noteq> None \<and>
    (d' \<noteq> d \<longrightarrow> let_in ed c \<and> well_formed ed) \<and>
    (let_in ed c \<and> well_formed ed \<longrightarrow> d' = snd (handler d) \<and>
       (case fst (handler d) of
          Ok r \<Rightarrow> gin_reply c' = Some (Reply r)
        | Err e \<Rightarrow> \<exists>pd. gin_reply c' = Some (ProblemReply (pd_Status pd) pd) \<and>
            (case errors_As e of
               Some (code, st, det) \<Rightarrow> pd_Status pd = st \<and> pd_Detail pd = det \<and>
                 (code \<noteq> NoCode \<longrightarrow> pd_Type pd = typeURIBase @ slug code)
             | None \<Rightarrow> pd_Status pd = 500 \<and> pd_Detail pd = [] \<and> pd_Type pd = [])
        | Panic s \<Rightarrow> gin_reply c' = Some (ProblemReply 500 PanicWriter))) \<and>
    (bearer c = None \<or> (\<exists>t e. bearer c = Some t \<and> ed_provider ed t = Err e) \<longrightarrow>
       (\<exists>pd. gin_reply c' = Some (ProblemReply 401 pd) \<and> pd_Type pd = typeURIBase @ ''unauthorized''))"
proof -
  define c0 where "c0 = c\<lparr>gin_requestID := (if gin_XRequestID c = [] then ed_generated ed else gin_XRequestID c)\<rparr>"
  let ?rest = "validatorMW (ed_violation ed) (operation (ed_badParam ed) (ed_badBody ed) handler)"
  let ?auth = "Auth (ed_provider ed) ?rest"
  have c0: "gin_errors c0 = []" "gin_reply c0 = None" "bearer c0 = bearer c"
    using assms(2,3) by (simp_all add: c0_def bearer_def)
  have run: "recovery_Middleware (ErrorHandler ?auth) c0 d = (p, c', d')"
    using assms(1) by (simp add: authed_def requestid_Middleware_def c0_def)
  have unauthorized: ?thesis
    if a: "?auth c0 d = (None, gin_Error c0 (New Unauthorized [Lit det]), d)"
      and "\<not> let_in ed c" for det
  proof -
    obtain pd c2 where "ErrorHandler ?auth c0 d = (None, c2, d)"
      "gin_reply c2 = Some (ProblemReply (pd_Status pd) pd)" "pd_Status pd = 401"
      "pd_Type pd = typeURIBase @ ''unauthorized''"
      by (rule ErrorHandler_failed [of ?auth c0 d _ d "[]" "New Unauthorized [Lit det]", OF a])
        (use c0 in \<open>simp_all split: option.splits\<close>)
    with run that(2) show ?thesis by (auto simp: recovery_Middleware_def)
  qed
  show ?thesis
  proof (cases rule: Auth_cases [of c0 "ed_provider ed"])
    case missing
    then show ?thesis using c0 by (intro unauthorized) (simp_all add: let_in_def)
  next
    case (refused t e)
    then show ?thesis using c0 by (intro unauthorized) (simp_all add: let_in_def)
  next
    case (panics t s)
    then show ?thesis
      using run c0 by (auto simp: recovery_Middleware_def ErrorHandler_def gin_JSON_def let_in_def)
  next
    case (accepted t pr)
    define c1 where "c1 = c0\<lparr>gin_subject := Some (pr_Subject pr)\<rparr>"
    have c1: "gin_errors c1 = []" "gin_reply c1 = None" using c0 by (simp_all add: c1_def)
    have a: "?auth c0 d = ?rest c1 d" using accepted(3) by (simp add: c1_def)
    have let_in: "let_in ed c" "bearer c = Some t" "ed_provider ed t = Ok pr"
      using accepted c0 by (auto simp: let_in_def)
    show ?thesis
    proof (cases "well_formed ed")
      case True
      then have ed: "ed_violation ed = None" "ed_badParam ed = None" "ed_badBody ed = None"
        by (simp_all add: well_formed_def)
      obtain r d1 where h: "handler d = (r, d1)" by force
      note rest = trans [OF a operation_spec [OF ed]]
      show ?thesis
      proof (cases r)
        case (Ok x)
        then have "ErrorHandler ?auth c0 d = (None, c1\<lparr>gin_reply := Some (Reply x)\<rparr>, d1)"
          using rest h by (intro ErrorHandler_replied) simp_all
        then show ?thesis using run let_in True h Ok by (auto simp: recovery_Middleware_def)
      next
        case (Err e)
        define c2 where "c2 = (gin_Error c1 e)\<lparr>gin_status := 500\<rparr>"
        have "?auth c0 d = (None, c2, d1)" using rest h Err by (simp add: c2_def)
        moreover have "gin_reply c2 = None" "gin_errors c2 = [] @ [e]" using c1 by (simp_all add: c2_def)
        ultimately obtain pd c3 where "ErrorHandler ?auth c0 d = (None, c3, d1)"
          "gin_reply c3 = Some (ProblemReply (pd_Status pd) pd)"
          "case errors_As e of
             Some (code, st, det) \<Rightarrow> pd_Status pd = st \<and> pd_Detail pd = det \<and>
               (code \<noteq> NoCode \<longrightarrow> pd_Type pd = typeURIBase @ slug code)
           | None \<Rightarrow> pd_Status pd = 500 \<and> pd_Detail pd = [] \<and> pd_Type pd = []"
          by (rule ErrorHandler_failed)
        then show ?thesis using run let_in True h Err by (auto simp: recovery_Middleware_def)
      next
        case (Panic s)
        then have "?auth c0 d = (Some s, c1, d1)" using rest h by simp
        then show ?thesis using run let_in True h Panic by (auto simp: recovery_Middleware_def ErrorHandler_def)
      qed
    next
      case False
      obtain c2 where c2: "?rest c1 d = (None, c2, d)"
        "gin_reply c2 \<noteq> None \<or> (\<exists>e. gin_reply c2 = gin_reply c1 \<and> gin_errors c2 = gin_errors c1 @ [e])"
        by (rule operation_malformed [OF False])
      have "\<exists>c3. ErrorHandler ?auth c0 d = (None, c3, d) \<and> gin_reply c3 \<noteq> None"
        using c2 a c1 by (auto simp: ErrorHandler_def split: option.splits)
      then show ?thesis using run let_in False by (auto simp: recovery_Middleware_def)
    qed
  qed
qed

text \<open>The same with the token provider of production, whose verdict about a service account that is not listed is 403.\<close>

definition ex_edge :: edge where
  "ex_edge = \<lparr>ed_provider = JWT_Authenticate (NewJWTProvider
      (Validate 0 [\<lparr>nv_name = ''internal'', nv_ValidateToken = (\<lambda>t. Some (ValidatedClaims t))\<rparr>]) [''loader'']),
    ed_generated = ''id'', ed_violation = None, ed_badParam = None, ed_badBody = None\<rparr>"

theorem every_request_answered_witness:
  "fst (authed ex_edge (tret True) (new_context ''/flows'' ''Bearer loader'' []) empty_db) = None \<and>
   gin_reply (fst (snd (authed ex_edge (tret True) (new_context ''/flows'' ''Bearer loader'' []) empty_db))) =
     Some (Reply True) \<and>
   JWT_Authenticate (NewJWTProvider
      (Validate 0 [\<lparr>nv_name = ''internal'', nv_ValidateToken = (\<lambda>t. Some (ValidatedClaims t))\<rparr>]) [''loader'']) ''x'' =
     Err (New Forbidden [Lit ''service account not permitted'']) \<and>
   (\<exists>pd. gin_reply (fst (snd (authed ex_edge (tret True) (new_context ''/flows'' ''Bearer x'' []) empty_db))) =
     Some (ProblemReply 401 pd))"
proof -
  have b: "bearer (new_context ''/flows'' (''Bearer '' @ t) []) = Some t" if "t \<noteq> []" for t
    using that by (simp add: bearer_def CutPrefix_def HasPrefix_def new_context_def)
  have e: "gin_errors (new_context a b e) = []" "gin_reply (new_context a b e) = None" for a b e
    by (simp_all add: new_context_def)
  note edge_eval = ex_edge_def JWT_Authenticate_def NewJWTProvider_def Validate_def internalIssuerName_def
  have loader: "let_in ex_edge (new_context ''/flows'' ''Bearer loader'' [])" "well_formed ex_edge"
    using b [of "''loader''"] by (auto simp: let_in_def well_formed_def edge_eval)
  have x: "bearer (new_context ''/flows'' ''Bearer x'' []) = Some ''x''"
    "ed_provider ex_edge ''x'' = Err (New Forbidden [Lit ''service account not permitted''])"
    using b [of "''x''"] by (simp_all add: edge_eval)
  note answered = every_request_answered [OF surjective_pairing3 e, where ed = ex_edge and handler = "tret True" and d = empty_db]
  have "fst (authed ex_edge (tret True) (new_context ''/flows'' ''Bearer loader'' []) empty_db) = None"
    by (rule answered [THEN conjunct1])
  moreover have "gin_reply (fst (snd (authed ex_edge (tret True) (new_context ''/flows'' ''Bearer loader'' []) empty_db))) =
      Some (Reply True)"
    using answered [THEN conjunct2, THEN conjunct2, THEN conjunct2, THEN conjunct1, THEN mp, OF conjI [OF loader]]
    by (simp add: tret_def)
  moreover have "\<exists>t e. bearer (new_context ''/flows'' ''Bearer x'' []) = Some t \<and> ed_provider ex_edge t = Err e"
    using x by blast
  then have "\<exists>pd. gin_reply (fst (snd (authed ex_edge (tret True) (new_context ''/flows'' ''Bearer x'' []) empty_db))) =
      Some (ProblemReply 401 pd)"
    using answered [THEN conjunct2, THEN conjunct2, THEN conjunct2, THEN conjunct2, THEN mp, OF disjI2] by blast
  moreover have "JWT_Authenticate (NewJWTProvider
      (Validate 0 [\<lparr>nv_name = ''internal'', nv_ValidateToken = (\<lambda>t. Some (ValidatedClaims t))\<rparr>]) [''loader'']) ''x'' =
     Err (New Forbidden [Lit ''service account not permitted''])"
    by (simp add: edge_eval)
  ultimately show ?thesis by blast
qed

end
