(* ===== verification/Config.thy ===== *)
theory Config
  imports Durations Access Http_Edge
begin

text \<open>
  The configuration of the server, \<^verbatim>\<open>internal/config/config.go\<close>: \<^verbatim>\<open>Load\<close> reads the environment, applies the defaults
  and collects every error, \<^verbatim>\<open>Redacted\<close> hides the secrets. From \<^verbatim>\<open>cmd/opentams/serve.go\<close> come the
  clamp of the stale threshold and \<^verbatim>\<open>buildAuth\<close>, which chooses the token provider. The environment is
  a function; an unset variable reads as the empty string. The errors are values, not texts.
\<close>

section \<open>Text\<close>

text \<open>The white space of \<^verbatim>\<open>unicode.IsSpace\<close> in UTF-8.\<close>

definition spaces :: "string list" where
  "spaces = map (\<lambda>n. [char_of n]) [9, 10, 11, 12, 13, 32 :: nat] @
     [[CHR 0xC2, CHR 0x85], [CHR 0xC2, CHR 0xA0], [CHR 0xE1, CHR 0x9A, CHR 0x80]] @
     map (\<lambda>n. [CHR 0xE2, CHR 0x80, char_of (n :: nat)]) [0x80 ..< 0x8B] @
     [[CHR 0xE2, CHR 0x80, CHR 0xA8], [CHR 0xE2, CHR 0x80, CHR 0xA9], [CHR 0xE2, CHR 0x80, CHR 0xAF],
      [CHR 0xE2, CHR 0x81, CHR 0x9F], [CHR 0xE3, CHR 0x80, CHR 0x80]]"

fun trim_left :: "nat \<Rightarrow> string \<Rightarrow> string" where
  "trim_left 0 s = s"
| "trim_left (Suc n) s =
     (case find (\<lambda>sp. HasPrefix s sp) spaces of
        None \<Rightarrow> s
      | Some sp \<Rightarrow> trim_left n (drop (length sp) s))"

text \<open>The same from the right, on the reversed text.\<close>

fun trim_right :: "nat \<Rightarrow> string \<Rightarrow> string" where
  "trim_right 0 s = s"
| "trim_right (Suc n) s =
     (case find (\<lambda>sp. HasPrefix (rev s) (rev sp)) spaces of
        None \<Rightarrow> s
      | Some sp \<Rightarrow> trim_right n (take (length s - length sp) s))"

definition TrimSpace :: "string \<Rightarrow> string" where
  "TrimSpace s = (let t = trim_left (length s) s in trim_right (length t) t)"

text \<open>\<^verbatim>\<open>strings.Split\<close> at a single byte.\<close>

fun Split :: "char \<Rightarrow> string \<Rightarrow> string list" where
  "Split sep [] = [[]]"
| "Split sep (c # s) =
     (case Split sep s of
        [] \<Rightarrow> [[c]]
      | p # ps \<Rightarrow> if c = sep then [] # p # ps else (c # p) # ps)"

section \<open>Data\<close>

record Config =
  ServerPort :: int
  ServerTLSCertFile :: string
  ServerTLSKeyFile :: string
  ServerGracefulShutdownPeriod :: int
  ServerRateLimitRPS :: int
  ServerRateLimitBurst :: int
  DBHost :: string
  DBPort :: int
  DBName :: string
  DBUser :: string
  DBPassword :: string
  DBSSLMode :: string
  DBPoolMin :: int
  DBPoolMax :: int
  ObjectStoreBucket :: string
  ObjectStoreRegion :: string
  ObjectStoreEndpoint :: string
  ObjectStoreAccessKeyID :: string
  ObjectStoreSecretAccessKey :: string
  ObjectStorePresignExpiry :: int
  StorageBackendProvider :: string
  StorageBackendProduct :: string
  AuthExternalIssuerURL :: string
  AuthExternalAudience :: string
  AuthInternalIssuerURL :: string
  AuthInternalAudience :: string
  AuthInternalAllowedSubjects :: "string list"
  AuthJWKSTTL :: int
  AppEnv :: string
  LogLevel :: string
  IdempotencyKeyTTL :: int
  IdempotencyStaleThreshold :: int
  IdempotencyReaperInterval :: int
  GCPollInterval :: int
  GCBatchSize :: int

datatype config_error =
    InvalidInteger string string
  | InvalidDuration string string
  | InvalidValue string string "string list"
  | Missing string
  | MissingInProduction string
  | MissingWith string string
  | InvalidPort string int
  | NotPositive string int
  | NotLess string string int int
  | TooSmall string int
  | TooLarge string int

type_synonym environ = "string \<Rightarrow> string"

definition getString :: "environ \<Rightarrow> string \<Rightarrow> string \<Rightarrow> string" where
  "getString getenv key def = (if getenv key \<noteq> [] then getenv key else def)"

definition getStringSlice :: "environ \<Rightarrow> string \<Rightarrow> string list" where
  "getStringSlice getenv key =
     (if getenv key = [] then []
      else filter (\<lambda>s. s \<noteq> []) (map TrimSpace (Split (CHR '','') (getenv key))))"

definition getInt :: "environ \<Rightarrow> string \<Rightarrow> int \<Rightarrow> int \<times> config_error list" where
  "getInt getenv key def =
     (let v = getenv key
      in if v = [] then (def, [])
         else case ParseInt v 64 of
                (n, None) \<Rightarrow> (n, [])
              | (n, Some err) \<Rightarrow> (0, [InvalidInteger key v]))"

definition getDuration :: "environ \<Rightarrow> string \<Rightarrow> int \<Rightarrow> int \<times> config_error list" where
  "getDuration getenv key def =
     (let v = getenv key
      in if v = [] then (def, [])
         else case ParseDuration v of
                Some d \<Rightarrow> (d, [])
              | None \<Rightarrow> (0, [InvalidDuration key v]))"

definition getEnum :: "environ \<Rightarrow> string \<Rightarrow> string \<Rightarrow> string list \<Rightarrow> string \<times> config_error list" where
  "getEnum getenv key def valid =
     (let v = getenv key
      in if v = [] then (def, [])
         else if v \<in> set valid then (v, [])
         else (def, [InvalidValue key v valid]))"

section \<open>Reading\<close>

definition second :: int where
  "second = 1000000000"

definition ssl_default :: "string \<Rightarrow> string" where
  "ssl_default appEnv = (if appEnv = ''development'' then ''prefer'' else ''require'')"

text \<open>The fields as \<^verbatim>\<open>Load\<close> fills them, before the checks.\<close>

definition read_config :: "environ \<Rightarrow> Config" where
  "read_config g =
     (let appEnv = fst (getEnum g ''APP_ENV'' ''production'' [''production'', ''development''])
      in \<lparr>ServerPort = fst (getInt g ''SERVER_PORT'' 8080),
          ServerTLSCertFile = getString g ''SERVER_TLS_CERT_FILE'' [],
          ServerTLSKeyFile = getString g ''SERVER_TLS_KEY_FILE'' [],
          ServerGracefulShutdownPeriod = fst (getDuration g ''SERVER_GRACEFUL_SHUTDOWN_PERIOD'' (30 * second)),
          ServerRateLimitRPS = fst (getInt g ''SERVER_RATE_LIMIT_RPS'' 1000),
          ServerRateLimitBurst = fst (getInt g ''SERVER_RATE_LIMIT_BURST'' 100),
          DBHost = getString g ''DB_HOST'' [],
          DBPort = fst (getInt g ''DB_PORT'' 5432),
          DBName = getString g ''DB_NAME'' [],
          DBUser = getString g ''DB_USER'' [],
          DBPassword = getString g ''DB_PASSWORD'' [],
          DBSSLMode = fst (getEnum g ''DB_SSLMODE'' (ssl_default appEnv)
            [''disable'', ''allow'', ''prefer'', ''require'', ''verify-ca'', ''verify-full'']),
          DBPoolMin = fst (getInt g ''DB_POOL_MIN'' 2),
          DBPoolMax = fst (getInt g ''DB_POOL_MAX'' 10),
          ObjectStoreBucket = getString g ''OBJECT_STORE_BUCKET'' [],
          ObjectStoreRegion = getString g ''OBJECT_STORE_REGION'' [],
          ObjectStoreEndpoint = getString g ''OBJECT_STORE_ENDPOINT'' [],
          ObjectStoreAccessKeyID = getString g ''OBJECT_STORE_ACCESS_KEY_ID'' [],
          ObjectStoreSecretAccessKey = getString g ''OBJECT_STORE_SECRET_ACCESS_KEY'' [],
          ObjectStorePresignExpiry = fst (getDuration g ''OBJECT_STORE_PRESIGN_EXPIRY'' (3600 * second)),
          StorageBackendProvider = getString g ''STORAGE_BACKEND_PROVIDER'' [],
          StorageBackendProduct = getString g ''STORAGE_BACKEND_PRODUCT'' ''s3'',
          AuthExternalIssuerURL = getString g ''AUTH_EXTERNAL_ISSUER_URL'' [],
          AuthExternalAudience = getString g ''AUTH_EXTERNAL_AUDIENCE'' [],
          AuthInternalIssuerURL = getString g ''AUTH_INTERNAL_ISSUER_URL'' [],
          AuthInternalAudience = getString g ''AUTH_INTERNAL_AUDIENCE'' [],
          AuthInternalAllowedSubjects = getStringSlice g ''AUTH_INTERNAL_ALLOWED_SUBJECTS'',
          AuthJWKSTTL = fst (getDuration g ''AUTH_JWKS_TTL'' (900 * second)),
          AppEnv = appEnv,
          LogLevel = fst (getEnum g ''LOG_LEVEL'' ''info'' [''debug'', ''info'', ''warn'', ''error'']),
          IdempotencyKeyTTL = fst (getDuration g ''IDEMPOTENCY_KEY_TTL'' (3600 * second)),
          IdempotencyStaleThreshold = fst (getDuration g ''IDEMPOTENCY_STALE_THRESHOLD'' (60 * second)),
          IdempotencyReaperInterval = fst (getDuration g ''IDEMPOTENCY_REAPER_INTERVAL'' (60 * second)),
          GCPollInterval = fst (getDuration g ''GC_POLL_INTERVAL'' (300 * second)),
          GCBatchSize = fst (getInt g ''GC_BATCH_SIZE'' 100)\<rparr>)"

text \<open>The errors of reading, in the order of the calls of \<^verbatim>\<open>add\<close>.\<close>

definition read_errors :: "environ \<Rightarrow> config_error list" where
  "read_errors g =
     snd (getInt g ''SERVER_PORT'' 8080) @
     snd (getDuration g ''SERVER_GRACEFUL_SHUTDOWN_PERIOD'' (30 * second)) @
     snd (getInt g ''SERVER_RATE_LIMIT_RPS'' 1000) @
     snd (getInt g ''SERVER_RATE_LIMIT_BURST'' 100) @
     snd (getInt g ''DB_PORT'' 5432) @
     snd (getInt g ''DB_POOL_MIN'' 2) @
     snd (getInt g ''DB_POOL_MAX'' 10) @
     snd (getDuration g ''OBJECT_STORE_PRESIGN_EXPIRY'' (3600 * second)) @
     snd (getDuration g ''AUTH_JWKS_TTL'' (900 * second)) @
     snd (getEnum g ''APP_ENV'' ''production'' [''production'', ''development'']) @
     snd (getEnum g ''LOG_LEVEL'' ''info'' [''debug'', ''info'', ''warn'', ''error'']) @
     snd (getEnum g ''DB_SSLMODE'' (ssl_default (AppEnv (read_config g)))
       [''disable'', ''allow'', ''prefer'', ''require'', ''verify-ca'', ''verify-full'']) @
     snd (getDuration g ''IDEMPOTENCY_KEY_TTL'' (3600 * second)) @
     snd (getDuration g ''IDEMPOTENCY_STALE_THRESHOLD'' (60 * second)) @
     snd (getDuration g ''IDEMPOTENCY_REAPER_INTERVAL'' (60 * second)) @
     snd (getDuration g ''GC_POLL_INTERVAL'' (300 * second)) @
     snd (getInt g ''GC_BATCH_SIZE'' 100)"

section \<open>Checks\<close>

definition report :: "bool \<Rightarrow> config_error \<Rightarrow> config_error list" where
  "report bad e = (if bad then [e] else [])"

text \<open>Two variables that must be set together.\<close>

definition together :: "string \<Rightarrow> string \<Rightarrow> string \<Rightarrow> string \<Rightarrow> config_error list" where
  "together key1 v1 key2 v2 =
     (if (v1 = []) \<noteq> (v2 = []) then
        if v1 = [] then [MissingWith key1 key2] else [MissingWith key2 key1]
      else [])"

definition check_config :: "Config \<Rightarrow> config_error list" where
  "check_config c =
     report (DBHost c = []) (Missing ''DB_HOST'') @
     report (DBName c = []) (Missing ''DB_NAME'') @
     report (DBUser c = []) (Missing ''DB_USER'') @
     report (DBPassword c = []) (Missing ''DB_PASSWORD'') @
     report (ObjectStoreBucket c = []) (Missing ''OBJECT_STORE_BUCKET'') @
     report (ObjectStoreRegion c = []) (Missing ''OBJECT_STORE_REGION'') @
     report (StorageBackendProvider c = []) (Missing ''STORAGE_BACKEND_PROVIDER'') @
     (if AppEnv c \<noteq> ''development'' then
        report (AuthExternalIssuerURL c = []) (MissingInProduction ''AUTH_EXTERNAL_ISSUER_URL'') @
        report (AuthExternalAudience c = []) (MissingInProduction ''AUTH_EXTERNAL_AUDIENCE'')
      else []) @
     together ''AUTH_INTERNAL_ISSUER_URL'' (AuthInternalIssuerURL c) ''AUTH_INTERNAL_AUDIENCE'' (AuthInternalAudience c) @
     report (AuthInternalIssuerURL c \<noteq> [] \<and> AuthInternalAllowedSubjects c = [])
       (MissingWith ''AUTH_INTERNAL_ALLOWED_SUBJECTS'' ''AUTH_INTERNAL_ISSUER_URL'') @
     report (ServerPort c < 1 \<or> ServerPort c > 65535) (InvalidPort ''SERVER_PORT'' (ServerPort c)) @
     report (DBPort c < 1 \<or> DBPort c > 65535) (InvalidPort ''DB_PORT'' (DBPort c)) @
     report (IdempotencyKeyTTL c \<le> 0) (NotPositive ''IDEMPOTENCY_KEY_TTL'' (IdempotencyKeyTTL c)) @
     report (IdempotencyStaleThreshold c \<le> 0)
       (NotPositive ''IDEMPOTENCY_STALE_THRESHOLD'' (IdempotencyStaleThreshold c)) @
     report (IdempotencyReaperInterval c \<le> 0)
       (NotPositive ''IDEMPOTENCY_REAPER_INTERVAL'' (IdempotencyReaperInterval c)) @
     report (IdempotencyStaleThreshold c \<ge> IdempotencyKeyTTL c)
       (NotLess ''IDEMPOTENCY_STALE_THRESHOLD'' ''IDEMPOTENCY_KEY_TTL'' (IdempotencyStaleThreshold c) (IdempotencyKeyTTL c)) @
     report (DBPoolMin c < 1) (TooSmall ''DB_POOL_MIN'' (DBPoolMin c)) @
     report (DBPoolMin c \<ge> DBPoolMax c) (NotLess ''DB_POOL_MIN'' ''DB_POOL_MAX'' (DBPoolMin c) (DBPoolMax c)) @
     report (DBPoolMax c > 100000) (TooLarge ''DB_POOL_MAX'' (DBPoolMax c)) @
     together ''OBJECT_STORE_ACCESS_KEY_ID'' (ObjectStoreAccessKeyID c)
       ''OBJECT_STORE_SECRET_ACCESS_KEY'' (ObjectStoreSecretAccessKey c) @
     together ''SERVER_TLS_CERT_FILE'' (ServerTLSCertFile c) ''SERVER_TLS_KEY_FILE'' (ServerTLSKeyFile c)"

definition Load :: "environ \<Rightarrow> config_error list + Config" where
  "Load g =
     (let c = read_config g; errs = read_errors g @ check_config c
      in if errs \<noteq> [] then Inl errs else Inr c)"

definition Redacted :: "Config \<Rightarrow> Config" where
  "Redacted c = c\<lparr>DBPassword := ''[redacted]'', ObjectStoreAccessKeyID := ''[redacted]'',
     ObjectStoreSecretAccessKey := ''[redacted]''\<rparr>"

section \<open>Startup\<close>

definition DefaultWriteTimeout :: int where
  "DefaultWriteTimeout = 60 * second"

text \<open>\<^verbatim>\<open>serve\<close> raises the stale threshold to the write timeout of the server.\<close>

definition staleThreshold :: "Config \<Rightarrow> int" where
  "staleThreshold c =
     (if IdempotencyStaleThreshold c < DefaultWriteTimeout then DefaultWriteTimeout else IdempotencyStaleThreshold c)"

record IssuerConfig =
  ic_Name :: string
  ic_IssuerURL :: string
  ic_Audience :: "string list"

definition issuers :: "Config \<Rightarrow> IssuerConfig list" where
  "issuers c =
     \<lparr>ic_Name = ''external'', ic_IssuerURL = AuthExternalIssuerURL c, ic_Audience = [AuthExternalAudience c]\<rparr> #
     (if AuthInternalIssuerURL c \<noteq> [] then
        [\<lparr>ic_Name = ''internal'', ic_IssuerURL = AuthInternalIssuerURL c, ic_Audience = [AuthInternalAudience c]\<rparr>]
      else [])"

text \<open>
  \<^verbatim>\<open>jwtauth.New\<close>: \<open>build\<close> stands for the parsing of the issuer's URL and the construction of the library's
  validator for it, which may fail.
\<close>

fun new_validators :: "(IssuerConfig \<Rightarrow> (string \<Rightarrow> claims option) option) \<Rightarrow> IssuerConfig list \<Rightarrow> namedValidator list option" where
  "new_validators build [] = Some []"
| "new_validators build (iss # rest) =
     (case build iss of
        None \<Rightarrow> None
      | Some v \<Rightarrow> map_option ((#) \<lparr>nv_name = ic_Name iss, nv_ValidateToken = v\<rparr>) (new_validators build rest))"

definition buildAuth ::
    "(IssuerConfig \<Rightarrow> (string \<Rightarrow> claims option) option) \<Rightarrow> int \<Rightarrow> Config \<Rightarrow> Provider option" where
  "buildAuth build unix c =
     (if AppEnv c = ''development'' then Some Dev_Authenticate
      else map_option (\<lambda>vs. JWT_Authenticate (NewJWTProvider (Validate unix vs) (AuthInternalAllowedSubjects c)))
        (new_validators build (issuers c)))"

section \<open>What a loaded configuration guarantees\<close>

definition both_or_neither :: "string \<Rightarrow> string \<Rightarrow> bool" where
  "both_or_neither a b \<longleftrightarrow> (a = []) = (b = [])"

definition config_ok :: "Config \<Rightarrow> bool" where
  "config_ok c \<longleftrightarrow>
     [] \<notin> {DBHost c, DBName c, DBUser c, DBPassword c, ObjectStoreBucket c, ObjectStoreRegion c, StorageBackendProvider c} \<and>
     (AppEnv c \<noteq> ''development'' \<longrightarrow> AuthExternalIssuerURL c \<noteq> [] \<and> AuthExternalAudience c \<noteq> []) \<and>
     both_or_neither (AuthInternalIssuerURL c) (AuthInternalAudience c) \<and>
     (AuthInternalIssuerURL c \<noteq> [] \<longrightarrow> AuthInternalAllowedSubjects c \<noteq> []) \<and>
     both_or_neither (ObjectStoreAccessKeyID c) (ObjectStoreSecretAccessKey c) \<and>
     both_or_neither (ServerTLSCertFile c) (ServerTLSKeyFile c) \<and>
     ServerPort c \<in> {1..65535} \<and> DBPort c \<in> {1..65535} \<and>
     1 \<le> DBPoolMin c \<and> DBPoolMin c < DBPoolMax c \<and> DBPoolMax c \<le> 100000 \<and>
     0 < IdempotencyReaperInterval c \<and>
     0 < IdempotencyStaleThreshold c \<and> IdempotencyStaleThreshold c < IdempotencyKeyTTL c"

lemma report_Nil [simp]: "report b e = [] \<longleftrightarrow> \<not> b"
  by (simp add: report_def)

lemma together_Nil [simp]: "together k v l w = [] \<longleftrightarrow> both_or_neither v w"
  by (simp add: together_def both_or_neither_def)

lemma check_config_Nil: "check_config c = [] \<longleftrightarrow> config_ok c"
  by (auto simp: check_config_def config_ok_def)

lemma Load_Inr: "Load g = Inr c \<longleftrightarrow> c = read_config g \<and> read_errors g = [] \<and> config_ok c"
  by (auto simp: Load_def Let_def check_config_Nil)

text \<open>Every error is reported, and every reported error is real: an error is a failed read or a failed check.\<close>

lemma Load_Inl: "Load g = Inl es \<longleftrightarrow> es = read_errors g @ check_config (read_config g) \<and> es \<noteq> []"
  by (auto simp: Load_def Let_def)

text \<open>The logged configuration does not depend on the secrets.\<close>

lemma Redacted_hides:
  "Redacted (c\<lparr>DBPassword := p, ObjectStoreAccessKeyID := k, ObjectStoreSecretAccessKey := s\<rparr>) = Redacted c"
  by (simp add: Redacted_def)

definition deps_of :: "Config \<Rightarrow> Deps" where
  "deps_of c = \<lparr>dp_Config = Some (ServerTLSCertFile c, ServerTLSKeyFile c), dp_Logger = True, dp_Handlers = True,
     dp_Checker = True, dp_AuthProvider = True, dp_Gatherer = True, dp_HTTPMetricsRegisterer = True\<rparr>"


definition ex_environ :: environ where
  "ex_environ key = (if key \<in> set [''DB_HOST'', ''DB_NAME'', ''DB_USER'', ''DB_PASSWORD'', ''OBJECT_STORE_BUCKET'',
      ''OBJECT_STORE_REGION'', ''STORAGE_BACKEND_PROVIDER'', ''AUTH_EXTERNAL_ISSUER_URL'', ''AUTH_EXTERNAL_AUDIENCE'',
      ''AUTH_INTERNAL_ISSUER_URL'', ''AUTH_INTERNAL_AUDIENCE''] then ''x''
    else if key = ''AUTH_INTERNAL_ALLOWED_SUBJECTS'' then ''loader, gc''
    else if key = ''IDEMPOTENCY_KEY_TTL'' then ''10s''
    else if key = ''IDEMPOTENCY_STALE_THRESHOLD'' then ''5s''
    else [])"

lemma ex_environ_values:
  "ex_environ ''APP_ENV'' = []" "ex_environ ''SERVER_PORT'' = []"
  "ex_environ ''SERVER_TLS_CERT_FILE'' = []" "ex_environ ''SERVER_TLS_KEY_FILE'' = []"
  "ex_environ ''SERVER_GRACEFUL_SHUTDOWN_PERIOD'' = []" "ex_environ ''SERVER_RATE_LIMIT_RPS'' = []"
  "ex_environ ''SERVER_RATE_LIMIT_BURST'' = []" "ex_environ ''DB_HOST'' = ''x''"
  "ex_environ ''DB_PORT'' = []" "ex_environ ''DB_NAME'' = ''x''"
  "ex_environ ''DB_USER'' = ''x''" "ex_environ ''DB_PASSWORD'' = ''x''"
  "ex_environ ''DB_SSLMODE'' = []" "ex_environ ''DB_POOL_MIN'' = []"
  "ex_environ ''DB_POOL_MAX'' = []" "ex_environ ''OBJECT_STORE_BUCKET'' = ''x''"
  "ex_environ ''OBJECT_STORE_REGION'' = ''x''" "ex_environ ''OBJECT_STORE_ENDPOINT'' = []"
  "ex_environ ''OBJECT_STORE_ACCESS_KEY_ID'' = []" "ex_environ ''OBJECT_STORE_SECRET_ACCESS_KEY'' = []"
  "ex_environ ''OBJECT_STORE_PRESIGN_EXPIRY'' = []" "ex_environ ''STORAGE_BACKEND_PROVIDER'' = ''x''"
  "ex_environ ''STORAGE_BACKEND_PRODUCT'' = []" "ex_environ ''AUTH_EXTERNAL_ISSUER_URL'' = ''x''"
  "ex_environ ''AUTH_EXTERNAL_AUDIENCE'' = ''x''" "ex_environ ''AUTH_INTERNAL_ISSUER_URL'' = ''x''"
  "ex_environ ''AUTH_INTERNAL_AUDIENCE'' = ''x''" "ex_environ ''AUTH_INTERNAL_ALLOWED_SUBJECTS'' = ''loader, gc''"
  "ex_environ ''AUTH_JWKS_TTL'' = []" "ex_environ ''LOG_LEVEL'' = []"
  "ex_environ ''IDEMPOTENCY_KEY_TTL'' = ''10s''" "ex_environ ''IDEMPOTENCY_STALE_THRESHOLD'' = ''5s''"
  "ex_environ ''IDEMPOTENCY_REAPER_INTERVAL'' = []" "ex_environ ''GC_POLL_INTERVAL'' = []"
  "ex_environ ''GC_BATCH_SIZE'' = []"
  by (simp_all add: ex_environ_def)

lemma ex_durations: "ParseDuration ''10s'' = Some 10000000000" "ParseDuration ''5s'' = Some 5000000000"
  by code_simp+

lemma ex_subjects: "TrimSpace ''loader'' = ''loader''" "TrimSpace '' gc'' = ''gc''"
  by code_simp+

lemmas getters = getInt_def getDuration_def getString_def getEnum_def getStringSlice_def Let_def

lemma ex_fields:
  "IdempotencyKeyTTL (read_config ex_environ) = 10000000000" "IdempotencyStaleThreshold (read_config ex_environ) = 5000000000"
  "AppEnv (read_config ex_environ) = ''production''" "AuthInternalIssuerURL (read_config ex_environ) = ''x''"
  "AuthInternalAllowedSubjects (read_config ex_environ) = [''loader'', ''gc'']"
  by (simp_all only: read_config_def Let_def Config.select_convs) (simp_all add: getters ex_environ_values ex_durations ex_subjects)

lemma ex_read: "read_errors ex_environ = []"
  by (simp add: read_errors_def getters ex_environ_values ex_durations)

lemma ex_config_ok: "config_ok (read_config ex_environ)"
  by (simp only: config_ok_def both_or_neither_def read_config_def Let_def Config.select_convs)
    (simp add: getters ex_environ_values ex_durations ex_subjects second_def)

lemma ex_Load: "Load ex_environ = Inr (read_config ex_environ)"
  by (simp only: Load_Inr ex_read ex_config_ok simp_thms)

text \<open>
  The constraints leave the lifetime of a key free to lie below the write timeout: this environment is accepted,
  with keys that expire after ten seconds while a response may take sixty.
\<close>

lemma short_lifetime_accepted:
  "Load ex_environ = Inr (read_config ex_environ) \<and>
   IdempotencyKeyTTL (read_config ex_environ) < staleThreshold (read_config ex_environ)"
  by (simp add: ex_Load ex_fields staleThreshold_def DefaultWriteTimeout_def second_def)


section \<open>Who may call the server\<close>

lemma new_validators_match:
  assumes "new_validators build isss = Some vs" "first_match vs t = Some tok"
  shows "\<exists>iss v cl. iss \<in> set isss \<and> build iss = Some v \<and> v t = Some cl \<and>
    vt_MatchedIssuer tok = ic_Name iss \<and> vt_Subject tok = subjectOf cl"
  using assms
proof (induction isss arbitrary: vs)
  case (Cons iss isss)
  then obtain v ws where v: "build iss = Some v" "new_validators build isss = Some ws"
    and vs: "vs = \<lparr>nv_name = ic_Name iss, nv_ValidateToken = v\<rparr> # ws"
    by (auto split: option.splits)
  show ?case
  proof (cases "v t")
    case None
    with Cons.prems(2) vs have "first_match ws t = Some tok" by simp
    with Cons.IH [OF v(2)] show ?thesis by (meson list.set_intros(2))
  next
    case (Some cl)
    with Cons.prems(2) vs v(1) show ?thesis by (intro exI [of _ iss] exI [of _ v] exI [of _ cl]) auto
  qed
qed simp

text \<open>C31: With a loaded configuration that is not for development, every token the server accepts was verified by a
  configured issuer with a URL, and a token of the internal issuer names a subject of the allowlist.\<close>

theorem production_access:
  assumes "Load g = Inr c" "AppEnv c \<noteq> ''development''" "buildAuth build unix c = Some prov" "prov t = Ok pr"
  shows "\<exists>iss v. iss \<in> set (issuers c) \<and> ic_IssuerURL iss \<noteq> [] \<and> build iss = Some v \<and> v t \<noteq> None \<and>
    pr_IssuerType pr = ic_Name iss \<and>
    (ic_Name iss = internalIssuerName \<longrightarrow> pr_Subject pr \<in> set (AuthInternalAllowedSubjects c))"
proof -
  from assms(2,3) obtain vs where vs: "new_validators build (issuers c) = Some vs"
    and prov: "prov = JWT_Authenticate (NewJWTProvider (Validate unix vs) (AuthInternalAllowedSubjects c))"
    by (auto simp: buildAuth_def)
  from assms(4) prov obtain tok where tok: "first_match vs t = Some tok"
    "pr = \<lparr>pr_Subject = vt_Subject tok, pr_IssuerType = vt_MatchedIssuer tok\<rparr>"
    "vt_MatchedIssuer tok = internalIssuerName \<Longrightarrow> vt_Subject tok \<in> set (AuthInternalAllowedSubjects c)"
    by (auto simp: JWT_Authenticate_Ok NewJWTProvider_def Validate_def split: option.splits)
  from new_validators_match [OF vs tok(1)] obtain iss v cl where iss: "iss \<in> set (issuers c)" "build iss = Some v"
    "v t = Some cl" "vt_MatchedIssuer tok = ic_Name iss" by blast
  have "ic_IssuerURL iss \<noteq> []"
    using assms(1,2) iss(1) by (auto simp: Load_Inr config_ok_def issuers_def split: if_splits)
  with iss tok show ?thesis by auto
qed

theorem production_access_witness:
  "\<exists>iss v. iss \<in> set (issuers (read_config ex_environ)) \<and> ic_IssuerURL iss \<noteq> [] \<and> v ''gc'' \<noteq> None \<and>
    (if ic_Name iss = ''internal'' then Some (\<lambda>t. Some (ValidatedClaims t)) else Some (\<lambda>t. None)) = Some v \<and>
    (ic_Name iss = internalIssuerName \<longrightarrow> ''gc'' \<in> set (AuthInternalAllowedSubjects (read_config ex_environ)))"
proof -
  define build where "build iss = (if ic_Name iss = ''internal'' then Some (\<lambda>t :: string. Some (ValidatedClaims t)) else Some (\<lambda>t. None))" for iss :: IssuerConfig
  let ?c = "read_config ex_environ"
  have env: "AppEnv ?c \<noteq> ''development''" by (simp add: ex_fields)
  define vs where "vs = [\<lparr>nv_name = ''external'', nv_ValidateToken = (\<lambda>t. None)\<rparr>,
    \<lparr>nv_name = ''internal'', nv_ValidateToken = (\<lambda>t. Some (ValidatedClaims t))\<rparr>]"
  have auth: "buildAuth build 0 ?c = Some (JWT_Authenticate (NewJWTProvider (Validate 0 vs) [''loader'', ''gc'']))"
    using env by (simp add: buildAuth_def issuers_def ex_fields build_def vs_def)
  have ok: "JWT_Authenticate (NewJWTProvider (Validate 0 vs) [''loader'', ''gc'']) ''gc'' =
    Ok \<lparr>pr_Subject = ''gc'', pr_IssuerType = ''internal''\<rparr>"
    by (simp add: JWT_Authenticate_Ok NewJWTProvider_def Validate_def vs_def internalIssuerName_def)
  show ?thesis using production_access [OF ex_Load env auth ok] unfolding build_def by auto
qed

end
