(* ===== verification/Operations.thy ===== *)
theory Operations
  imports Config Idempotency
begin

text \<open>
  The operations around the API: the endpoints that describe the service (\<^verbatim>\<open>handlers/root.go\<close> and the stubs of
  \<^verbatim>\<open>handlers/unimplemented.go\<close>), the health checks of \<^verbatim>\<open>internal/httpx/health\<close>, the check of the schema
  version in \<^verbatim>\<open>internal/metastore/schema.go\<close>, and one round of the idempotency reaper of
  \<^verbatim>\<open>cmd/opentams/serve.go\<close>. A probe is what it returned and how long it took; probes run
  concurrently and independently, so their order does not matter.
\<close>

section \<open>Health\<close>

datatype health_Status = StatusHealthy | StatusDegraded | StatusUnhealthy

record ComponentStatus =
  cs_Status :: health_Status
  cs_LatencyMs :: "int option"

record probe =
  pb_result :: "unit res"
  pb_millis :: int

record Options =
  op_Version :: string
  op_ReadyTimeout :: int
  op_DetailsTimeout :: int
  op_DB :: "probe option"
  op_Object :: "probe option"
  op_JWKS :: "probe option"

record Details =
  de_Status :: health_Status
  de_Version :: string
  de_Components :: "(string \<times> ComponentStatus) list"

datatype health_error = ErrMissingDBProbe | ErrMissingObjectStoreProbe

definition New_Checker :: "Options \<Rightarrow> health_error + Options" where
  "New_Checker opts =
     (if op_DB opts = None then Inl ErrMissingDBProbe
      else if op_Object opts = None then Inl ErrMissingObjectStoreProbe
      else Inr (opts\<lparr>op_ReadyTimeout := (if op_ReadyTimeout opts \<le> 0 then 500000000 else op_ReadyTimeout opts),
        op_DetailsTimeout := (if op_DetailsTimeout opts \<le> 0 then 2 * second else op_DetailsTimeout opts)\<rparr>))"

text \<open>A panic of a probe is recovered as an error.\<close>

definition safeProbe :: "probe \<Rightarrow> bool" where
  "safeProbe p = (pb_result p = Ok ())"

definition Ready :: "Options \<Rightarrow> bool" where
  "Ready c = (case (op_DB c, op_Object c) of (Some db, Some obj) \<Rightarrow> safeProbe db \<and> safeProbe obj | _ \<Rightarrow> False)"

definition runProbe :: "probe \<Rightarrow> ComponentStatus" where
  "runProbe p = \<lparr>cs_Status = (if safeProbe p then StatusHealthy else StatusUnhealthy), cs_LatencyMs = Some (pb_millis p)\<rparr>"

fun rank :: "health_Status \<Rightarrow> nat" where
  "rank StatusUnhealthy = 2"
| "rank StatusDegraded = 1"
| "rank StatusHealthy = 0"

definition worstOf :: "(string \<times> ComponentStatus) list \<Rightarrow> health_Status" where
  "worstOf components = foldl (\<lambda>worst cs. if rank (cs_Status cs) > rank worst then cs_Status cs else worst)
     StatusHealthy (map snd components)"

definition run_named :: "string \<Rightarrow> probe option \<Rightarrow> (string \<times> ComponentStatus) list" where
  "run_named name p = (case p of None \<Rightarrow> [] | Some pr \<Rightarrow> [(name, runProbe pr)])"

definition Checker_Details :: "Options \<Rightarrow> Details" where
  "Checker_Details c =
     (let components = run_named ''metastore'' (op_DB c) @ run_named ''objectstore'' (op_Object c) @
        run_named ''jwtauth'' (op_JWKS c)
      in \<lparr>de_Status = worstOf components, de_Version = op_Version c, de_Components = components\<rparr>)"

definition HealthzHandler :: int where
  "HealthzHandler = 200"

definition ReadyzHandler :: "Options option \<Rightarrow> int" where
  "ReadyzHandler c = (case c of None \<Rightarrow> 503 | Some ch \<Rightarrow> if Ready ch then 200 else 503)"

definition toAPIComponent :: "ComponentStatus \<Rightarrow> ComponentStatus" where
  "toAPIComponent cs = \<lparr>cs_Status = cs_Status cs, cs_LatencyMs = map_option i64 (cs_LatencyMs cs)\<rparr>"

definition GetHealthDetails :: "Options \<Rightarrow> Details" where
  "GetHealthDetails h =
     (let d = Checker_Details h
      in \<lparr>de_Status = de_Status d, de_Version = de_Version d,
          de_Components = map (\<lambda>(name, cs). (name, toAPIComponent cs)) (de_Components d)\<rparr>)"

section \<open>The description of the service\<close>

definition tamsAPIVersion :: string where
  "tamsAPIVersion = ''8.0''"

definition tamsServiceType :: string where
  "tamsServiceType = ''urn:x-tams:service:tams''"

record api_Service =
  sv_ApiVersion :: string
  sv_Description :: "string option"
  sv_MinObjectTimeout :: string
  sv_MinPresignedUrlTimeout :: "string option"
  sv_Name :: "string option"
  sv_ServiceVersion :: "string option"
  sv_Type :: string

record api_StorageBackend =
  sb_AvailabilityZone :: "string option"
  sb_DefaultStorage :: "bool option"
  sb_Id :: string
  sb_Label :: "string option"
  sb_Provider :: string
  sb_Region :: "string option"
  sb_StoreProduct :: string
  sb_StoreType :: string

definition GetRoot :: "string list" where
  "GetRoot = [''service'', ''flows'', ''sources'', ''flow-delete-requests'']"

definition GetService :: "Config \<Rightarrow> api_Service" where
  "GetService cfg = \<lparr>sv_ApiVersion = tamsAPIVersion, sv_Description = None,
     sv_MinObjectTimeout = Timestamp_String (TimestampFromDuration (ObjectStorePresignExpiry cfg)),
     sv_MinPresignedUrlTimeout = None, sv_Name = None, sv_ServiceVersion = None, sv_Type = tamsServiceType\<rparr>"

text \<open>\<open>newSHA1\<close> is the name-based UUID of the library in the namespace of the source.\<close>

definition GetStorageBackends :: "(string \<Rightarrow> string) \<Rightarrow> Config \<Rightarrow> api_StorageBackend list" where
  "GetStorageBackends newSHA1 cfg =
     [\<lparr>sb_AvailabilityZone = None, sb_DefaultStorage = None,
       sb_Id = newSHA1 (StorageBackendProvider cfg @ ''/'' @ ObjectStoreRegion cfg @ ''/'' @ ObjectStoreBucket cfg),
       sb_Label = None, sb_Provider = StorageBackendProvider cfg, sb_Region = Some (ObjectStoreRegion cfg),
       sb_StoreProduct = StorageBackendProduct cfg, sb_StoreType = ''http_object_store''\<rparr>]"

definition GetFlowDeleteRequests :: "string list" where
  "GetFlowDeleteRequests = []"

definition GetFlowDeleteRequest :: "string \<Rightarrow> int" where
  "GetFlowDeleteRequest requestId = 404"

section \<open>The schema check\<close>

definition ExpectedSchemaVersion :: int where
  "ExpectedSchemaVersion = 5"

record SchemaState =
  ss_Version :: int
  ss_Dirty :: bool
  ss_Expected :: int

text \<open>What scanning the row of \<^verbatim>\<open>schema_migrations\<close> gives: the row, no row, or another error.\<close>

datatype schema_scan = SchemaRow int bool | SchemaNoRows | SchemaErr go_error

definition isUndefinedTable :: "go_error \<Rightarrow> bool" where
  "isUndefinedTable err = (errors_As_PgError err = Some ''42P01'')"

text \<open>The dash of the messages, in UTF-8.\<close>

definition dash :: string where
  "dash = [CHR '' '', CHR 0xE2, CHR 0x80, CHR 0x94, CHR '' '']"

definition VerifySchema :: "schema_scan \<Rightarrow> SchemaState res" where
  "VerifySchema scan =
     (case scan of
        SchemaErr err \<Rightarrow>
          if isUndefinedTable err then
            Err (Errorf [W (Sentinel ErrSchemaNotMigrated), Lit ('': schema_migrations table missing'' @ dash @ ''run migrations before starting the server'')])
          else Err (Errorf [Lit ''metastore: query schema_migrations: '', W err])
      | SchemaNoRows \<Rightarrow>
          Err (Errorf [W (Sentinel ErrSchemaNotMigrated), Lit ('': schema_migrations table is empty'' @ dash @ ''run migrations before starting the server'')])
      | SchemaRow version dirty \<Rightarrow>
          if dirty then
            Err (Errorf [W (Sentinel ErrSchemaDirty), Lit '': version '', D version,
              Lit (dash @ ''fix the partial migration manually, then run `migrate force ''), D version, Lit ''`''])
          else if version < ExpectedSchemaVersion then
            Err (Errorf [W (Sentinel ErrSchemaTooOld), Lit '': have version '', D version,
              Lit '', this binary requires at least version '', D ExpectedSchemaVersion, Lit (dash @ ''run pending migrations'')])
          else Ok \<lparr>ss_Version = version, ss_Dirty = False, ss_Expected = ExpectedSchemaVersion\<rparr>)"

section \<open>The reaper\<close>

text \<open>The wait before the next round; \<open>r\<close> is the random number, below \<open>period div 4\<close>.\<close>

definition reaper_delay :: "int \<Rightarrow> int \<Rightarrow> int" where
  "reaper_delay period r = (let maxJitter = period sdiv 4 in if maxJitter \<le> 0 then period else i64 (period + r))"

text \<open>One round: both deletions run, and an error of either is only logged.\<close>

definition reaper_round :: "db_env \<Rightarrow> db_env \<Rightarrow> Config \<Rightarrow> db \<Rightarrow> db" where
  "reaper_round envPrune envReap cfg d = snd (ReapStale envReap (staleThreshold cfg) (snd (Prune envPrune d)))"

section \<open>Facts\<close>

lemma worstOf_fold:
  "foldl (\<lambda>worst cs. if rank (cs_Status cs) > rank worst then cs_Status cs else worst) w css = StatusUnhealthy \<longleftrightarrow>
    w = StatusUnhealthy \<or> (\<exists>cs \<in> set css. cs_Status cs = StatusUnhealthy)"
proof (induction css arbitrary: w)
  case (Cons cs css)
  then show ?case by (cases "cs_Status cs"; cases w) auto
qed simp

lemma run_named_unhealthy:
  "(\<exists>x \<in> set (run_named n p). cs_Status (snd x) = StatusUnhealthy) \<longleftrightarrow> (\<exists>q. p = Some q \<and> pb_result q \<noteq> Ok ())"
  by (cases p) (simp_all add: run_named_def runProbe_def safeProbe_def)

text \<open>The service is unhealthy exactly when a probe failed, and ready exactly when the two required ones did not.\<close>

lemma details_unhealthy:
  "de_Status (Checker_Details c) = StatusUnhealthy \<longleftrightarrow>
    (\<exists>p. (op_DB c = Some p \<or> op_Object c = Some p \<or> op_JWKS c = Some p) \<and> pb_result p \<noteq> Ok ())"
  by (simp add: Checker_Details_def worstOf_def worstOf_fold Let_def bex_Un run_named_unhealthy) blast

lemma ready_not_unhealthy:
  assumes "New_Checker opts = Inr c" "op_JWKS c = None"
  shows "Ready c \<longleftrightarrow> de_Status (Checker_Details c) \<noteq> StatusUnhealthy"
  using assms by (auto simp: New_Checker_def Ready_def details_unhealthy safeProbe_def split: if_splits option.splits)

lemma VerifySchema_Ok:
  "(\<exists>s. VerifySchema scan = Ok s) \<longleftrightarrow> (\<exists>v \<ge> ExpectedSchemaVersion. scan = SchemaRow v False)"
  by (auto simp: VerifySchema_def split: schema_scan.splits)

text \<open>The jitter only lengthens the wait, by less than a quarter.\<close>

lemma reaper_delay_bounds:
  assumes "0 < period" "period < 2 ^ 60" "0 \<le> r" "r < period sdiv 4 \<or> period sdiv 4 = 0"
  shows "period \<le> reaper_delay period r \<and> 4 * reaper_delay period r < 5 * period + 1"
proof -
  have "period sdiv 4 = period div 4" using assms(1) by (simp add: signed_divide_int_def)
  then show ?thesis
    using assms by (auto simp: reaper_delay_def Let_def i64_id in_i64_def MinInt64_def MaxInt64_def)
qed

end
