(* ===== verification/Cli.thy ===== *)
theory Cli
  imports Problem Cursor "HOL-Library.AList"
begin

text \<open>
  The operator's command line tool: the contexts of \<^verbatim>\<open>internal/tamsctl/config.go\<close>, the requests that
  \<^verbatim>\<open>internal/tamsctl/client.go\<close> builds, and the paging of \<^verbatim>\<open>cmd/tamsctl/paginate.go\<close>. A JSON document is a value;
  the members of a Go map are written in the order of their keys. The transport is a parameter: the page
  that the \<open>i\<close>-th request of a listing returns for a cursor. A listing with no cap on its pages may not end,
  so the loop is a partial function.
\<close>

section \<open>Contexts\<close>

record Context =
  cx_Endpoint :: string
  cx_Token :: string

record tamsctl_Config =
  tc_CurrentContext :: string
  tc_Contexts :: "(string \<times> Context) list"

record Resolved =
  rs_Name :: string
  rs_Endpoint :: string
  rs_Token :: string

datatype cli_error = UnknownContext string | NoEndpoint

definition SetContext :: "tamsctl_Config \<Rightarrow> string \<Rightarrow> string \<Rightarrow> string \<Rightarrow> tamsctl_Config" where
  "SetContext c name endpoint tok =
     (let existing = (case map_of (tc_Contexts c) name of None \<Rightarrow> \<lparr>cx_Endpoint = [], cx_Token = []\<rparr> | Some x \<Rightarrow> x);
          existing = existing\<lparr>cx_Endpoint := endpoint\<rparr>;
          existing = (if tok \<noteq> [] then existing\<lparr>cx_Token := tok\<rparr> else existing)
      in c\<lparr>tc_Contexts := AList.update name existing (tc_Contexts c)\<rparr>)"

definition SetToken :: "tamsctl_Config \<Rightarrow> string \<Rightarrow> string \<Rightarrow> cli_error + tamsctl_Config" where
  "SetToken c name tok =
     (case map_of (tc_Contexts c) name of
        None \<Rightarrow> Inl (UnknownContext name)
      | Some ctx \<Rightarrow> Inr (c\<lparr>tc_Contexts := AList.update name (ctx\<lparr>cx_Token := tok\<rparr>) (tc_Contexts c)\<rparr>))"

definition UseContext :: "tamsctl_Config \<Rightarrow> string \<Rightarrow> cli_error + tamsctl_Config" where
  "UseContext c name =
     (case map_of (tc_Contexts c) name of
        None \<Rightarrow> Inl (UnknownContext name)
      | Some ctx \<Rightarrow> Inr (c\<lparr>tc_CurrentContext := name\<rparr>))"

fun firstNonEmpty :: "string list \<Rightarrow> string" where
  "firstNonEmpty [] = []"
| "firstNonEmpty (v # vals) = (if v \<noteq> [] then v else firstNonEmpty vals)"

definition Resolve ::
    "(string \<Rightarrow> string) \<Rightarrow> tamsctl_Config \<Rightarrow> string \<Rightarrow> string \<Rightarrow> string \<Rightarrow> cli_error + Resolved" where
  "Resolve getenv c contextOverride endpointFlag tokenFlag =
     (let name = (if contextOverride = [] then tc_CurrentContext c else contextOverride);
          found = (if name = [] then Some \<lparr>cx_Endpoint = [], cx_Token = []\<rparr> else map_of (tc_Contexts c) name)
      in case found of
           None \<Rightarrow> Inl (UnknownContext name)
         | Some ctx \<Rightarrow>
             let endpoint = firstNonEmpty [endpointFlag, getenv ''TAMSCTL_ENDPOINT'', cx_Endpoint ctx];
                 tok = firstNonEmpty [tokenFlag, getenv ''TAMSCTL_TOKEN'', cx_Token ctx]
             in if endpoint = [] then Inl NoEndpoint
                else Inr \<lparr>rs_Name = name, rs_Endpoint = endpoint, rs_Token = tok\<rparr>)"

section \<open>Requests\<close>

text \<open>\<^verbatim>\<open>url.Values\<close>, in the order of the calls of \<^verbatim>\<open>Set\<close>.\<close>

type_synonym url_values = "(string \<times> string) list"

definition setIf :: "string \<Rightarrow> string \<Rightarrow> url_values \<Rightarrow> url_values" where
  "setIf key val q = (if val \<noteq> [] then AList.update key val q else q)"

definition setBool :: "string \<Rightarrow> bool \<Rightarrow> url_values \<Rightarrow> url_values" where
  "setBool key val q = (if val then AList.update key ''true'' q else q)"

definition setInt :: "string \<Rightarrow> int \<Rightarrow> url_values \<Rightarrow> url_values" where
  "setInt key val q = (if val > 0 then AList.update key (fmt_d val) q else q)"

record SegmentGetParams =
  sg_Timerange :: string
  sg_ObjectID :: string
  sg_ReverseOrder :: bool
  sg_VerboseStorage :: bool
  sg_AcceptGetURLs :: string
  sg_AcceptStorageIDs :: string
  sg_Presigned :: bool
  sg_IncludeObjectTimerange :: bool
  sg_Limit :: int
  sg_PageToken :: string

definition cli_ListSegments_query :: "SegmentGetParams \<Rightarrow> url_values" where
  "cli_ListSegments_query p =
     setIf ''page'' (sg_PageToken p) (setInt ''limit'' (sg_Limit p)
       (setBool ''include_object_timerange'' (sg_IncludeObjectTimerange p) (setBool ''presigned'' (sg_Presigned p)
         (setIf ''accept_storage_ids'' (sg_AcceptStorageIDs p) (setIf ''accept_get_urls'' (sg_AcceptGetURLs p)
           (setBool ''verbose_storage'' (sg_VerboseStorage p) (setBool ''reverse_order'' (sg_ReverseOrder p)
             (setIf ''object_id'' (sg_ObjectID p) (setIf ''timerange'' (sg_Timerange p) [])))))))))"

record SourceGetParams =
  so_Label :: string
  so_Format :: string
  so_Tags :: "(string \<times> string) list"
  so_TagsExist :: "string list"
  so_Limit :: int
  so_PageToken :: string

definition cli_ListSources_query :: "SourceGetParams \<Rightarrow> url_values" where
  "cli_ListSources_query p =
     (let q = setIf ''format'' (so_Format p) (setIf ''label'' (so_Label p) []);
          q = foldl (\<lambda>q (name, val). AList.update (''tag.'' @ name) val q) q (so_Tags p);
          q = foldl (\<lambda>q name. AList.update (''tag_exists.'' @ name) ''true'' q) q (so_TagsExist p)
      in setIf ''page'' (so_PageToken p) (setInt ''limit'' (so_Limit p) q))"

definition cli_DeleteSegments_query :: "string \<Rightarrow> string \<Rightarrow> url_values" where
  "cli_DeleteSegments_query tr objectID = setIf ''object_id'' objectID (setIf ''timerange'' tr [])"

definition cli_AllocateStorage_body :: "int \<Rightarrow> string list \<Rightarrow> json" where
  "cli_AllocateStorage_body limit objectIDs =
     (if objectIDs \<noteq> [] then JObj [(''object_ids'', JArr (map JStr objectIDs))]
      else JObj [(''limit'', JNum (fmt_d limit))])"

record FrameRate =
  fr_Numerator :: int
  fr_Denominator :: int

record FlowCreateParams =
  fc_ID :: string
  fc_SourceID :: string
  fc_Codec :: string
  fc_Format :: string
  fc_FrameWidth :: int
  fc_FrameHeight :: int
  fc_FrameRate :: "FrameRate option"
  fc_VFR :: bool

definition frame_rate :: "FrameRate \<Rightarrow> json" where
  "frame_rate fr = JObj ((if fr_Denominator fr > 0 then [(''denominator'', JNum (fmt_d (fr_Denominator fr)))] else []) @
     [(''numerator'', JNum (fmt_d (fr_Numerator fr)))])"

definition cli_CreateFlow_body :: "FlowCreateParams \<Rightarrow> json" where
  "cli_CreateFlow_body p =
     (let essence =
        [(''frame_height'', JNum (fmt_d (fc_FrameHeight p)))] @
        (if \<not> fc_VFR p then (case fc_FrameRate p of None \<Rightarrow> [] | Some fr \<Rightarrow> [(''frame_rate'', frame_rate fr)]) else []) @
        [(''frame_width'', JNum (fmt_d (fc_FrameWidth p)))] @
        (if fc_VFR p then [(''vfr'', JBool True)] else [])
      in JObj [(''codec'', JStr (fc_Codec p)), (''essence_parameters'', JObj essence), (''format'', JStr (fc_Format p)),
           (''id'', JStr (fc_ID p)), (''source_id'', JStr (fc_SourceID p))])"

record SegmentRegisterParams =
  sr_ObjectID :: string
  sr_Timerange :: string
  sr_TSOffset :: string
  sr_ObjectTimerange :: string
  sr_LastDuration :: string
  sr_KeyFrameCount :: "int option"
  sr_SampleOffset :: "int option"
  sr_SampleCount :: "int option"
  sr_GetURLs :: "string list"

definition putIfSet :: "string \<Rightarrow> string \<Rightarrow> (string \<times> json) list" where
  "putIfSet key val = (if val \<noteq> [] then [(key, JStr val)] else [])"

definition putInt :: "string \<Rightarrow> int option \<Rightarrow> (string \<times> json) list" where
  "putInt key val = (case val of None \<Rightarrow> [] | Some n \<Rightarrow> [(key, JNum (fmt_d n))])"

definition toGetURLs :: "string list \<Rightarrow> json" where
  "toGetURLs urls = JArr (map (\<lambda>u. JObj [(''url'', JStr u)]) urls)"

definition register_entry :: "SegmentRegisterParams \<Rightarrow> json" where
  "register_entry s = JObj
     ((if sr_GetURLs s \<noteq> [] then [(''get_urls'', toGetURLs (sr_GetURLs s))] else []) @
      putInt ''key_frame_count'' (sr_KeyFrameCount s) @
      putIfSet ''last_duration'' (sr_LastDuration s) @
      [(''object_id'', JStr (sr_ObjectID s))] @
      putIfSet ''object_timerange'' (sr_ObjectTimerange s) @
      putInt ''sample_count'' (sr_SampleCount s) @
      putInt ''sample_offset'' (sr_SampleOffset s) @
      putIfSet ''timerange'' (sr_Timerange s) @
      putIfSet ''ts_offset'' (sr_TSOffset s))"

definition cli_RegisterSegments_body :: "SegmentRegisterParams list \<Rightarrow> json" where
  "cli_RegisterSegments_body segs = JArr (map register_entry segs)"

section \<open>Paging\<close>

text \<open>The items of a page: no bytes, bytes that are not JSON, or a document.\<close>

datatype raw_items = NoItems | Malformed | Document json

record Page =
  pg_Items :: raw_items
  pg_NextToken :: string

datatype page_error = FetchFailed nat | ParseItems | NotAdvancing string | MaxPages int string

definition decodeItems :: "raw_items \<Rightarrow> page_error + json list" where
  "decodeItems raw =
     (case raw of
        NoItems \<Rightarrow> Inr []
      | Document (JArr js) \<Rightarrow> Inr js
      | Document JNull \<Rightarrow> Inr []
      | _ \<Rightarrow> Inl ParseItems)"

partial_function (option) collect_loop ::
    "(nat \<Rightarrow> string \<Rightarrow> page_error + Page) \<Rightarrow> int \<Rightarrow> nat \<Rightarrow> string \<Rightarrow> string \<Rightarrow> json list \<Rightarrow> (page_error + json list) option" where
  "collect_loop fetch maxPages pages prevToken tok acc =
     (if tok = [] then Some (Inr acc)
      else if tok = prevToken then Some (Inl (NotAdvancing tok))
      else if maxPages > 0 \<and> int pages \<ge> maxPages then Some (Inl (MaxPages maxPages tok))
      else case fetch pages tok of
             Inl e \<Rightarrow> Some (Inl e)
           | Inr page \<Rightarrow>
               (case decodeItems (pg_Items page) of
                  Inl e \<Rightarrow> Some (Inl e)
                | Inr items \<Rightarrow> collect_loop fetch maxPages (Suc pages) tok (pg_NextToken page) (acc @ items)))"

definition collectRemaining ::
    "Page \<Rightarrow> (nat \<Rightarrow> string \<Rightarrow> page_error + Page) \<Rightarrow> int \<Rightarrow> (page_error + Page) option" where
  "collectRemaining first fetch maxPages =
     (case decodeItems (pg_Items first) of
        Inl e \<Rightarrow> Some (Inl e)
      | Inr items \<Rightarrow>
          (case collect_loop fetch maxPages 1 [] (pg_NextToken first) items of
             None \<Rightarrow> None
           | Some (Inl e) \<Rightarrow> Some (Inl e)
           | Some (Inr all) \<Rightarrow> Some (Inr \<lparr>pg_Items = Document (JArr all), pg_NextToken = []\<rparr>)))"

definition itemsOrEmpty :: "raw_items \<Rightarrow> raw_items" where
  "itemsOrEmpty raw = (if raw = NoItems then Document (JArr []) else raw)"

text \<open>\<^verbatim>\<open>nextCommand\<close>: the arguments of this invocation with the cursor replaced.\<close>

fun next_args :: "bool \<Rightarrow> string list \<Rightarrow> string list" where
  "next_args skipping [] = []"
| "next_args skipping (a # as) =
     (if skipping then next_args False as
      else if a = ''--page-token'' then next_args True as
      else if HasPrefix a ''--page-token='' then next_args False as
      else if a = ''--all'' then next_args False as
      else a # next_args False as)"

fun Join :: "string list \<Rightarrow> string \<Rightarrow> string" where
  "Join [] sep = []"
| "Join [s] sep = s"
| "Join (s # t # ss) sep = s @ sep @ Join (t # ss) sep"

definition filepath_Base :: "string \<Rightarrow> string" where
  "filepath_Base path =
     (if path = [] then ''.''
      else let p = rev (dropWhile (\<lambda>c. c = CHR ''/'') (rev path))
           in if p = [] then ''/'' else rev (takeWhile (\<lambda>c. c \<noteq> CHR ''/'') (rev p)))"

definition nextCommand :: "string \<Rightarrow> string list \<Rightarrow> string \<Rightarrow> string" where
  "nextCommand program args tok = Join ([filepath_Base program] @ next_args False args @ [''--page-token'', tok]) '' ''"

text \<open>The hint never repeats the cursor of this invocation, nor the flag that asks for every page.\<close>

definition dropped :: "string \<Rightarrow> bool" where
  "dropped a \<longleftrightarrow> a = ''--page-token'' \<or> HasPrefix a ''--page-token='' \<or> a = ''--all''"

lemma next_args_Cons:
  "next_args s (a # as) = (if s then next_args False as else if dropped a then next_args (a = ''--page-token'') as else a # next_args False as)"
  by (simp add: dropped_def)

lemma next_args_clean: "\<forall>a \<in> set (next_args s args). \<not> dropped a"
  by (induction args arbitrary: s) (simp_all add: next_args_Cons del: next_args.simps(2))

section \<open>Contexts resolve as documented\<close>

text \<open>A flag beats the environment, which beats the context; a context that was set is found.\<close>

lemma Resolve_precedence:
  assumes "Resolve getenv c override endpointFlag tokenFlag = Inr r"
  shows "endpointFlag \<noteq> [] \<Longrightarrow> rs_Endpoint r = endpointFlag"
    "endpointFlag = [] \<Longrightarrow> getenv ''TAMSCTL_ENDPOINT'' \<noteq> [] \<Longrightarrow> rs_Endpoint r = getenv ''TAMSCTL_ENDPOINT''"
    "rs_Endpoint r \<noteq> []"
  using assms by (auto simp: Resolve_def Let_def split: option.splits if_splits)

lemma SetContext_Resolve:
  assumes "name \<noteq> []" "endpoint \<noteq> []" "tok \<noteq> []" "getenv ''TAMSCTL_ENDPOINT'' = []" "getenv ''TAMSCTL_TOKEN'' = []"
  shows "Resolve getenv (SetContext c name endpoint tok) name [] [] =
    Inr \<lparr>rs_Name = name, rs_Endpoint = endpoint, rs_Token = tok\<rparr>"
  using assms by (simp add: Resolve_def SetContext_def Let_def AList.update_conv' split: option.split)

section \<open>The server reads what the tool writes\<close>

definition post_of :: "SegmentRegisterParams \<Rightarrow> FlowSegmentPost" where
  "post_of s = \<lparr>po_GetUrls = (if sr_GetURLs s = [] then None else Some (map (\<lambda>u. \<lparr>pu_Label = [], pu_Url = u\<rparr>) (sr_GetURLs s))),
     po_KeyFrameCount = sr_KeyFrameCount s, po_LastDuration = optionalRaw (sr_LastDuration s), po_ObjectId = sr_ObjectID s,
     po_ObjectTimerange = optionalRaw (sr_ObjectTimerange s), po_SampleCount = sr_SampleCount s,
     po_SampleOffset = sr_SampleOffset s, po_Timerange = sr_Timerange s, po_TsOffset = optionalRaw (sr_TSOffset s)\<rparr>"

definition ints_fit :: "SegmentRegisterParams \<Rightarrow> bool" where
  "ints_fit s \<longleftrightarrow> (\<forall>n. sr_KeyFrameCount s = Some n \<or> sr_SampleOffset s = Some n \<or> sr_SampleCount s = Some n \<longrightarrow> in_i64 n)"

lemma all_Some_image: "(\<And>x. x \<in> set xs \<Longrightarrow> f x = Some (g x)) \<Longrightarrow> all_Some (map f xs) = Some (map g xs)"
  by (induction xs) auto

lemma dec_toGetURLs: "dec_post_urls (toGetURLs us) = Some (Some (map (\<lambda>u. \<lparr>pu_Label = [], pu_Url = u\<rparr>) us))"
proof -
  have "dec_post_url (JObj [(''url'', JStr u)]) = Some \<lparr>pu_Label = [], pu_Url = u\<rparr>" for u
    by (simp add: dec_post_url_def decode_object_def find_field_member dec_string_def zeroPostGetUrl_def)
  then show ?thesis by (simp add: dec_post_urls_def toGetURLs_def comp_def all_Some_image)
qed

lemma decode_putIfSet:
  "k \<in> set post_fields \<Longrightarrow>
   decode_struct post_fields dec_post_field (putIfSet k s) (p, False) =
     (if s = [] then (p, False)
      else case dec_post_field k (JStr s) p of Some q \<Rightarrow> (q, False) | None \<Rightarrow> (p, True))"
  by (simp add: putIfSet_def find_field_member split: option.split)

lemma decode_putInt:
  "k \<in> set post_fields \<Longrightarrow>
   decode_struct post_fields dec_post_field (putInt k v) (p, False) =
     (case v of None \<Rightarrow> (p, False)
      | Some n \<Rightarrow> case dec_post_field k (JNum (fmt_d n)) p of Some q \<Rightarrow> (q, False) | None \<Rightarrow> (p, True))"
  by (simp add: putInt_def find_field_member split: option.split)

lemma post_keys:
  "''get_urls'' \<in> set post_fields" "''key_frame_count'' \<in> set post_fields" "''last_duration'' \<in> set post_fields"
  "''object_id'' \<in> set post_fields" "''object_timerange'' \<in> set post_fields" "''sample_count'' \<in> set post_fields"
  "''sample_offset'' \<in> set post_fields" "''timerange'' \<in> set post_fields" "''ts_offset'' \<in> set post_fields"
  by (simp_all add: post_fields_def)

lemma dec_int: "in_i64 n \<Longrightarrow> dec_opt_int (JNum (fmt_d n)) = Some (Some n)"
  by (simp add: dec_opt_int_def ParseInt_fmt_d)

lemmas post_field_simps = dec_post_field_def post_keys find_field_member dec_opt_string_def dec_string_def

lemma register_entry_decodes:
  assumes "ints_fit s"
  shows "AsFlowSegmentPost (register_entry s) = Some (post_of s)"
proof -
  have fit: "in_i64 n" if "sr_KeyFrameCount s = Some n \<or> sr_SampleOffset s = Some n \<or> sr_SampleCount s = Some n" for n
    using assms that by (auto simp: ints_fit_def)
  show ?thesis
    using fit
    by (simp add: AsFlowSegmentPost_def register_entry_def decode_object_def decode_struct_append decode_putIfSet
        decode_putInt post_field_simps dec_toGetURLs dec_int zeroPost_def post_of_def optionalRaw_def
        split: option.split)
qed



section \<open>Fetching every page\<close>

lemma collect_loop_ends:
  "0 < maxPages \<Longrightarrow> maxPages \<le> int pages + int n \<Longrightarrow>
   \<exists>r. \<forall>fetch'. (\<forall>i. int i < maxPages \<longrightarrow> fetch' i = fetch i) \<longrightarrow>
     collect_loop fetch' maxPages pages prev tok acc = Some r"
proof (induction n arbitrary: pages prev tok acc)
  case 0
  then show ?case by (subst collect_loop.simps) auto
next
  case (Suc n)
  note step = collect_loop.simps [of _ maxPages pages prev tok acc]
  show ?case
  proof (cases "tok = [] \<or> tok = prev \<or> int pages \<ge> maxPages")
    case True
    with Suc.prems show ?thesis by (auto simp: step)
  next
    case go: False
    show ?thesis
    proof (cases "fetch pages tok")
      case (Inl e)
      with go Suc.prems show ?thesis by (auto simp: step)
    next
      case (Inr page)
      show ?thesis
      proof (cases "decodeItems (pg_Items page)")
        case (Inl e)
        with go Suc.prems Inr show ?thesis by (auto simp: step)
      next
        case items: (Inr items)
        obtain r where "\<forall>fetch'. (\<forall>i. int i < maxPages \<longrightarrow> fetch' i = fetch i) \<longrightarrow>
            collect_loop fetch' maxPages (Suc pages) tok (pg_NextToken page) (acc @ items) = Some r"
          using Suc.IH [of "Suc pages" tok "pg_NextToken page" "acc @ items"] Suc.prems by auto
        with go Suc.prems Inr items show ?thesis by (intro exI [of _ r]) (auto simp: step)
      qed
    qed
  qed
qed

text \<open>The reference: follow the cursors for at most \<open>n\<close> pages and put the items together.\<close>

fun follow :: "(nat \<Rightarrow> string \<Rightarrow> page_error + Page) \<Rightarrow> nat \<Rightarrow> nat \<Rightarrow> string \<Rightarrow> json list option" where
  "follow fetch i n [] = Some []"
| "follow fetch i 0 (c # cs) = None"
| "follow fetch i (Suc n) (c # cs) =
     (case fetch i (c # cs) of
        Inl e \<Rightarrow> None
      | Inr page \<Rightarrow>
          (case decodeItems (pg_Items page) of
             Inl e \<Rightarrow> None
           | Inr items \<Rightarrow> map_option ((@) items) (follow fetch (Suc i) n (pg_NextToken page))))"

definition advancing :: "(nat \<Rightarrow> string \<Rightarrow> page_error + Page) \<Rightarrow> bool" where
  "advancing fetch \<longleftrightarrow> (\<forall>i t page. t \<noteq> [] \<longrightarrow> fetch i t = Inr page \<longrightarrow> pg_NextToken page \<noteq> t)"

lemma collect_loop_follow:
  assumes "follow fetch pages n tok = Some items" "maxPages \<le> 0 \<or> int pages + int n \<le> maxPages"
    and "tok = [] \<or> tok \<noteq> prev" "advancing fetch"
  shows "collect_loop fetch maxPages pages prev tok acc = Some (Inr (acc @ items))"
  using assms
proof (induction fetch pages n tok arbitrary: items prev acc rule: follow.induct)
  case (1 fetch i n)
  then show ?case by (simp add: collect_loop.simps)
next
  case (2 fetch i c cs)
  then show ?case by simp
next
  case (3 fetch i n c cs)
  from 3(2) obtain page js rest where page: "fetch i (c # cs) = Inr page" "decodeItems (pg_Items page) = Inr js"
    "follow fetch (Suc i) n (pg_NextToken page) = Some rest" "items = js @ rest"
    by (auto split: sum.splits)
  have "pg_NextToken page \<noteq> c # cs" using 3(5) page(1) by (auto simp: advancing_def)
  then have "collect_loop fetch maxPages (Suc i) (c # cs) (pg_NextToken page) (acc @ js) = Some (Inr ((acc @ js) @ rest))"
    using 3(3,5) by (intro 3(1) [OF page(1,2,3)]) auto
  with 3(3,4) page show ?case by (subst collect_loop.simps) auto
qed

text \<open>C30: With a positive page cap the collection of all pages ends whatever the server answers, and its result depends only on
  the pages below the cap. If the cursors advance and lead to an end within the cap (or there is no cap), the result is the
  items of every page in order, with no cursor left.\<close>

theorem all_pages_collected:
  "(0 < maxPages \<longrightarrow>
     (\<exists>r. \<forall>fetch'. (\<forall>i. int i < maxPages \<longrightarrow> fetch' i = fetch i) \<longrightarrow> collectRemaining first fetch' maxPages = Some r)) \<and>
   (decodeItems (pg_Items first) = Inr js \<and> follow fetch 1 n (pg_NextToken first) = Some items \<and> advancing fetch \<and>
     (maxPages \<le> 0 \<or> int n < maxPages) \<longrightarrow>
     collectRemaining first fetch maxPages = Some (Inr \<lparr>pg_Items = Document (JArr (js @ items)), pg_NextToken = []\<rparr>))"
proof (intro conjI impI)
  assume cap: "0 < maxPages"
  show "\<exists>r. \<forall>fetch'. (\<forall>i. int i < maxPages \<longrightarrow> fetch' i = fetch i) \<longrightarrow> collectRemaining first fetch' maxPages = Some r"
  proof (cases "decodeItems (pg_Items first)")
    case (Inl e)
    then show ?thesis by (simp add: collectRemaining_def)
  next
    case (Inr js)
    obtain r where r: "\<forall>fetch'. (\<forall>i. int i < maxPages \<longrightarrow> fetch' i = fetch i) \<longrightarrow>
        collect_loop fetch' maxPages 1 [] (pg_NextToken first) js = Some r"
      using collect_loop_ends [OF cap, of 1 "nat maxPages"] by fastforce
    with Inr show ?thesis by (cases r) (auto simp: collectRemaining_def)
  qed
next
  assume "decodeItems (pg_Items first) = Inr js \<and> follow fetch 1 n (pg_NextToken first) = Some items \<and> advancing fetch \<and>
    (maxPages \<le> 0 \<or> int n < maxPages)"
  then show "collectRemaining first fetch maxPages = Some (Inr \<lparr>pg_Items = Document (JArr (js @ items)), pg_NextToken = []\<rparr>)"
    using collect_loop_follow [of fetch 1 n "pg_NextToken first" items maxPages "[]" js] by (auto simp: collectRemaining_def)
qed

definition two_pages :: "nat \<Rightarrow> string \<Rightarrow> page_error + Page" where
  "two_pages i t =
     (if t = ''a'' then Inr \<lparr>pg_Items = Document (JArr [JStr ''y'']), pg_NextToken = ''b''\<rparr>
      else Inr \<lparr>pg_Items = Document (JArr [JStr ''z'']), pg_NextToken = []\<rparr>)"

theorem all_pages_collected_witness:
  "collectRemaining \<lparr>pg_Items = Document (JArr [JStr ''x'']), pg_NextToken = ''a''\<rparr> two_pages 3 =
     Some (Inr \<lparr>pg_Items = Document (JArr [JStr ''x'', JStr ''y'', JStr ''z'']), pg_NextToken = []\<rparr>) \<and>
   (\<exists>r. collectRemaining \<lparr>pg_Items = Document (JArr [JStr ''x'']), pg_NextToken = ''a''\<rparr> two_pages 2 = Some r)"
proof
  let ?first = "\<lparr>pg_Items = Document (JArr [JStr ''x'']), pg_NextToken = ''a''\<rparr>"
  have "follow two_pages 1 2 (pg_NextToken ?first) = Some [JStr ''y'', JStr ''z'']"
    by (simp add: two_pages_def numeral_2_eq_2 decodeItems_def)
  moreover have "advancing two_pages" by (simp add: advancing_def two_pages_def)
  ultimately show "collectRemaining ?first two_pages 3 =
      Some (Inr \<lparr>pg_Items = Document (JArr [JStr ''x'', JStr ''y'', JStr ''z'']), pg_NextToken = []\<rparr>)"
    using all_pages_collected [of 3 two_pages ?first "[JStr ''x'']" 2 "[JStr ''y'', JStr ''z'']"]
    by (simp add: decodeItems_def)
  show "\<exists>r. collectRemaining ?first two_pages 2 = Some r"
    using all_pages_collected [of 2 two_pages ?first, THEN conjunct1] by auto
qed

text \<open>Only the immediate predecessor is compared: a server whose cursors alternate is followed for ever when there is no cap.\<close>

definition alternating :: "nat \<Rightarrow> string \<Rightarrow> page_error + Page" where
  "alternating i t = Inr \<lparr>pg_Items = NoItems, pg_NextToken = (if t = ''a'' then ''b'' else ''a'')\<rparr>"

lemma alternating_loops:
  assumes "collect_loop fetch cap pages prev tok acc = Some r" "fetch = alternating" "cap \<le> 0"
    and "tok = ''a'' \<and> prev \<noteq> ''a'' \<or> tok = ''b'' \<and> prev \<noteq> ''b''"
  shows False
  using assms
proof (induction fetch cap pages prev tok acc r rule: collect_loop.raw_induct [rotated, consumes 1, case_names step])
  case (step loop fetch cap pages prev tok acc r)
  from step(5) have "tok \<noteq> []" "tok \<noteq> prev" by auto
  moreover have "fetch pages tok = Inr \<lparr>pg_Items = NoItems, pg_NextToken = (if tok = ''a'' then ''b'' else ''a'')\<rparr>"
    by (simp add: step(3) alternating_def)
  ultimately have "loop fetch cap (Suc pages) tok (if tok = ''a'' then ''b'' else ''a'') acc = Some r"
    using step(2,4) by (simp add: decodeItems_def)
  from step(1) [OF this step(3,4)] step(5) show False by auto
qed

lemma alternating_never_ends:
  "collectRemaining \<lparr>pg_Items = NoItems, pg_NextToken = ''a''\<rparr> alternating 0 = None"
proof (cases "collect_loop alternating 0 1 [] ''a'' []")
  case None
  then show ?thesis by (simp add: collectRemaining_def decodeItems_def)
next
  case (Some r)
  from alternating_loops [OF this refl] show ?thesis by simp
qed

end
