(* ===== verification/Demo_Tools.thy ===== *)
theory Demo_Tools
  imports Ns_Bounds Cli Durations
begin

text \<open>
  The demonstration tools. \<^verbatim>\<open>tools/internal/opentamsclient\<close>: time ranges as nanosecond bounds (\<open>FormatTS\<close>,
  \<open>HalfOpenRange\<close>, \<open>ParseRange\<close>) and the listing of all segments. \<^verbatim>\<open>tools/opentamsedit/fork.go\<close>: the segments of a flow
  that replaces a window of another one by a slate. \<^verbatim>\<open>tools/opentamsplay/main.go\<close>: the choice of a URL and the durations of a
  playlist. The server is a parameter, the answer to the parameters that the generated wrapper binds from a query.
\<close>

section \<open>Ranges as bounds\<close>

definition FormatTS :: "int \<Rightarrow> string" where
  "FormatTS ns =
     (let ts = \<lparr>Seconds = ns sdiv nsPerSec, Nanoseconds = i32 (ns smod nsPerSec)\<rparr>;
          ts = (if ns < 0 \<and> Nanoseconds ts \<noteq> 0
                then \<lparr>Seconds = i64 (Seconds ts - 1), Nanoseconds = i32 (Nanoseconds ts + i32 nsPerSec)\<rparr> else ts)
      in Timestamp_String ts)"

definition HalfOpenRange :: "int \<Rightarrow> int \<Rightarrow> string res" where
  "HalfOpenRange startNs endNs =
     (if endNs \<le> startNs
      then Panic (''opentamsclient.HalfOpenRange: empty/inverted range ['' @ fmt_d startNs @ '':'' @ fmt_d endNs @ '')'')
      else Ok (''['' @ FormatTS startNs @ ''_'' @ FormatTS endNs @ '')''))"

definition ParseRange :: "string \<Rightarrow> (int \<times> int) res" where
  "ParseRange s = rbind (Parse s) (\<lambda>tr.
     let startNs = (case Start tr of
           None \<Rightarrow> MinInt64
         | Some t \<Rightarrow> let n = i64 (i64 (Seconds t * nsPerSec) + Nanoseconds t)
                     in if StartType tr = Exclusive then i64 (n + 1) else n);
         endNs = (case End tr of
           None \<Rightarrow> MaxInt64
         | Some t \<Rightarrow> let n = i64 (i64 (Seconds t * nsPerSec) + Nanoseconds t)
                     in if EndType tr = Inclusive then i64 (n + 1) else n)
     in Ok (startNs, endNs))"

section \<open>Forking a flow\<close>

fun joinLines :: "string list \<Rightarrow> string" where
  "joinLines [] = []"
| "joinLines (l # lines) = l @ [CHR 0x0A] @ joinLines lines"

definition alignmentError :: "FlowSegment list \<Rightarrow> int \<Rightarrow> int \<Rightarrow> string \<Rightarrow> unit res" where
  "alignmentError parent replaceStart replaceEnd which =
     rbind (HalfOpenRange replaceStart replaceEnd) (\<lambda>r.
     Err (Errorf [Lit ''--replace '', S r, Lit '' does not align with a chunk boundary at the '', S which,
       Lit ''; pick a range that begins and ends on one of the parent segment boundaries below:'', Lit [CHR 0x0A],
       S (joinLines (map (\<lambda>s. ''  '' @ as_Timerange s) parent))]))"

definition parent_range :: "FlowSegment \<Rightarrow> (int \<times> int) res" where
  "parent_range s = rwrap (\<lambda>e. Errorf [Lit ''parse parent segment range '', Q (as_Timerange s), Lit '': '', W e])
     (ParseRange (as_Timerange s))"

definition checkAlignment :: "FlowSegment list \<Rightarrow> int \<Rightarrow> int \<Rightarrow> unit res" where
  "checkAlignment parent replaceStart replaceEnd =
     rfold (\<lambda>s _.
       rbind (parent_range s) (\<lambda>(segStart, segEnd).
       if segStart < replaceStart \<and> segEnd > replaceStart then alignmentError parent replaceStart replaceEnd ''start''
       else if segStart < replaceEnd \<and> segEnd > replaceEnd then alignmentError parent replaceStart replaceEnd ''end''
       else Ok ())) parent ()"

definition overlaySegments :: "FlowSegment list \<Rightarrow> int \<Rightarrow> int \<Rightarrow> string \<Rightarrow> FlowSegmentPost list res" where
  "overlaySegments parent replaceStart replaceEnd slateObjectID =
     rbind (checkAlignment parent replaceStart replaceEnd) (\<lambda>_.
     rbind (rfold (\<lambda>s out.
         rbind (parent_range s) (\<lambda>(segStart, segEnd).
         if segStart \<ge> replaceStart \<and> segEnd \<le> replaceEnd then Ok out
         else Ok (out @ [zeroPost\<lparr>po_ObjectId := as_ObjectId s, po_Timerange := as_Timerange s\<rparr>]))) parent []) (\<lambda>out.
     rbind (HalfOpenRange replaceStart replaceEnd) (\<lambda>r.
     Ok (out @ [zeroPost\<lparr>po_ObjectId := slateObjectID, po_Timerange := r\<rparr>]))))"

section \<open>Listing every segment\<close>

definition defaultPageSize :: int where
  "defaultPageSize = 250"

definition ListSegmentsPage_query :: "string \<Rightarrow> string \<Rightarrow> int \<Rightarrow> url_values" where
  "ListSegmentsPage_query tr cursor limit =
     setInt ''limit'' limit (setIf ''key'' cursor (setIf ''timerange'' tr []))"

text \<open>The generated wrapper of \<^verbatim>\<open>GetFlowSegments\<close> binds the parameters of a request, or hands the error to its handler with
  the status 400. The conversions of single values are those of the runtime library, which are parameters. A query has one
  value for each name, as \<^verbatim>\<open>Values.Set\<close> leaves it.\<close>

record binders =
  bd_path :: "string \<Rightarrow> string res"
  bd_header :: "string \<Rightarrow> string res"
  bd_string :: "string \<Rightarrow> string res"
  bd_bool :: "string \<Rightarrow> bool res"
  bd_int :: "string \<Rightarrow> int res"

definition bind_value :: "('v \<Rightarrow> 'a res) \<Rightarrow> string \<Rightarrow> 'v \<Rightarrow> 'a res" where
  "bind_value conv name v = rwrap (\<lambda>e. Errorf [Lit ''Invalid format for parameter '', Lit name, Lit '': '', W e]) (conv v)"

definition bind_query :: "(string \<Rightarrow> 'a res) \<Rightarrow> url_values \<Rightarrow> string \<Rightarrow> 'a option res" where
  "bind_query conv q name =
     (case map_of q name of None \<Rightarrow> Ok None | Some v \<Rightarrow> rbind (bind_value conv name v) (\<lambda>x. Ok (Some x)))"

definition bind_request_id :: "binders \<Rightarrow> string list option \<Rightarrow> string option res" where
  "bind_request_id b values =
     (case values of
        None \<Rightarrow> Ok None
      | Some [v] \<Rightarrow> rbind (bind_value (bd_header b) ''X-Request-ID'' v) (\<lambda>x. Ok (Some x))
      | Some vs \<Rightarrow> Err (Errorf [Lit ''Expected one value for X-Request-ID, got '', D (int (length vs))]))"

definition bind_GetFlowSegments ::
    "binders \<Rightarrow> string \<Rightarrow> string list option \<Rightarrow> url_values \<Rightarrow> (string \<times> GetFlowSegmentsParams) res" where
  "bind_GetFlowSegments b flowId rid q =
     rbind (bind_value (bd_path b) ''flowId'' flowId) (\<lambda>fid.
     rbind (bind_query (bd_string b) q ''object_id'') (\<lambda>oid.
     rbind (bind_query (bd_string b) q ''timerange'') (\<lambda>tr.
     rbind (bind_query (bd_bool b) q ''reverse_order'') (\<lambda>rev.
     rbind (bind_query (bd_bool b) q ''verbose_storage'') (\<lambda>vs.
     rbind (bind_query (bd_string b) q ''accept_get_urls'') (\<lambda>urls.
     rbind (bind_query (bd_string b) q ''accept_storage_ids'') (\<lambda>ids.
     rbind (bind_query (bd_bool b) q ''presigned'') (\<lambda>pre.
     rbind (bind_query (bd_bool b) q ''include_object_timerange'') (\<lambda>inc.
     rbind (bind_query (bd_string b) q ''page'') (\<lambda>page.
     rbind (bind_query (bd_int b) q ''limit'') (\<lambda>limit.
     rbind (bind_request_id b rid) (\<lambda>xid.
     Ok (fid, \<lparr>gp_ObjectId = oid, gp_Timerange = tr, gp_ReverseOrder = rev, gp_VerboseStorage = vs, gp_AcceptGetUrls = urls,
       gp_AcceptStorageIds = ids, gp_Presigned = pre, gp_IncludeObjectTimerange = inc, gp_Page = page, gp_Limit = limit,
       gp_XRequestID = xid\<rparr>)))))))))))))"

partial_function (option) list_all_loop ::
    "(url_values \<Rightarrow> page_error + (FlowSegment list \<times> string)) \<Rightarrow> string \<Rightarrow> string \<Rightarrow> FlowSegment list \<Rightarrow>
     (page_error + FlowSegment list) option" where
  "list_all_loop fetch tr cursor acc =
     (case fetch (ListSegmentsPage_query tr cursor defaultPageSize) of
        Inl e \<Rightarrow> Some (Inl e)
      | Inr (page, next_cursor) \<Rightarrow>
          (if next_cursor = [] then Some (Inr (acc @ page)) else list_all_loop fetch tr next_cursor (acc @ page)))"

definition ListAllSegments ::
    "(url_values \<Rightarrow> page_error + (FlowSegment list \<times> string)) \<Rightarrow> string \<Rightarrow> (page_error + FlowSegment list) option" where
  "ListAllSegments fetch tr = list_all_loop fetch tr [] []"

section \<open>Playing a flow\<close>

definition segmentDuration :: "FlowSegment \<Rightarrow> int" where
  "segmentDuration s =
     (case ParseRange (as_Timerange s) of
        Ok (startNs, endNs) \<Rightarrow> if endNs \<le> startNs then 6 * nsPerSec else i64 (endNs - startNs)
      | _ \<Rightarrow> 6 * nsPerSec)"

definition pickGetURL :: "FlowSegment \<Rightarrow> string" where
  "pickGetURL s =
     (case as_GetUrls s of
        None \<Rightarrow> []
      | Some gs \<Rightarrow> (case find (\<lambda>g. ge_Url g \<noteq> [] \<and> \<not> HasPrefix (ge_Url g) ''s3://'') gs of None \<Rightarrow> [] | Some g \<Rightarrow> ge_Url g))"

text \<open>\<^verbatim>\<open>time.Duration.Round\<close> of the Go library for a positive duration: halves away from zero, with the largest duration
  where the result does not fit.\<close>

definition Duration_Round :: "int \<Rightarrow> int \<Rightarrow> int" where
  "Duration_Round d m =
     (if m \<le> 0 then d
      else let r = d smod m
           in if d < 0 then (let r = - r in if r + r < m then d + r
                else let d1 = i64 (d - m + r) in if d1 < d then d1 else MinInt64)
              else if r + r < m then d - r
              else let d1 = i64 (d + m - r) in if d1 > d then d1 else MaxInt64)"

definition target_duration :: "int list \<Rightarrow> int" where
  "target_duration durs =
     (let target = foldl (\<lambda>target d. let s = Duration_Round d nsPerSec sdiv nsPerSec in if s > target then s else target) 0 durs
      in if target = 0 then 6 else target)"

text \<open>\<^verbatim>\<open>url.QueryEscape\<close>.\<close>

definition hex :: "nat \<Rightarrow> char" where
  "hex n = ''0123456789ABCDEF'' ! n"

definition unreserved :: "char \<Rightarrow> bool" where
  "unreserved c \<longleftrightarrow> c \<in> set ''abcdefghijklmnopqrstuvwxyzABCDEFGHIJKLMNOPQRSTUVWXYZ0123456789-_.~''"

definition QueryEscape :: "string \<Rightarrow> string" where
  "QueryEscape s = concat (map (\<lambda>c.
     if unreserved c then [c] else if c = CHR '' '' then ''+''
     else [CHR ''%'', hex (of_char c div 16), hex (of_char c mod 16)]) s)"

text \<open>\<^verbatim>\<open>Duration.Seconds\<close> of a duration that is not negative as a float64, and the text of any duration with three
  decimals. Negating a float64 is exact.\<close>

definition Duration_Seconds :: "int \<Rightarrow> int \<times> int" where
  "Duration_Seconds d =
     (let sec = d sdiv nsPerSec; (p, q) = float64 (d smod nsPerSec) nsPerSec in float64 (sec * q + p) q)"

definition FormatSeconds :: "int \<Rightarrow> string" where
  "FormatSeconds d =
     (let (p, q) = Duration_Seconds \<bar>d\<bar>; n = round_even (p * 1000) q; m = dec (nat (n mod 1000))
      in (if d < 0 then ''-'' else []) @ fmt_d (n div 1000) @ ''.'' @ replicate (3 - length m) (CHR ''0'') @ m)"

definition playable :: "FlowSegment list \<Rightarrow> (int \<times> string) list" where
  "playable segments = concat (map (\<lambda>(i, s).
     let d = segmentDuration s; u = pickGetURL s
     in if u = [] then [] else [(d, ''/seg/seg-'' @ fmt_d (int i) @ ''.ts?u='' @ QueryEscape u)]) (enumerate 0 segments))"

definition renderManifest :: "FlowSegment list \<Rightarrow> bool \<Rightarrow> string" where
  "renderManifest segments live =
     (let entries = playable segments
      in joinLines (
        [''#EXTM3U'', ''#EXT-X-VERSION:3'', ''#EXT-X-TARGETDURATION:'' @ fmt_d (target_duration (map fst entries)),
         ''#EXT-X-MEDIA-SEQUENCE:0''] @
        (if \<not> live then [''#EXT-X-PLAYLIST-TYPE:VOD''] else []) @
        concat (map (\<lambda>(d, u). [''#EXTINF:'' @ FormatSeconds d @ '','', u]) entries) @
        (if \<not> live then [''#EXT-X-ENDLIST''] else [])))"

section \<open>The text of a range\<close>

lemma smod_sign: "(ns smod nsPerSec < 0) = (ns < 0 \<and> ns smod nsPerSec \<noteq> 0)"
proof -
  have "ns smod nsPerSec = sgn ns * (\<bar>ns\<bar> mod nsPerSec)"
    by (simp add: signed_modulo_int_def nsPerSec_def)
  moreover have "0 \<le> \<bar>ns\<bar> mod nsPerSec" by (simp add: nsPerSec_def)
  ultimately show ?thesis by (cases ns "0::int" rule: linorder_cases) (auto simp: mult_less_0_iff sgn_if)
qed

lemma FormatTS_eq:
  assumes "in_i64 ns"
  shows "FormatTS ns = Timestamp_String (TimestampFromDuration ns)"
proof -
  have n: "\<bar>ns smod nsPerSec\<bar> < nsPerSec" using sdivmod_nsPerSec [OF assms] by auto
  have "i32 (ns smod nsPerSec) = ns smod nsPerSec" "i32 nsPerSec = nsPerSec" using n by (simp_all add: i32_id nsPerSec_def)
  moreover have "i64 (ns smod nsPerSec + nsPerSec) = ns smod nsPerSec + nsPerSec"
    using n by (intro i64_id) (auto simp: ts_defs)
  ultimately show ?thesis
    using smod_sign [of ns] by (auto simp: FormatTS_def TimestampFromDuration_def Let_def)
qed

lemma half_open_parses:
  assumes "in_i64 a" "in_i64 b" "a < b"
  shows "Parse (''['' @ FormatTS a @ ''_'' @ FormatTS b @ '')'') =
    Ok \<lparr>Start = Some (TimestampFromDuration a), StartType = Inclusive, End = Some (TimestampFromDuration b), EndType = Exclusive\<rparr>"
proof -
  let ?tr = "\<lparr>Start = Some (TimestampFromDuration a), StartType = Inclusive, End = Some (TimestampFromDuration b), EndType = Exclusive\<rparr>"
  note a = TimestampFromDuration_spec [OF assms(1)] and b = TimestampFromDuration_spec [OF assms(2)]
  have wf: "wf_tr ?tr" using a(1) b(1) by (simp add: wf_tr_def)
  have "a \<in> instants ?tr" using a(2) b(2) assms(3) by (simp add: instants_def lower_ok_def upper_ok_def)
  then have ne: "\<not> IsEmpty ?tr" using IsEmpty_iff [OF wf] by auto
  have "\<not> equal_ts (TimestampFromDuration a) (TimestampFromDuration b)"
    using a(2) b(2) assms(3) by (auto simp: equal_ts_def ts_val_def)
  then have "TimeRange_String ?tr = Ok (''['' @ FormatTS a @ ''_'' @ FormatTS b @ '')'')"
    using ne by (simp add: TimeRange_String_def IsEternity_def FormatTS_eq assms(1,2))
  then show ?thesis using TimeRange_String_Parse [OF wf] ne by simp
qed

lemma ts_nanos: "in_i64 n \<Longrightarrow> i64 (i64 (Seconds (TimestampFromDuration n) * nsPerSec) + Nanoseconds (TimestampFromDuration n)) = n"
proof -
  assume n: "in_i64 n"
  note spec = TimestampFromDuration_spec [OF n]
  have "i64 (i64 x + y) = i64 (x + y)" for x y by (simp add: i64_def mod_simps algebra_simps)
  then show ?thesis using spec(2) n by (simp add: ts_val_def i64_id)
qed

lemma ParseRange_HalfOpenRange:
  assumes "in_i64 a" "in_i64 b" "a < b"
  shows "\<exists>s. HalfOpenRange a b = Ok s \<and> ParseRange s = Ok (a, b)"
  using assms half_open_parses [OF assms] by (simp add: HalfOpenRange_def ParseRange_def ts_nanos Let_def)

section \<open>A fork replaces exactly the window\<close>

type_synonym bounds = "int \<times> int"

fun disjoint_bounds :: "bounds \<Rightarrow> bounds \<Rightarrow> bool" where
  "disjoint_bounds (a, b) (c, d) \<longleftrightarrow> b \<le> c \<or> d \<le> a"

definition objects_at :: "(string \<times> bounds) list \<Rightarrow> int \<Rightarrow> string set" where
  "objects_at ps n = {oid. \<exists>a b. (oid, a, b) \<in> set ps \<and> a \<le> n \<and> n < b}"

definition straddles :: "int \<Rightarrow> int \<Rightarrow> bounds \<Rightarrow> bool" where
  "straddles lo hi x \<longleftrightarrow> (case x of (a, b) \<Rightarrow> a < lo \<and> lo < b \<or> a < hi \<and> hi < b)"

definition inside :: "int \<Rightarrow> int \<Rightarrow> bounds \<Rightarrow> bool" where
  "inside lo hi x \<longleftrightarrow> (case x of (a, b) \<Rightarrow> lo \<le> a \<and> b \<le> hi)"

lemma checkAlignment_spec:
  assumes "list_all2 (\<lambda>s x. ParseRange (as_Timerange s) = Ok x) segs bs" "HalfOpenRange lo hi = Ok r"
  shows "\<exists>e. rfold (\<lambda>s _.
       rbind (parent_range s) (\<lambda>(segStart, segEnd).
       if segStart < lo \<and> segEnd > lo then alignmentError parent lo hi ''start''
       else if segStart < hi \<and> segEnd > hi then alignmentError parent lo hi ''end''
       else Ok ())) segs () = (if list_ex (straddles lo hi) bs then Err e else Ok ())"
  using assms(1)
proof (induction rule: list_all2_induct)
  case (Cons s segs x bs)
  obtain a b where x: "x = (a, b)" by force
  with Cons.hyps(1) have "parent_range s = Ok (a, b)" by (simp add: parent_range_def)
  with Cons.IH x assms(2) show ?case
    by (auto simp: alignmentError_def straddles_def)
qed simp

lemma overlay_fold:
  assumes "list_all2 (\<lambda>s x. ParseRange (as_Timerange s) = Ok x) segs bs"
  shows "rfold (\<lambda>s out.
         rbind (parent_range s) (\<lambda>(segStart, segEnd).
         if segStart \<ge> lo \<and> segEnd \<le> hi then Ok out
         else Ok (out @ [zeroPost\<lparr>po_ObjectId := as_ObjectId s, po_Timerange := as_Timerange s\<rparr>]))) segs out =
     Ok (out @ map (\<lambda>(s, x). zeroPost\<lparr>po_ObjectId := as_ObjectId s, po_Timerange := as_Timerange s\<rparr>)
       (filter (\<lambda>(s, x). \<not> inside lo hi x) (zip segs bs)))"
  using assms
proof (induction arbitrary: out rule: list_all2_induct)
  case (Cons s segs x bs)
  obtain a b where x: "x = (a, b)" by force
  with Cons.hyps(1) have "parent_range s = Ok (a, b)" by (simp add: parent_range_def)
  with Cons.IH x show ?case by (simp add: inside_def)
qed simp

lemma outside_window:
  assumes "\<not> straddles lo hi (a, b)" "\<not> inside lo hi (a, b)" "a < b" "lo < hi"
  shows "b \<le> lo \<or> hi \<le> a"
  using assms by (auto simp: straddles_def inside_def)

lemma disjoint_bounds_sym: "disjoint_bounds x y \<Longrightarrow> disjoint_bounds y x"
  by (cases x; cases y) auto

lemma sorted_wrt_filter_zip:
  "sorted_wrt R bs \<Longrightarrow> sorted_wrt R (map snd (filter P (zip xs bs)))"
proof (induction bs arbitrary: xs)
  case (Cons b bs)
  have "y \<in> set bs" if "(x, y) \<in> set (zip ys bs)" for x y and ys :: "'b list"
    using that by (rule set_zip_rightD)
  with Cons show ?case by (cases xs) auto
qed simp

text \<open>C34: If no segment of the parent straddles a boundary of the window, the fork has the slate in the window and, at every
  instant outside it, the objects of the parent. Its segments are disjoint and not empty, so the store can accept them
  as one batch. Otherwise the fork is refused.\<close>

theorem fork_replaces_window:
  assumes parent: "list_all2 (\<lambda>s x. ParseRange (as_Timerange s) = Ok x) parent bs" "list_all (\<lambda>(a, b). a < b) bs"
      "sorted_wrt disjoint_bounds bs"
    and window: "in_i64 lo" "in_i64 hi" "lo < hi"
  shows "if list_ex (straddles lo hi) bs then \<exists>e. overlaySegments parent lo hi slate = Err e
    else \<exists>out bs'. overlaySegments parent lo hi slate = Ok out \<and>
      list_all2 (\<lambda>p x. ParseRange (po_Timerange p) = Ok x) out bs' \<and> list_all (\<lambda>(a, b). a < b) bs' \<and>
      sorted_wrt disjoint_bounds bs' \<and>
      (\<forall>n. objects_at (zip (map po_ObjectId out) bs') n =
        (if lo \<le> n \<and> n < hi then {slate} else objects_at (zip (map as_ObjectId parent) bs) n))"
proof -
  obtain r where r: "HalfOpenRange lo hi = Ok r" "ParseRange r = Ok (lo, hi)"
    using ParseRange_HalfOpenRange [OF window] by blast
  obtain e where al: "checkAlignment parent lo hi = (if list_ex (straddles lo hi) bs then Err e else Ok ())"
    using checkAlignment_spec [OF parent(1) r(1)] unfolding checkAlignment_def by blast
  show ?thesis
  proof (cases "list_ex (straddles lo hi) bs")
    case True
    then show ?thesis by (simp add: overlaySegments_def al)
  next
    case False
    let ?kept = "filter (\<lambda>(s, x). \<not> inside lo hi x) (zip parent bs)"
    let ?out = "map (\<lambda>(s, x). zeroPost\<lparr>po_ObjectId := as_ObjectId s, po_Timerange := as_Timerange s\<rparr>) ?kept @
      [zeroPost\<lparr>po_ObjectId := slate, po_Timerange := r\<rparr>]"
    let ?bs = "map snd ?kept @ [(lo, hi)]"
    have len: "length parent = length bs" using parent(1) by (rule list_all2_lengthD)
    have in_bs: "x \<in> set bs" if "(s, x) \<in> set (zip parent bs)" for s x using that by (rule set_zip_rightD)
    have away: "b \<le> lo \<or> hi \<le> a" if "(s, a, b) \<in> set ?kept" for s a b
      using that in_bs [of s "(a, b)"] False parent(2) window(3)
      by (intro outside_window) (auto simp: list_all_iff list_ex_iff)
    have "overlaySegments parent lo hi slate = Ok ?out"
      using False by (simp add: overlaySegments_def al overlay_fold [OF parent(1)] r)
    moreover have "list_all2 (\<lambda>p x. ParseRange (po_Timerange p) = Ok x) ?out ?bs"
    proof (rule list_all2_appendI)
      have "\<forall>(s, x) \<in> set (zip parent bs). ParseRange (as_Timerange s) = Ok x" using parent(1) by (simp add: list_all2_iff)
      then show "list_all2 (\<lambda>p x. ParseRange (po_Timerange p) = Ok x)
          (map (\<lambda>(s, x). zeroPost\<lparr>po_ObjectId := as_ObjectId s, po_Timerange := as_Timerange s\<rparr>) ?kept) (map snd ?kept)"
        unfolding list_all2_map1 list_all2_map2 list_all2_same by auto
    qed (simp add: r(2))
    moreover have "list_all (\<lambda>(a, b). a < b) ?bs"
      using parent(2) window(3) in_bs by (fastforce simp: list_all_iff)
    moreover have "sorted_wrt disjoint_bounds ?bs"
      using sorted_wrt_filter_zip [OF parent(3)] away by (fastforce simp: sorted_wrt_append)
    moreover have "objects_at (zip (map po_ObjectId ?out) ?bs) n =
        (if lo \<le> n \<and> n < hi then {slate} else objects_at (zip (map as_ObjectId parent) bs) n)" for n
    proof -
      have "zip (map po_ObjectId ?out) ?bs = map (\<lambda>(s, x). (as_ObjectId s, x)) ?kept @ [(slate, lo, hi)]"
        by (simp add: zip_map_map zip_same_conv_map case_prod_unfold comp_def)
      moreover have "zip (map as_ObjectId parent) bs = map (\<lambda>(s, x). (as_ObjectId s, x)) (zip parent bs)"
        by (simp add: zip_map1)
      ultimately show ?thesis
        using away by (auto simp: objects_at_def inside_def image_iff split: prod.splits) (fastforce+)?
    qed
    ultimately show ?thesis using False by (simp only: if_False) blast
  qed
qed

definition ex_parent :: "FlowSegment list" where
  "ex_parent = map (\<lambda>(oid, tr). \<lparr>as_GetUrls = None, as_KeyFrameCount = None, as_LastDuration = None, as_ObjectId = oid,
     as_ObjectTimerange = None, as_SampleCount = None, as_SampleOffset = None, as_Timerange = tr, as_TsOffset = None\<rparr>)
     [(''a'', ''[0:0_6:0)''), (''b'', ''[6:0_12:0)''), (''c'', ''[12:0_18:0)'')]"

theorem fork_replaces_window_witness:
  "\<exists>out bs'. overlaySegments ex_parent 6000000000 12000000000 ''slate'' = Ok out \<and> sorted_wrt disjoint_bounds bs' \<and>
     objects_at (zip (map po_ObjectId out) bs') 7000000000 = {''slate''} \<and>
     objects_at (zip (map po_ObjectId out) bs') 13000000000 = {''c''}"
proof -
  let ?bs = "[(0, 6000000000), (6000000000, 12000000000), (12000000000, 18000000000)] :: bounds list"
  have "ParseRange ''[0:0_6:0)'' = Ok (0, 6000000000)" "ParseRange ''[6:0_12:0)'' = Ok (6000000000, 12000000000)"
    "ParseRange ''[12:0_18:0)'' = Ok (12000000000, 18000000000)"
    by code_simp+
  then have parse: "list_all2 (\<lambda>s x. ParseRange (as_Timerange s) = Ok x) ex_parent ?bs" by (simp add: ex_parent_def)
  have ok: "list_all (\<lambda>(a, b). a < b) ?bs" "sorted_wrt disjoint_bounds ?bs" "in_i64 6000000000" "in_i64 12000000000"
    "(6000000000 :: int) < 12000000000" by (simp_all add: in_i64_def MinInt64_def MaxInt64_def)
  have n: "\<not> list_ex (straddles 6000000000 12000000000) ?bs" by (simp add: straddles_def)
  note fork = fork_replaces_window [OF parse ok, of "''slate''", unfolded if_not_P [OF n]]
  then obtain out bs' where out: "overlaySegments ex_parent 6000000000 12000000000 ''slate'' = Ok out" "sorted_wrt disjoint_bounds bs'"
    and at: "\<And>n. objects_at (zip (map po_ObjectId out) bs') n =
      (if 6000000000 \<le> n \<and> n < 12000000000 then {''slate''} else objects_at (zip (map as_ObjectId ex_parent) ?bs) n)" by blast
  have "objects_at (zip (map as_ObjectId ex_parent) ?bs) 13000000000 = {''c''}"
    by (auto simp: objects_at_def ex_parent_def)
  with out at [of 7000000000] at [of 13000000000] show ?thesis by auto
qed

section \<open>The listing of all segments\<close>

lemma map_of_query:
  "map_of (setIf k v q) k' = (if k = k' \<and> v \<noteq> [] then Some v else map_of q k')"
  "map_of (setBool k b q) k' = (if k = k' \<and> b then Some ''true'' else map_of q k')"
  "map_of (setInt k n q) k' = (if k = k' \<and> n > 0 then Some (fmt_d n) else map_of q k')"
  by (simp_all add: setIf_def setBool_def setInt_def update_conv)

lemma bind_ignores_key:
  "bind_GetFlowSegments b fid rid (ListSegmentsPage_query tr cursor limit) =
   bind_GetFlowSegments b fid rid (ListSegmentsPage_query tr [] limit)"
  by (simp add: bind_GetFlowSegments_def ListSegmentsPage_query_def bind_query_def map_of_query)

text \<open>The operator's tool names the parameter that the server reads.\<close>

lemma cli_page_bound:
  assumes "bind_GetFlowSegments b fid rid (cli_ListSegments_query p) = Ok (fid', ps)" "bd_string b = Ok"
  shows "gp_Page ps = (if sg_PageToken p = [] then None else Some (sg_PageToken p))"
proof -
  have "bind_query (bd_string b) (cli_ListSegments_query p) ''page'' =
      Ok (if sg_PageToken p = [] then None else Some (sg_PageToken p))"
    using assms(2) by (simp add: bind_query_def bind_value_def cli_ListSegments_query_def map_of_query)
  with assms(1) show ?thesis by (auto simp: bind_GetFlowSegments_def rbind_Ok_iff)
qed

lemma list_all_loop_stuck:
  assumes "list_all_loop fetch tr cursor acc = Some r" "fetch = (\<lambda>q. answer (bind_GetFlowSegments b fid rid q))"
    "answer (bind_GetFlowSegments b fid rid (ListSegmentsPage_query tr [] defaultPageSize)) = Inr (page, nxt)" "nxt \<noteq> []"
  shows False
  using assms
proof (induction fetch tr cursor acc r rule: list_all_loop.raw_induct [rotated, consumes 1, case_names step])
  case (step loop fetch tr cursor acc r)
  have "fetch (ListSegmentsPage_query tr cursor defaultPageSize) = Inr (page, nxt)"
    using step(3,4) bind_ignores_key [of b fid rid tr cursor] by simp
  with step(2,5) have "loop fetch tr nxt (acc @ page) = Some r" by simp
  from step(1) [OF this step(3,4,5)] show False .
qed

text \<open>C35: \<^verbatim>\<open>ListAllSegments\<close> sends its cursor under a name that the server does not read. Against any server that answers by
  the parameters it binds, it returns the segments if they fit into one page and otherwise asks for the first page for ever.\<close>

theorem list_all_segments_exact:
  "ListAllSegments (\<lambda>q. answer (bind_GetFlowSegments b fid rid q)) tr =
     (case answer (bind_GetFlowSegments b fid rid (ListSegmentsPage_query tr [] defaultPageSize)) of
        Inl e \<Rightarrow> Some (Inl e)
      | Inr (page, next_cursor) \<Rightarrow> if next_cursor = [] then Some (Inr page) else None)"
proof -
  let ?fetch = "\<lambda>q. answer (bind_GetFlowSegments b fid rid q)"
  have "list_all_loop ?fetch tr [] [] = None"
    if "?fetch (ListSegmentsPage_query tr [] defaultPageSize) = Inr (page, nxt)" "nxt \<noteq> []" for page nxt
    using list_all_loop_stuck [of ?fetch tr "[]" "[]" _ answer b fid rid, OF _ refl that]
    by (cases "list_all_loop ?fetch tr [] []") auto
  then show ?thesis
    unfolding ListAllSegments_def
    by (subst list_all_loop.simps) (auto simp: list_all_loop.simps split: sum.split)
qed

section \<open>Playlists\<close>

lemma fold_target:
  fixes f :: "int \<Rightarrow> int"
  shows "t0 \<le> foldl (\<lambda>t d. let s = f d in if s > t then s else t) t0 ds \<and>
    (\<forall>d \<in> set ds. f d \<le> foldl (\<lambda>t d. let s = f d in if s > t then s else t) t0 ds)"
proof (induction ds arbitrary: t0)
  case (Cons d ds)
  from Cons [of "if f d > t0 then f d else t0"] show ?case by (auto simp: Let_def split: if_splits)
qed simp

lemma target_duration_bound:
  "d \<in> set durs \<Longrightarrow> Duration_Round d nsPerSec sdiv nsPerSec \<le> target_duration durs" "0 < target_duration durs"
  using fold_target [of 0 "\<lambda>d. Duration_Round d nsPerSec sdiv nsPerSec" durs]
  by (auto simp: target_duration_def Let_def split: if_splits)

lemma playlist_target:
  "(d, u) \<in> set (playable segments) \<Longrightarrow>
   Duration_Round d nsPerSec sdiv nsPerSec \<le> target_duration (map fst (playable segments))"
  by (rule target_duration_bound) force

lemma FormatSeconds_examples:
  "FormatSeconds 6006000000 = ''6.006''" "FormatSeconds 1500000 = ''0.002''" "FormatSeconds (-1) = ''-0.000''" "FormatSeconds 500000 = ''0.001''"
  by code_simp+

lemma ParseRange_eternity: "ParseRange ''_'' = Ok (MinInt64, MaxInt64)"
  by code_simp

end
