(* ===== verification/Dataset.thy ===== *)
theory Dataset
  imports Demo_Tools "HOL-Library.Multiset"
begin

text \<open>
  The data generator of the scale tests, \<^verbatim>\<open>tools/scaletest/dataset\<close>: the row counts of a plan (\<open>Compose\<close>, \<open>Preset6\<close>,
  \<open>Preset1\<close>), the rows of flows, objects and segments as functions of plan, seed and index, and the two iterators over the
  segments, sequential and by worker. SHA-256 is a parameter, a function on byte strings. The main theorem: the workers
  together load exactly the rows of the sequential iterator, no two of them touch one flow, and the rows keep what the
  constraints of the tables demand.
\<close>

section \<open>Plans\<close>

record Knobs =
  kn_TargetSegments :: int
  kn_ChunkDurationSec :: int
  kn_DeepDepth :: int
  kn_ShallowDepth :: int
  kn_DeepFlowCount :: int
  kn_RenditionsPerSource :: int

record Plan = Knobs +
  pl_DeepSegments :: int
  pl_ShallowFlowCount :: int
  pl_ShallowSegments :: int
  pl_TotalSegments :: int
  pl_TotalFlows :: int
  pl_SourcesCount :: int
  pl_FlowCollectionRows :: int
  pl_ObjectsCount :: int

text \<open>\<^verbatim>\<open>int64(math.Round(x))\<close> of a float64 that is not negative, given as a fraction: halves up. A value that does not fit
  becomes the least int64, as on amd64.\<close>

definition round_int64 :: "int \<times> int \<Rightarrow> int" where
  "round_int64 x = (case x of (p, q) \<Rightarrow> let n = (2 * p + q) div (2 * q) in if n \<le> MaxInt64 then n else MinInt64)"

definition fdiv :: "int \<times> int \<Rightarrow> int \<times> int \<Rightarrow> int \<times> int" where
  "fdiv x y = (case (x, y) of ((a, b), (c, d)) \<Rightarrow> float64 (a * d) (b * c))"

definition fmul :: "int \<times> int \<Rightarrow> int \<times> int \<Rightarrow> int \<times> int" where
  "fmul x y = (case (x, y) of ((a, b), (c, d)) \<Rightarrow> float64 (a * c) (b * d))"

definition Compose :: "Knobs \<Rightarrow> Plan res" where
  "Compose k =
     (if kn_TargetSegments k \<le> 0 then Err (Errorf [Lit ''TargetSegments must be > 0, got '', D (kn_TargetSegments k)])
      else if kn_ChunkDurationSec k \<noteq> 1 \<and> kn_ChunkDurationSec k \<noteq> 6 then
        Err (Errorf [Lit ''ChunkDurationSec must be 1 or 6, got '', D (kn_ChunkDurationSec k)])
      else if kn_DeepDepth k \<le> 0 then Err (Errorf [Lit ''DeepDepth must be > 0, got '', D (kn_DeepDepth k)])
      else if kn_ShallowDepth k \<le> 0 then Err (Errorf [Lit ''ShallowDepth must be > 0, got '', D (kn_ShallowDepth k)])
      else if kn_RenditionsPerSource k \<le> 0 then
        Err (Errorf [Lit ''RenditionsPerSource must be > 0, got '', D (kn_RenditionsPerSource k)])
      else if kn_DeepFlowCount k < 0 then Err (Errorf [Lit ''DeepFlowCount must be >= 0, got '', D (kn_DeepFlowCount k)])
      else let deepSegs = i64 (kn_DeepFlowCount k * kn_DeepDepth k)
      in if deepSegs > i64 (kn_TargetSegments k + kn_TargetSegments k sdiv 10) then
        Err (Errorf [Lit ''deep segments '', D deepSegs, Lit '' exceeds target '', D (kn_TargetSegments k),
          Lit '' by >10% (DeepFlowCount='', D (kn_DeepFlowCount k), Lit ('' '' @ [CHR 0xC3, CHR 0x97] @ '' DeepDepth=''),
          D (kn_DeepDepth k), Lit '')''])
      else let shallowTarget = i64 (kn_TargetSegments k - deepSegs);
        shallowCount = (if shallowTarget > 0
          then round_int64 (fdiv (float64 shallowTarget 1) (float64 (kn_ShallowDepth k) 1)) else 0);
        shallowSegs = i64 (shallowCount * kn_ShallowDepth k);
        totalSegs = i64 (deepSegs + shallowSegs);
        totalFlows = i64 (kn_DeepFlowCount k + shallowCount);
        sources = (if totalFlows > 0
          then i64 (i64 (totalFlows + kn_RenditionsPerSource k) - 1) sdiv kn_RenditionsPerSource k else 0)
      in Ok (Knobs.extend k \<lparr>pl_DeepSegments = deepSegs, pl_ShallowFlowCount = shallowCount, pl_ShallowSegments = shallowSegs,
        pl_TotalSegments = totalSegs, pl_TotalFlows = totalFlows, pl_SourcesCount = sources,
        pl_FlowCollectionRows = i64 (totalFlows - sources), pl_ObjectsCount = totalSegs\<rparr>))"

text \<open>\<^verbatim>\<open>int64(math.Round(float64(target) * frac / float64(depth)))\<close>. Each operation is symmetric in the sign.\<close>

definition deep_count :: "int \<Rightarrow> int \<times> int \<Rightarrow> int \<Rightarrow> int" where
  "deep_count target frac depth = sgn target * round_int64 (fdiv (fmul (float64 \<bar>target\<bar> 1) frac) (float64 depth 1))"

definition Preset6 :: "int \<Rightarrow> Knobs" where
  "Preset6 target = \<lparr>kn_TargetSegments = target, kn_ChunkDurationSec = 6, kn_DeepDepth = 150000, kn_ShallowDepth = 50,
     kn_DeepFlowCount = deep_count target (float64 9 10) 150000,
     kn_RenditionsPerSource = 6\<rparr>"

definition Preset1 :: "int \<Rightarrow> Knobs" where
  "Preset1 target = \<lparr>kn_TargetSegments = target, kn_ChunkDurationSec = 1, kn_DeepDepth = 1296000, kn_ShallowDepth = 300,
     kn_DeepFlowCount = deep_count target (float64 78 100) 1296000,
     kn_RenditionsPerSource = 6\<rparr>"

section \<open>Rows\<close>

record FlowRow =
  fr_ID :: string
  fr_SourceID :: string
  fr_Format :: string
  fr_Codec :: string
  fr_Container :: string
  fr_Label :: string
  fr_SegmentDuration :: string
  fr_ReadOnly :: bool
  fr_Timerange :: string

record ObjectRow =
  ow_ID :: string
  ow_RefCount :: int
  ow_Reaping :: bool

record SegmentRow =
  sw_FlowID :: string
  sw_ObjectID :: string
  sw_Timerange :: string
  sw_LowerNs :: int
  sw_UpperNs :: int
  sw_TsOffset :: string

record Gen =
  gn_plan :: Plan
  gn_seed :: int
  gn_chunkNs :: int

definition NewGen :: "Plan \<Rightarrow> int \<Rightarrow> Gen" where
  "NewGen p seed = \<lparr>gn_plan = p, gn_seed = seed, gn_chunkNs = i64 (kn_ChunkDurationSec p * 1000000000)\<rparr>"

definition FlowDepth :: "Gen \<Rightarrow> int \<Rightarrow> int" where
  "FlowDepth g flowIdx =
     (if flowIdx < kn_DeepFlowCount (gn_plan g) then kn_DeepDepth (gn_plan g) else kn_ShallowDepth (gn_plan g))"

text \<open>\<^verbatim>\<open>binary.BigEndian.PutUint64\<close>, and the lower case hexadecimal text of bytes.\<close>

definition PutUint64 :: "int \<Rightarrow> string" where
  "PutUint64 x = map (\<lambda>i. char_of (nat (x div 256 ^ i mod 256))) [7, 6, 5, 4, 3, 2, 1, 0]"

definition hex_bytes :: "string \<Rightarrow> string" where
  "hex_bytes s = concat (map (\<lambda>c. [''0123456789abcdef'' ! (of_char c div 16), ''0123456789abcdef'' ! (of_char c mod 16)]) s)"

definition detUUID :: "(string \<Rightarrow> string) \<Rightarrow> int \<Rightarrow> string \<Rightarrow> int \<Rightarrow> string" where
  "detUUID sha256 seed domain idx =
     (let u = take 16 (sha256 (PutUint64 seed @ domain @ PutUint64 (u64 idx)));
          u = u[6 := char_of ((of_char (u ! 6) :: nat) mod 16 + 0x40)]
      in u[8 := char_of ((of_char (u ! 8) :: nat) mod 64 + 0x80)])"

definition detObjectID :: "(string \<Rightarrow> string) \<Rightarrow> int \<Rightarrow> int \<Rightarrow> string" where
  "detObjectID sha256 seed idx = ''o-'' @ hex_bytes (take 16 (sha256 (PutUint64 seed @ ''object'' @ PutUint64 (u64 idx))))"

definition Gen_Flow :: "(string \<Rightarrow> string) \<Rightarrow> Gen \<Rightarrow> int \<Rightarrow> FlowRow" where
  "Gen_Flow sha256 g i =
     (let srcIdx = i sdiv kn_RenditionsPerSource (gn_plan g);
          endSec = i64 (FlowDepth g i * kn_ChunkDurationSec (gn_plan g))
      in \<lparr>fr_ID = detUUID sha256 (gn_seed g) ''flow'' i, fr_SourceID = detUUID sha256 (gn_seed g) ''source'' srcIdx,
        fr_Format = ''urn:x-nmos:format:video'', fr_Codec = ''video/h264'', fr_Container = ''video/mp4'',
        fr_Label = ''flow-'' @ fmt_d i, fr_SegmentDuration = fmt_d (kn_ChunkDurationSec (gn_plan g)) @ '':1'',
        fr_ReadOnly = False, fr_Timerange = ''[0:0_'' @ fmt_d endSec @ '':0)''\<rparr>)"

definition Gen_Object :: "(string \<Rightarrow> string) \<Rightarrow> Gen \<Rightarrow> int \<Rightarrow> ObjectRow" where
  "Gen_Object sha256 g k = \<lparr>ow_ID = detObjectID sha256 (gn_seed g) k, ow_RefCount = 1, ow_Reaping = False\<rparr>"

definition globalSegIdx :: "Gen \<Rightarrow> int \<Rightarrow> int \<Rightarrow> int" where
  "globalSegIdx g flowIdx segIdx =
     (let p = gn_plan g
      in if flowIdx < kn_DeepFlowCount p then i64 (i64 (flowIdx * kn_DeepDepth p) + segIdx)
         else let deepTotal = i64 (kn_DeepFlowCount p * kn_DeepDepth p);
                  shallowFlowOffset = i64 (flowIdx - kn_DeepFlowCount p)
              in i64 (i64 (deepTotal + i64 (shallowFlowOffset * kn_ShallowDepth p)) + segIdx))"

definition Gen_Segment :: "(string \<Rightarrow> string) \<Rightarrow> Gen \<Rightarrow> int \<Rightarrow> int \<Rightarrow> SegmentRow" where
  "Gen_Segment sha256 g flowIdx segIdx =
     (let chunk = kn_ChunkDurationSec (gn_plan g);
          startSec = i64 (segIdx * chunk);
          endSec = i64 (i64 (segIdx + 1) * chunk)
      in \<lparr>sw_FlowID = detUUID sha256 (gn_seed g) ''flow'' flowIdx,
        sw_ObjectID = detObjectID sha256 (gn_seed g) (globalSegIdx g flowIdx segIdx),
        sw_Timerange = ''['' @ fmt_d startSec @ '':0_'' @ fmt_d endSec @ '':0)'',
        sw_LowerNs = i64 (segIdx * gn_chunkNs g), sw_UpperNs = i64 (i64 (segIdx + 1) * gn_chunkNs g), sw_TsOffset = ''0:0''\<rparr>)"

section \<open>Iterators\<close>

text \<open>An iterator is its state, with the generator as an argument of its operations.\<close>

definition zeroSegmentRow :: SegmentRow where
  "zeroSegmentRow = \<lparr>sw_FlowID = replicate 16 (CHR 0x00), sw_ObjectID = [], sw_Timerange = [], sw_LowerNs = 0, sw_UpperNs = 0,
     sw_TsOffset = []\<rparr>"

record SegmentIter =
  si_flowIdx :: int
  si_segIdx :: int
  si_depth :: int
  si_cur :: SegmentRow

definition Segments :: SegmentIter where
  "Segments = \<lparr>si_flowIdx = 0, si_segIdx = -1, si_depth = 0, si_cur = zeroSegmentRow\<rparr>"

partial_function (option) SegmentIter_Next :: "(string \<Rightarrow> string) \<Rightarrow> Gen \<Rightarrow> SegmentIter \<Rightarrow> (bool \<times> SegmentIter) option" where
  "SegmentIter_Next sha256 g it =
     (if si_flowIdx it < pl_TotalFlows (gn_plan g) then
        (let it1 = (if si_segIdx it = -1 then it\<lparr>si_depth := FlowDepth g (si_flowIdx it)\<rparr> else it);
             it2 = it1\<lparr>si_segIdx := i64 (si_segIdx it1 + 1)\<rparr>
         in if si_segIdx it2 < si_depth it2
            then Some (True, it2\<lparr>si_cur := Gen_Segment sha256 g (si_flowIdx it2) (si_segIdx it2)\<rparr>)
            else SegmentIter_Next sha256 g (it2\<lparr>si_flowIdx := i64 (si_flowIdx it2 + 1), si_segIdx := -1\<rparr>))
      else Some (False, it))"

record PartitionedSegmentIter =
  pi_totalWorkers :: int
  pi_flowIdx :: int
  pi_segIdx :: int
  pi_depth :: int
  pi_cur :: SegmentRow

definition PartitionedSegments :: "Gen \<Rightarrow> int \<Rightarrow> int \<Rightarrow> PartitionedSegmentIter" where
  "PartitionedSegments g workerID totalWorkers =
     (let totalWorkers = (if totalWorkers < 1 then 1 else totalWorkers);
          workerID = (if workerID < 0 \<or> workerID \<ge> totalWorkers then pl_TotalFlows (gn_plan g) else workerID)
      in \<lparr>pi_totalWorkers = totalWorkers, pi_flowIdx = workerID, pi_segIdx = -1, pi_depth = 0, pi_cur = zeroSegmentRow\<rparr>)"

partial_function (option) PartitionedSegmentIter_Next ::
    "(string \<Rightarrow> string) \<Rightarrow> Gen \<Rightarrow> PartitionedSegmentIter \<Rightarrow> (bool \<times> PartitionedSegmentIter) option" where
  "PartitionedSegmentIter_Next sha256 g it =
     (if pi_flowIdx it < pl_TotalFlows (gn_plan g) then
        (let it1 = (if pi_segIdx it = -1 then it\<lparr>pi_depth := FlowDepth g (pi_flowIdx it)\<rparr> else it);
             it2 = it1\<lparr>pi_segIdx := i64 (pi_segIdx it1 + 1)\<rparr>
         in if pi_segIdx it2 < pi_depth it2
            then Some (True, it2\<lparr>pi_cur := Gen_Segment sha256 g (pi_flowIdx it2) (pi_segIdx it2)\<rparr>)
            else PartitionedSegmentIter_Next sha256 g
              (it2\<lparr>pi_flowIdx := i64 (pi_flowIdx it2 + pi_totalWorkers it2), pi_segIdx := -1\<rparr>))
      else Some (False, it))"

text \<open>The rows that a consumer gets from \<^verbatim>\<open>for it.Next() { it.Row() }\<close>.\<close>

partial_function (option) drain :: "('i \<Rightarrow> (bool \<times> 'i) option) \<Rightarrow> ('i \<Rightarrow> 'r) \<Rightarrow> 'i \<Rightarrow> 'r list option" where
  "drain step row it =
     (case step it of
        None \<Rightarrow> None
      | Some (ok, it') \<Rightarrow>
          (if ok then Option.bind (drain step row it') (\<lambda>rs. Some (row it' # rs)) else Some []))"

section \<open>Plans that fit\<close>

text \<open>A plan whose counts are numbers of the machine.\<close>

definition plan_fits :: "Plan \<Rightarrow> bool" where
  "plan_fits p \<longleftrightarrow> 0 \<le> pl_ShallowFlowCount p \<and>
     kn_DeepFlowCount p + pl_ShallowFlowCount p \<le> MaxInt64 \<and>
     kn_DeepFlowCount p * kn_DeepDepth p + pl_ShallowFlowCount p * kn_ShallowDepth p \<le> MaxInt64 \<and>
     kn_DeepDepth p * kn_ChunkDurationSec p * nsPerSec \<le> MaxInt64 \<and>
     kn_ShallowDepth p * kn_ChunkDurationSec p * nsPerSec \<le> MaxInt64"

lemma Compose_Ok:
  assumes "Compose k = Ok p"
  shows "0 < kn_DeepDepth p" "0 < kn_ShallowDepth p" "0 \<le> kn_DeepFlowCount p" "kn_ChunkDurationSec p = 1 \<or> kn_ChunkDurationSec p = 6"
    "0 < kn_RenditionsPerSource p"
    "pl_TotalFlows p = i64 (kn_DeepFlowCount p + pl_ShallowFlowCount p)"
    "pl_TotalSegments p = i64 (i64 (kn_DeepFlowCount p * kn_DeepDepth p) + i64 (pl_ShallowFlowCount p * kn_ShallowDepth p))"
    "pl_ObjectsCount p = pl_TotalSegments p"
  using assms by (auto simp: Compose_def Let_def Knobs.defs split: if_splits)

lemma Compose_examples:
  "rbind (Compose (Preset6 500000000)) (\<lambda>p. Ok (kn_DeepFlowCount p, pl_ShallowFlowCount p, pl_TotalSegments p, pl_SourcesCount p)) =
     Ok (3000, 1000000, 500000000, 167167)"
  "rbind (Compose (Preset1 500000000)) (\<lambda>p. Ok (kn_DeepFlowCount p, pl_ShallowFlowCount p, pl_TotalSegments p)) =
     Ok (301, 366347, 500000100)"
  "rbind (Compose \<lparr>kn_TargetSegments = 1000, kn_ChunkDurationSec = 6, kn_DeepDepth = 1, kn_ShallowDepth = 1999,
     kn_DeepFlowCount = 0, kn_RenditionsPerSource = 1\<rparr>) (\<lambda>p. Ok (pl_TotalSegments p)) = Ok 1999"
  by code_simp+

section \<open>Draining an iterator\<close>

function flows_from :: "int \<Rightarrow> int \<Rightarrow> int \<Rightarrow> int list" where
  "flows_from w tot f = (if f < tot \<and> 1 \<le> w then f # flows_from w tot (f + w) else [])"
  by pat_completeness auto

termination flows_from
  by (relation "measure (\<lambda>(w, tot, f). nat (tot - f))") auto

declare flows_from.simps [simp del]

lemma drain_more: "step it = Some (True, it') \<Longrightarrow> drain step row it = Option.bind (drain step row it') (\<lambda>rs. Some (row it' # rs))"
  by (subst drain.simps) simp

lemma drain_end: "step it = Some (False, it') \<Longrightarrow> drain step row it = Some []"
  by (subst drain.simps) simp

lemma drain_same: "step it = step it' \<Longrightarrow> drain step row it = drain step row it'"
  by (simp add: drain.simps [of step row it] drain.simps [of step row it'])

text \<open>The contract of an iterator over segments: \<open>at f j\<close> holds of its state after segment \<open>j\<close> of flow \<open>f\<close>, with \<open>j = -1\<close>
  before the first one. It goes on to the next segment, after the last one to the flow \<open>w\<close> places further, and stops
  at the total of flows.\<close>

locale segment_iterator =
  fixes step :: "'i \<Rightarrow> (bool \<times> 'i) option" and row :: "'i \<Rightarrow> 'r" and at :: "int \<Rightarrow> int \<Rightarrow> 'i \<Rightarrow> bool"
    and w tot :: int and depth :: "int \<Rightarrow> int" and seg :: "int \<Rightarrow> int \<Rightarrow> 'r"
  assumes stride: "at f j it \<Longrightarrow> 1 \<le> w"
    and before_end: "at f j it \<Longrightarrow> f < tot \<Longrightarrow> j < depth f"
    and next_row: "at f j it \<Longrightarrow> f < tot \<Longrightarrow> j + 1 < depth f \<Longrightarrow>
      \<exists>it'. step it = Some (True, it') \<and> row it' = seg f (j + 1) \<and> at f (j + 1) it'"
    and next_flow: "at f j it \<Longrightarrow> f < tot \<Longrightarrow> j + 1 = depth f \<Longrightarrow> \<exists>it'. step it = step it' \<and> at (f + w) (-1) it'"
    and finished: "at f (-1) it \<Longrightarrow> tot \<le> f \<Longrightarrow> \<exists>it'. step it = Some (False, it')"
begin

lemma drain_flow:
  assumes "at f j it" "f < tot"
  shows "\<exists>it'. at (f + w) (-1) it' \<and>
    drain step row it = Option.bind (drain step row it') (\<lambda>rs. Some (map (seg f) [j + 1..depth f - 1] @ rs))"
  using assms
proof (induction "nat (depth f - 1 - j)" arbitrary: j it)
  case 0
  with before_end [of f j it] have "j + 1 = depth f" by simp
  moreover from this next_flow [OF 0(2,3)] obtain it' where "step it = step it'" "at (f + w) (-1) it'" by blast
  ultimately show ?case using drain_same [of step it it' row] by (auto split: Option.bind_split)
next
  case (Suc n)
  then have j: "j + 1 < depth f" by linarith
  from next_row [OF Suc.prems this] obtain it1 where
    it1: "step it = Some (True, it1)" "row it1 = seg f (j + 1)" "at f (j + 1) it1" by blast
  from Suc.hyps(1) [OF _ it1(3) Suc.prems(2)] Suc.hyps(2) obtain it' where it': "at (f + w) (-1) it'"
    "drain step row it1 = Option.bind (drain step row it') (\<lambda>rs. Some (map (seg f) [j + 1 + 1..depth f - 1] @ rs))"
    by fastforce
  have "[j + 1..depth f - 1] = (j + 1) # [j + 1 + 1..depth f - 1]" using j by (simp add: upto_rec1)
  with it' it1(2) show ?case by (intro exI [of _ it']) (simp add: drain_more [of step it it1, OF it1(1)])
qed

lemma drain_all:
  "at f (-1) it \<Longrightarrow> drain step row it = Some (concat (map (\<lambda>f. map (seg f) [0..depth f - 1]) (flows_from w tot f)))"
proof (induction "nat (tot - f)" arbitrary: f it rule: less_induct)
  case less
  show ?case
  proof (cases "f < tot")
    case True
    obtain it' where it': "at (f + w) (-1) it'"
      "drain step row it = Option.bind (drain step row it') (\<lambda>rs. Some (map (seg f) [0..depth f - 1] @ rs))"
      using drain_flow [OF less.prems True] by auto
    from stride [OF less.prems] True have w: "1 \<le> w" "nat (tot - (f + w)) < nat (tot - f)" by simp_all
    from less.hyps [OF w(2) it'(1)] it'(2) True w(1) show ?thesis by (simp add: flows_from.simps [of w tot f])
  next
    case False
    with finished [OF less.prems] show ?thesis by (auto simp: flows_from.simps [of w tot f] dest: drain_end)
  qed
qed

end

lemma i64_nonneg: "0 \<le> n \<Longrightarrow> n \<le> MaxInt64 \<Longrightarrow> i64 n = n"
  by (rule i64_id) (simp add: in_i64_def MinInt64_def)

definition gen_ok :: "Gen \<Rightarrow> bool" where
  "gen_ok g \<longleftrightarrow> (\<exists>k. Compose k = Ok (gn_plan g)) \<and> plan_fits (gn_plan g) \<and>
     gn_chunkNs g = kn_ChunkDurationSec (gn_plan g) * nsPerSec"

lemma gen_okD:
  assumes "gen_ok g"
  shows "0 < FlowDepth g f" "FlowDepth g f * gn_chunkNs g \<le> MaxInt64"
    "gn_chunkNs g = kn_ChunkDurationSec (gn_plan g) * nsPerSec" "kn_ChunkDurationSec (gn_plan g) \<in> {1, 6}"
    "pl_TotalFlows (gn_plan g) = kn_DeepFlowCount (gn_plan g) + pl_ShallowFlowCount (gn_plan g)"
    "pl_TotalFlows (gn_plan g) \<le> MaxInt64"
    "FlowDepth g f \<le> MaxInt64"
proof -
  obtain k where k: "Compose k = Ok (gn_plan g)" and fits: "plan_fits (gn_plan g)"
    and ns: "gn_chunkNs g = kn_ChunkDurationSec (gn_plan g) * nsPerSec" using assms by (auto simp: gen_ok_def)
  note c = Compose_Ok [OF k]
  show "0 < FlowDepth g f" "FlowDepth g f * gn_chunkNs g \<le> MaxInt64" "gn_chunkNs g = kn_ChunkDurationSec (gn_plan g) * nsPerSec"
    "kn_ChunkDurationSec (gn_plan g) \<in> {1, 6}"
    using c fits ns by (auto simp: FlowDepth_def plan_fits_def mult.assoc)
  show f: "pl_TotalFlows (gn_plan g) = kn_DeepFlowCount (gn_plan g) + pl_ShallowFlowCount (gn_plan g)"
    using c(3,6) fits by (simp add: plan_fits_def i64_nonneg)
  show "pl_TotalFlows (gn_plan g) \<le> MaxInt64" using f fits by (simp add: plan_fits_def)
  show "FlowDepth g f \<le> MaxInt64"
    using c(1,2,4) fits by (auto simp: FlowDepth_def plan_fits_def nsPerSec_def MaxInt64_def)
qed

text \<open>The states of the two iterators.\<close>

definition seq_at :: "Gen \<Rightarrow> int \<Rightarrow> int \<Rightarrow> SegmentIter \<Rightarrow> bool" where
  "seq_at g f j it \<longleftrightarrow> gen_ok g \<and> 0 \<le> f \<and> -1 \<le> j \<and> (f < pl_TotalFlows (gn_plan g) \<longrightarrow> j < FlowDepth g f) \<and>
     si_flowIdx it = f \<and> si_segIdx it = j \<and> (j \<noteq> -1 \<longrightarrow> si_depth it = FlowDepth g f)"

definition par_at :: "Gen \<Rightarrow> int \<Rightarrow> int \<Rightarrow> int \<Rightarrow> PartitionedSegmentIter \<Rightarrow> bool" where
  "par_at g w f j it \<longleftrightarrow> gen_ok g \<and> 1 \<le> w \<and> pl_TotalFlows (gn_plan g) + w \<le> MaxInt64 \<and> 0 \<le> f \<and> -1 \<le> j \<and>
     (f < pl_TotalFlows (gn_plan g) \<longrightarrow> j < FlowDepth g f) \<and> pi_totalWorkers it = w \<and>
     pi_flowIdx it = f \<and> pi_segIdx it = j \<and> (j \<noteq> -1 \<longrightarrow> pi_depth it = FlowDepth g f)"

interpretation sequential: segment_iterator "SegmentIter_Next sha256 g" si_cur "seq_at g" 1 "pl_TotalFlows (gn_plan g)"
  "FlowDepth g" "Gen_Segment sha256 g" for sha256 g
proof (unfold_locales, goal_cases)
  case (3 f j it)
  with gen_okD(7) [of g f] show ?case by (subst SegmentIter_Next.simps) (auto simp: seq_at_def Let_def i64_nonneg)
next
  case (4 f j it)
  have "SegmentIter_Next sha256 g it = SegmentIter_Next sha256 g (it\<lparr>si_depth := FlowDepth g f, si_flowIdx := f + 1, si_segIdx := -1\<rparr>)"
    using 4 gen_okD(6) [of g] gen_okD(7) [of g f]
    by (cases it) (subst SegmentIter_Next.simps, auto simp: seq_at_def Let_def i64_nonneg)
  moreover have "seq_at g (f + 1) (-1) (it\<lparr>si_depth := FlowDepth g f, si_flowIdx := f + 1, si_segIdx := -1\<rparr>)"
    using 4 gen_okD(1) [of g "f + 1"] by (simp add: seq_at_def)
  ultimately show ?case by blast
next
  case (5 f it)
  then show ?case by (subst SegmentIter_Next.simps) (simp add: seq_at_def)
qed (simp_all add: seq_at_def)

interpretation partitioned: segment_iterator "PartitionedSegmentIter_Next sha256 g" pi_cur "par_at g w" w
  "pl_TotalFlows (gn_plan g)" "FlowDepth g" "Gen_Segment sha256 g" for sha256 g w
proof (unfold_locales, goal_cases)
  case (3 f j it)
  with gen_okD(7) [of g f] show ?case by (subst PartitionedSegmentIter_Next.simps) (auto simp: par_at_def Let_def i64_nonneg)
next
  case (4 f j it)
  have "PartitionedSegmentIter_Next sha256 g it =
      PartitionedSegmentIter_Next sha256 g (it\<lparr>pi_depth := FlowDepth g f, pi_flowIdx := f + w, pi_segIdx := -1\<rparr>)"
    using 4 gen_okD(6) [of g] gen_okD(7) [of g f]
    by (cases it) (subst PartitionedSegmentIter_Next.simps, auto simp: par_at_def Let_def i64_nonneg)
  moreover have "par_at g w (f + w) (-1) (it\<lparr>pi_depth := FlowDepth g f, pi_flowIdx := f + w, pi_segIdx := -1\<rparr>)"
    using 4 gen_okD(1) [of g "f + w"] by (simp add: par_at_def)
  ultimately show ?case by blast
next
  case (5 f it)
  then show ?case by (subst PartitionedSegmentIter_Next.simps) (simp add: par_at_def)
qed (simp_all add: par_at_def)

section \<open>The flows of a worker\<close>

lemma set_flows_from: "1 \<le> w \<Longrightarrow> set (flows_from w tot f) = {i. f \<le> i \<and> i < tot \<and> w dvd i - f}"
proof (induction w tot f rule: flows_from.induct)
  case (1 w tot f)
  have step: "f \<le> i \<and> w dvd i - f \<longleftrightarrow> i = f \<or> f + w \<le> i \<and> w dvd i - (f + w)" for i
  proof -
    have "w dvd i - (f + w) \<longleftrightarrow> w dvd (i - (f + w)) + w" by (simp only: dvd_add_triv_right_iff)
    also have "(i - (f + w)) + w = i - f" by simp
    finally have "w dvd i - (f + w) \<longleftrightarrow> w dvd i - f" .
    moreover have "f + w \<le> i" if "f < i" "w dvd i - f" using that zdvd_imp_le [of w "i - f"] by simp
    ultimately show ?thesis using "1.prems" by auto
  qed
  show ?case
  proof (cases "f < tot")
    case True
    with 1 have "set (flows_from w tot f) = insert f {i. f + w \<le> i \<and> i < tot \<and> w dvd i - (f + w)}"
      by (subst flows_from.simps) simp
    also have "\<dots> = {i. f \<le> i \<and> i < tot \<and> w dvd i - f}" using True step by blast
    finally show ?thesis .
  qed (subst flows_from.simps, auto)
qed

lemma distinct_flows_from: "distinct (flows_from w tot f)"
proof (induction w tot f rule: flows_from.induct)
  case (1 w tot f)
  then show ?case by (subst flows_from.simps) (auto simp: set_flows_from)
qed

lemma flows_from_one: "flows_from 1 tot f = [f..tot - 1]"
proof (induction "nat (tot - f)" arbitrary: f rule: less_induct)
  case less
  show ?case
  proof (cases "f < tot")
    case True
    then have "flows_from 1 tot (f + 1) = [f + 1..tot - 1]" by (intro less) simp
    with True show ?thesis by (simp add: flows_from.simps [of 1 tot f] upto_rec1 [of f])
  qed (simp add: flows_from.simps [of 1 tot f])
qed

lemma worker_flows:
  assumes "0 \<le> v" "v < w"
  shows "set (flows_from w tot v) = {i. 0 \<le> i \<and> i < tot \<and> i mod w = v}"
proof -
  have iff: "v \<le> i \<and> w dvd i - v \<longleftrightarrow> 0 \<le> i \<and> i mod w = v" for i
  proof
    assume i: "v \<le> i \<and> w dvd i - v"
    then have "i mod w = v mod w" by (simp add: mod_eq_dvd_iff)
    then show "0 \<le> i \<and> i mod w = v" using i assms by simp
  next
    assume i: "0 \<le> i \<and> i mod w = v"
    then have "v \<le> i" using zmod_le_nonneg_dividend [of i w] by simp
    then show "v \<le> i \<and> w dvd i - v" using i by auto
  qed
  have "set (flows_from w tot v) = {i. v \<le> i \<and> i < tot \<and> w dvd i - v}" using assms by (intro set_flows_from) simp
  also have "\<dots> = {i. 0 \<le> i \<and> i < tot \<and> i mod w = v}"
  proof (rule Collect_cong)
    fix i
    show "(v \<le> i \<and> i < tot \<and> w dvd i - v) = (0 \<le> i \<and> i < tot \<and> i mod w = v)" using iff [of i] by argo
  qed
  finally show ?thesis .
qed

lemma count_distinct: "distinct xs \<Longrightarrow> count (mset xs) x = (if x \<in> set xs then 1 else 0)"
  by (simp add: distinct_count_atmost_1)

lemma worker_flows_partition:
  assumes "1 \<le> w"
  shows "(\<Sum>v\<in>{0..<w}. mset (flows_from w tot v)) = mset [0..tot - 1]"
proof (rule multiset_eqI)
  fix i
  have "count (\<Sum>v\<in>{0..<w}. mset (flows_from w tot v)) i = (\<Sum>v\<in>{0..<w}. count (mset (flows_from w tot v)) i)"
    by (rule count_sum)
  also have "\<dots> = (\<Sum>v\<in>{0..<w}. if i mod w = v then if 0 \<le> i \<and> i < tot then 1 else 0 else 0)"
    by (rule sum.cong) (simp_all add: count_distinct [OF distinct_flows_from] worker_flows)
  also have "\<dots> = (if 0 \<le> i \<and> i < tot then 1 else 0)" using assms by (simp add: sum.delta')
  also have "\<dots> = count (mset [0..tot - 1]) i" by (simp add: count_distinct)
  finally show "count (\<Sum>v\<in>{0..<w}. mset (flows_from w tot v)) i = count (mset [0..tot - 1]) i" .
qed

lemma mset_concat_map: "mset (concat (map r fs)) = \<Sum>\<^sub># (image_mset (\<lambda>f. mset (r f)) (mset fs))"
  by (induction fs) auto

lemma sum_mset_concat:
  "(\<Sum>v\<in>A. mset (concat (map r (F v)))) = \<Sum>\<^sub># (image_mset (\<lambda>f. mset (r f)) (\<Sum>v\<in>A. mset (F v)))"
  by (induction A rule: infinite_finite_induct) (simp_all add: mset_concat_map)

section \<open>The rows of a plan\<close>

definition seg_offset :: "Gen \<Rightarrow> int \<Rightarrow> int" where
  "seg_offset g f =
     (let p = gn_plan g
      in if f \<le> kn_DeepFlowCount p then f * kn_DeepDepth p
         else kn_DeepFlowCount p * kn_DeepDepth p + (f - kn_DeepFlowCount p) * kn_ShallowDepth p)"

lemma seg_offset_0: "gen_ok g \<Longrightarrow> seg_offset g 0 = 0"
  using Compose_Ok(3) by (auto simp: gen_ok_def seg_offset_def)

lemma seg_offset_Suc: "seg_offset g (f + 1) = seg_offset g f + FlowDepth g f"
proof (cases f "kn_DeepFlowCount (gn_plan g)" rule: linorder_cases)
  case equal
  then show ?thesis by (simp add: seg_offset_def FlowDepth_def Let_def)
qed (auto simp: seg_offset_def FlowDepth_def Let_def algebra_simps)

lemma seg_offset_mono:
  assumes "gen_ok g" "f \<le> f'"
  shows "seg_offset g f \<le> seg_offset g f'"
  using assms(2)
proof (induction f' rule: int_ge_induct)
  case (step i)
  with gen_okD(1) [OF assms(1), of i] show ?case by (simp add: seg_offset_Suc)
qed simp

lemma seg_offset_total:
  assumes "gen_ok g"
  shows "seg_offset g (pl_TotalFlows (gn_plan g)) = pl_TotalSegments (gn_plan g)" "pl_TotalSegments (gn_plan g) \<le> MaxInt64"
proof -
  obtain k where k: "Compose k = Ok (gn_plan g)" and fits: "plan_fits (gn_plan g)" using assms by (auto simp: gen_ok_def)
  note c = Compose_Ok [OF k]
  let ?D = "kn_DeepFlowCount (gn_plan g) * kn_DeepDepth (gn_plan g)"
  let ?S = "pl_ShallowFlowCount (gn_plan g) * kn_ShallowDepth (gn_plan g)"
  have "0 \<le> ?D" "0 \<le> ?S" "?D + ?S \<le> MaxInt64" using c(1,2,3) fits by (auto simp: plan_fits_def)
  then have "pl_TotalSegments (gn_plan g) = ?D + ?S" "?D + ?S \<le> MaxInt64" using c(7) by (simp_all add: i64_nonneg)
  then show "seg_offset g (pl_TotalFlows (gn_plan g)) = pl_TotalSegments (gn_plan g)" "pl_TotalSegments (gn_plan g) \<le> MaxInt64"
    using fits gen_okD(5) [OF assms] by (auto simp: seg_offset_def plan_fits_def Let_def)
qed

lemma globalSegIdx_eq:
  assumes g: "gen_ok g" and f: "0 \<le> f" "f < pl_TotalFlows (gn_plan g)" and j: "0 \<le> j" "j < FlowDepth g f"
  shows "globalSegIdx g f j = seg_offset g f + j"
proof -
  have "seg_offset g (f + 1) \<le> MaxInt64"
    using seg_offset_mono [OF g, of "f + 1" "pl_TotalFlows (gn_plan g)"] seg_offset_total [OF g] f by simp
  then have le: "seg_offset g f + j \<le> MaxInt64" using j seg_offset_Suc [of g f] by simp
  have ge: "0 \<le> seg_offset g f" using seg_offset_mono [OF g f(1)] seg_offset_0 [OF g] by simp
  note c = gen_ok_def [THEN iffD1, OF g, THEN conjunct1]
  then obtain k where k: "Compose k = Ok (gn_plan g)" by blast
  note c = Compose_Ok(1,2,3) [OF k]
  show ?thesis
  proof (cases "f < kn_DeepFlowCount (gn_plan g)")
    case True
    then show ?thesis using le ge j by (simp add: globalSegIdx_def seg_offset_def i64_nonneg)
  next
    case False
    let ?D = "kn_DeepFlowCount (gn_plan g) * kn_DeepDepth (gn_plan g)"
    let ?S = "(f - kn_DeepFlowCount (gn_plan g)) * kn_ShallowDepth (gn_plan g)"
    have off: "seg_offset g f = ?D + ?S" using False by (auto simp: seg_offset_def Let_def)
    have nn: "0 \<le> ?D" "0 \<le> ?S" "0 \<le> f - kn_DeepFlowCount (gn_plan g)" "f - kn_DeepFlowCount (gn_plan g) \<le> MaxInt64"
      using c False f gen_okD(6) [OF g] by simp_all
    show ?thesis using False le j(1) nn unfolding off
      by (simp add: globalSegIdx_def Let_def i64_nonneg)
  qed
qed

lemma map_upto_add: "map ((+) a) [0..n - 1] = [a..a + n - 1]" for a n :: int
proof (cases "0 \<le> n")
  case True
  then show ?thesis
  proof (induction n rule: int_ge_induct)
    case (step i)
    then show ?case by (simp add: upto_rec2 [of 0 i] upto_rec2 [of a "a + i"])
  qed simp
qed simp

lemma global_indices:
  assumes g: "gen_ok g" and n: "0 \<le> n" "n \<le> pl_TotalFlows (gn_plan g)"
  shows "concat (map (\<lambda>f. map (globalSegIdx g f) [0..FlowDepth g f - 1]) [0..n - 1]) = [0..seg_offset g n - 1]"
  using n
proof (induction n rule: int_ge_induct)
  case (step n)
  have "map (globalSegIdx g n) [0..FlowDepth g n - 1] = map ((+) (seg_offset g n)) [0..FlowDepth g n - 1]"
    using step.prems step.hyps globalSegIdx_eq [OF g, of n] by simp
  also have "\<dots> = [seg_offset g n..seg_offset g (n + 1) - 1]"
    by (simp add: seg_offset_Suc map_upto_add)
  finally have "map (globalSegIdx g n) [0..FlowDepth g n - 1] = [seg_offset g n..seg_offset g (n + 1) - 1]" .
  moreover have "[0..n] = [0..n - 1] @ [n]" using step.hyps by (simp add: upto_rec2)
  moreover have "0 \<le> seg_offset g n" using seg_offset_mono [OF g step.hyps] seg_offset_0 [OF g] by simp
  moreover have "seg_offset g n \<le> seg_offset g (n + 1) - 1" using seg_offset_Suc gen_okD(1) [OF g, of n] by simp
  ultimately show ?case using step upto_split1 [of 0 "seg_offset g n" "seg_offset g (n + 1) - 1"] by simp
qed (simp add: seg_offset_0 [OF g])

lemma FormatTS_seconds:
  assumes "0 \<le> a" "a * nsPerSec \<le> MaxInt64"
  shows "FormatTS (a * nsPerSec) = fmt_d a @ '':0''"
proof -
  have "a * nsPerSec sdiv nsPerSec = a" "a * nsPerSec smod nsPerSec = 0"
    using assms(1) by (simp_all add: signed_divide_int_def signed_modulo_int_def nsPerSec_def sgn_if)
  moreover have "i32 0 = 0" "fmt_d 0 = ''0''" by code_simp+
  ultimately show ?thesis using assms(1) by (simp add: FormatTS_def Timestamp_String_def)
qed

lemma ParseRange_seconds:
  assumes "0 \<le> a" "a < b" "b * nsPerSec \<le> MaxInt64"
  shows "ParseRange (''['' @ fmt_d a @ '':0_'' @ fmt_d b @ '':0)'') = Ok (a * nsPerSec, b * nsPerSec)"
proof -
  have lt: "a * nsPerSec < b * nsPerSec" using assms(2) by (simp add: nsPerSec_def)
  have nn: "0 \<le> a * nsPerSec" using assms(1) by (simp add: nsPerSec_def)
  have "in_i64 (a * nsPerSec)" "in_i64 (b * nsPerSec)" using lt nn assms(3) by (auto simp: in_i64_def MinInt64_def)
  from ParseRange_HalfOpenRange [OF this lt] show ?thesis
    using lt assms nn by (simp add: HalfOpenRange_def FormatTS_seconds)
qed

lemma Gen_Segment_row:
  assumes g: "gen_ok g" and j: "0 \<le> j" "j < FlowDepth g f"
  shows "sw_LowerNs (Gen_Segment sha256 g f j) = j * gn_chunkNs g" "sw_UpperNs (Gen_Segment sha256 g f j) = (j + 1) * gn_chunkNs g"
    "ParseRange (sw_Timerange (Gen_Segment sha256 g f j)) = Ok (j * gn_chunkNs g, (j + 1) * gn_chunkNs g)"
proof -
  define c where "c = kn_ChunkDurationSec (gn_plan g)"
  note ok = gen_okD(1-4,7) [OF g, folded c_def]
  have c: "0 < c" using ok(4) by auto
  have "(j + 1) * (c * nsPerSec) \<le> FlowDepth g f * (c * nsPerSec)"
    by (rule mult_right_mono) (use j c in \<open>simp_all add: nsPerSec_def\<close>)
  then have le: "(j + 1) * (c * nsPerSec) \<le> MaxInt64" using ok(2) [of f] ok(3) by simp
  have sec: "(j + 1) * c \<le> (j + 1) * (c * nsPerSec)" "j * c \<le> (j + 1) * c" "j * (c * nsPerSec) \<le> (j + 1) * (c * nsPerSec)"
    using j c by (simp_all add: nsPerSec_def)
  have nn: "0 \<le> j * c" "0 \<le> j * (c * nsPerSec)" using j c by (simp_all add: nsPerSec_def)
  have i: "i64 (j + 1) = j + 1" using j ok(5) [of f] by (simp add: i64_nonneg)
  have wraps: "i64 (j * c) = j * c" "i64 ((j + 1) * c) = (j + 1) * c" "i64 (j * (c * nsPerSec)) = j * (c * nsPerSec)"
    "i64 ((j + 1) * (c * nsPerSec)) = (j + 1) * (c * nsPerSec)"
    using le sec nn by (intro i64_nonneg; linarith)+
  show "sw_LowerNs (Gen_Segment sha256 g f j) = j * gn_chunkNs g" "sw_UpperNs (Gen_Segment sha256 g f j) = (j + 1) * gn_chunkNs g"
    using wraps i ok(3) by (simp_all add: Gen_Segment_def Let_def)
  have "ParseRange (''['' @ fmt_d (j * c) @ '':0_'' @ fmt_d ((j + 1) * c) @ '':0)'') = Ok (j * c * nsPerSec, (j + 1) * c * nsPerSec)"
    using j c le by (intro ParseRange_seconds) (simp_all add: algebra_simps)
  then show "ParseRange (sw_Timerange (Gen_Segment sha256 g f j)) = Ok (j * gn_chunkNs g, (j + 1) * gn_chunkNs g)"
    using wraps i ok(3) by (simp add: Gen_Segment_def Let_def c_def [symmetric] mult.assoc)
qed

lemma Gen_Flow_span:
  assumes g: "gen_ok g"
  shows "ParseRange (fr_Timerange (Gen_Flow sha256 g f)) = Ok (0, FlowDepth g f * gn_chunkNs g)"
proof -
  define c where "c = kn_ChunkDurationSec (gn_plan g)"
  note ok = gen_okD(1-4,7) [OF g, folded c_def]
  have c: "0 < c" using ok(4) by auto
  have le: "FlowDepth g f * c * nsPerSec \<le> MaxInt64" using ok(2) [of f] ok(3) by (simp add: mult.assoc)
  have pos: "0 < FlowDepth g f * c" using ok(1) [of f] c by simp
  have "FlowDepth g f * c * 1 \<le> FlowDepth g f * c * nsPerSec"
    by (rule mult_left_mono) (use pos in \<open>simp_all add: nsPerSec_def\<close>)
  then have "i64 (FlowDepth g f * c) = FlowDepth g f * c" using le pos by (simp add: i64_nonneg)
  moreover have "fmt_d 0 = ''0''" by code_simp
  ultimately show ?thesis
    using ParseRange_seconds [OF _ pos le] ok(3) by (simp add: Gen_Flow_def Let_def c_def [symmetric] mult.assoc)
qed

definition plan_rows :: "(string \<Rightarrow> string) \<Rightarrow> Gen \<Rightarrow> int list \<Rightarrow> SegmentRow list" where
  "plan_rows sha256 g fs = concat (map (\<lambda>f. map (Gen_Segment sha256 g f) [0..FlowDepth g f - 1]) fs)"

lemma drain_Segments:
  assumes "gen_ok g"
  shows "drain (SegmentIter_Next sha256 g) si_cur Segments = Some (plan_rows sha256 g [0..pl_TotalFlows (gn_plan g) - 1])"
proof -
  have "seq_at g 0 (-1) Segments" using assms gen_okD(1) [OF assms, of 0] by (simp add: seq_at_def Segments_def)
  from sequential.drain_all [OF this] show ?thesis by (simp add: flows_from_one plan_rows_def)
qed

lemma drain_PartitionedSegments:
  assumes "gen_ok g" "pl_TotalFlows (gn_plan g) + w \<le> MaxInt64" "0 \<le> v" "v < w"
  shows "drain (PartitionedSegmentIter_Next sha256 g) pi_cur (PartitionedSegments g v w) =
    Some (plan_rows sha256 g (flows_from w (pl_TotalFlows (gn_plan g)) v))"
proof -
  have "par_at g w v (-1) (PartitionedSegments g v w)"
    using assms gen_okD(1) [OF assms(1), of v] by (simp add: par_at_def PartitionedSegments_def)
  from partitioned.drain_all [OF this] show ?thesis by (simp add: plan_rows_def)
qed

lemma sorted_wrt_concat:
  assumes "sorted_wrt R xs" "\<And>x. x \<in> set xs \<Longrightarrow> sorted_wrt P (r x)"
    "\<And>x y a b. R x y \<Longrightarrow> x \<in> set xs \<Longrightarrow> y \<in> set xs \<Longrightarrow> a \<in> set (r x) \<Longrightarrow> b \<in> set (r y) \<Longrightarrow> P a b"
  shows "sorted_wrt P (concat (map r xs))"
  using assms
proof (induction xs)
  case (Cons x xs)
  then show ?case by (auto simp: sorted_wrt_append)
qed simp

lemma sorted_wrt_upto: "sorted_wrt (<) [i..j]"
  using sorted_list_of_set.strict_sorted_key_list_of_set [of "{i..j}"] by simp

lemma plan_rows_clear:
  assumes g: "gen_ok g" and ids: "inj_on (detUUID sha256 (gn_seed g) ''flow'') {0..<pl_TotalFlows (gn_plan g)}"
  shows "sorted_wrt (\<lambda>a b. sw_FlowID a = sw_FlowID b \<longrightarrow> sw_UpperNs a \<le> sw_LowerNs b)
    (plan_rows sha256 g [0..pl_TotalFlows (gn_plan g) - 1])"
  unfolding plan_rows_def
proof (rule sorted_wrt_concat [OF sorted_wrt_upto])
  fix f
  have ns: "0 < gn_chunkNs g" using gen_okD(3,4) [OF g] by (auto simp: nsPerSec_def)
  show "sorted_wrt (\<lambda>a b. sw_FlowID a = sw_FlowID b \<longrightarrow> sw_UpperNs a \<le> sw_LowerNs b) (map (Gen_Segment sha256 g f) [0..FlowDepth g f - 1])"
    unfolding sorted_wrt_map
    by (rule sorted_wrt_mono_rel [OF _ sorted_wrt_upto]) (use ns in \<open>auto simp: Gen_Segment_row [OF g] mult_right_mono\<close>)
next
  fix f f' a b
  assume f: "f < f'" "f \<in> set [0..pl_TotalFlows (gn_plan g) - 1]" "f' \<in> set [0..pl_TotalFlows (gn_plan g) - 1]"
    and ab: "a \<in> set (map (Gen_Segment sha256 g f) [0..FlowDepth g f - 1])" "b \<in> set (map (Gen_Segment sha256 g f') [0..FlowDepth g f' - 1])"
  have "detUUID sha256 (gn_seed g) ''flow'' f \<noteq> detUUID sha256 (gn_seed g) ''flow'' f'"
    using f inj_onD [OF ids, of f f'] by auto
  then show "sw_FlowID a = sw_FlowID b \<longrightarrow> sw_UpperNs a \<le> sw_LowerNs b"
    using ab by (auto simp: Gen_Segment_def Let_def)
qed

lemma plan_rows_objects:
  assumes g: "gen_ok g"
  shows "map sw_ObjectID (plan_rows sha256 g [0..pl_TotalFlows (gn_plan g) - 1]) =
    map (\<lambda>k. ow_ID (Gen_Object sha256 g k)) [0..pl_ObjectsCount (gn_plan g) - 1]"
proof -
  obtain k where k: "Compose k = Ok (gn_plan g)" and fits: "plan_fits (gn_plan g)" using g by (auto simp: gen_ok_def)
  have n: "0 \<le> pl_TotalFlows (gn_plan g)" using gen_okD(5) [OF g] Compose_Ok(3) [OF k] fits by (simp add: plan_fits_def)
  have "map sw_ObjectID (plan_rows sha256 g fs) =
      map (detObjectID sha256 (gn_seed g)) (concat (map (\<lambda>f. map (globalSegIdx g f) [0..FlowDepth g f - 1]) fs))" for fs
    by (simp add: plan_rows_def map_concat comp_def Gen_Segment_def Let_def)
  then show ?thesis
    using global_indices [OF g n order_refl] seg_offset_total [OF g] Compose_Ok(8) [OF k] by (simp add: Gen_Object_def)
qed

lemma NewGen_ok:
  assumes "Compose k = Ok p" "plan_fits p"
  shows "gen_ok (NewGen p seed)"
  using assms Compose_Ok(4) [OF assms(1)]
  by (auto simp: gen_ok_def NewGen_def nsPerSec_def i64_nonneg MaxInt64_def)

text \<open>The product of the deep counts may wrap, and then the bound on it says nothing. Without workers the first one gets
  every row.\<close>

lemma Compose_wraps:
  "rbind (Compose \<lparr>kn_TargetSegments = 10, kn_ChunkDurationSec = 6, kn_DeepDepth = 2 ^ 32, kn_ShallowDepth = 1,
     kn_DeepFlowCount = 2 ^ 32, kn_RenditionsPerSource = 1\<rparr>) (\<lambda>p. Ok (pl_DeepSegments p, pl_TotalSegments p, pl_TotalFlows p)) =
   Ok (0, 10, 2 ^ 32 + 10)"
  by code_simp

lemma PartitionedSegments_no_workers: "PartitionedSegments g 0 0 = PartitionedSegments g 0 1"
  by (simp add: PartitionedSegments_def)

text \<open>C36: Every iterator over the segments of a plan ends. The workers together give exactly the rows of the sequential one, each
  row to one worker, and no two workers share a flow. The rows are as many as the plan says and name its objects in
  order, each once. Rows of one flow do not overlap, the text of each range is its bounds, and the range of a flow is
  the span of its segments.\<close>

theorem dataset_partitioned:
  fixes seed w :: int and p :: Plan
  defines "g \<equiv> NewGen p seed"
  assumes plan: "Compose k = Ok p" "plan_fits p"
    and workers: "1 \<le> w" "pl_TotalFlows p + w \<le> MaxInt64"
    and ids: "inj_on (detUUID sha256 seed ''flow'') {0..<pl_TotalFlows p}"
  shows "\<exists>rows share. drain (SegmentIter_Next sha256 g) si_cur Segments = Some rows \<and>
    (\<forall>v. 0 \<le> v \<and> v < w \<longrightarrow> drain (PartitionedSegmentIter_Next sha256 g) pi_cur (PartitionedSegments g v w) = Some (share v)) \<and>
    (\<Sum>v\<in>{0..<w}. mset (share v)) = mset rows \<and>
    (\<forall>u v. 0 \<le> u \<and> u < v \<and> v < w \<longrightarrow> sw_FlowID ` set (share u) \<inter> sw_FlowID ` set (share v) = {}) \<and>
    int (length rows) = pl_TotalSegments p \<and>
    map sw_ObjectID rows = map (\<lambda>k. ow_ID (Gen_Object sha256 g k)) [0..pl_ObjectsCount p - 1] \<and>
    sorted_wrt (\<lambda>a b. sw_FlowID a = sw_FlowID b \<longrightarrow> sw_UpperNs a \<le> sw_LowerNs b) rows \<and>
    (\<forall>r \<in> set rows. sw_LowerNs r < sw_UpperNs r \<and> ParseRange (sw_Timerange r) = Ok (sw_LowerNs r, sw_UpperNs r)) \<and>
    (\<forall>f. ParseRange (fr_Timerange (Gen_Flow sha256 g f)) =
      Ok (sw_LowerNs (Gen_Segment sha256 g f 0), sw_UpperNs (Gen_Segment sha256 g f (FlowDepth g f - 1))))"
proof -
  have g: "gen_ok g" and p: "gn_plan g = p" "gn_seed g = seed" using NewGen_ok [OF plan] by (simp_all add: g_def NewGen_def)
  let ?rows = "plan_rows sha256 g [0..pl_TotalFlows p - 1]" and ?share = "\<lambda>v. plan_rows sha256 g (flows_from w (pl_TotalFlows p) v)"
  have ns: "0 < gn_chunkNs g" using gen_okD(3,4) [OF g] by (auto simp: nsPerSec_def)
  have all: "drain (SegmentIter_Next sha256 g) si_cur Segments = Some ?rows" using drain_Segments [OF g] p by simp
  have each: "\<forall>v. 0 \<le> v \<and> v < w \<longrightarrow> drain (PartitionedSegmentIter_Next sha256 g) pi_cur (PartitionedSegments g v w) = Some (?share v)"
    using drain_PartitionedSegments [OF g] workers p by simp
  have parts: "(\<Sum>v\<in>{0..<w}. mset (?share v)) = mset ?rows"
    by (simp only: plan_rows_def sum_mset_concat worker_flows_partition [OF workers(1)]) (simp only: mset_concat_map)
  have apart: "sw_FlowID ` set (?share u) \<inter> sw_FlowID ` set (?share v) = {}" if uv: "0 \<le> u" "u < v" "v < w" for u v
  proof -
    have "sw_FlowID ` set (plan_rows sha256 g fs) \<subseteq> detUUID sha256 seed ''flow'' ` set fs" for fs
      by (auto simp: plan_rows_def Gen_Segment_def Let_def p)
    moreover have "detUUID sha256 seed ''flow'' ` set (flows_from w (pl_TotalFlows p) u) \<inter>
        detUUID sha256 seed ''flow'' ` set (flows_from w (pl_TotalFlows p) v) = {}"
      using uv by (auto simp: worker_flows dest!: inj_onD [OF ids])
    ultimately show ?thesis by blast
  qed
  have objects: "map sw_ObjectID ?rows = map (\<lambda>k. ow_ID (Gen_Object sha256 g k)) [0..pl_ObjectsCount p - 1]"
    using plan_rows_objects [OF g] p by simp
  have len: "int (length ?rows) = pl_TotalSegments p"
  proof -
    have "length ?rows = nat (pl_ObjectsCount p)" using arg_cong [OF objects, of length] by simp
    moreover have "0 \<le> pl_ObjectsCount p"
      using seg_offset_mono [OF g, of 0 "pl_TotalFlows p"] seg_offset_0 [OF g] seg_offset_total [OF g] Compose_Ok(3,8) [OF plan(1)]
        gen_okD(5) [OF g] plan(2) p by (simp add: plan_fits_def)
    ultimately show ?thesis using Compose_Ok(8) [OF plan(1)] by simp
  qed
  have ranges: "\<forall>r \<in> set ?rows. sw_LowerNs r < sw_UpperNs r \<and> ParseRange (sw_Timerange r) = Ok (sw_LowerNs r, sw_UpperNs r)"
    using ns by (auto simp: plan_rows_def Gen_Segment_row [OF g])
  have span: "ParseRange (fr_Timerange (Gen_Flow sha256 g f)) =
      Ok (sw_LowerNs (Gen_Segment sha256 g f 0), sw_UpperNs (Gen_Segment sha256 g f (FlowDepth g f - 1)))" for f
    using gen_okD(1) [OF g, of f] by (simp add: Gen_Flow_span [OF g] Gen_Segment_row [OF g])
  have clear: "sorted_wrt (\<lambda>a b. sw_FlowID a = sw_FlowID b \<longrightarrow> sw_UpperNs a \<le> sw_LowerNs b) ?rows"
    using plan_rows_clear [OF g] ids unfolding p by blast
  show ?thesis
    by (intro exI [of _ ?rows] exI [of _ ?share] conjI allI impI)
      (use all each parts apart len objects clear ranges span in \<open>simp_all only: simp_thms\<close>)
qed

definition ex_knobs :: Knobs where
  "ex_knobs = \<lparr>kn_TargetSegments = 7, kn_ChunkDurationSec = 6, kn_DeepDepth = 3, kn_ShallowDepth = 2, kn_DeepFlowCount = 1,
     kn_RenditionsPerSource = 2\<rparr>"

definition ex_plan :: Plan where
  "ex_plan = \<lparr>kn_TargetSegments = 7, kn_ChunkDurationSec = 6, kn_DeepDepth = 3, kn_ShallowDepth = 2, kn_DeepFlowCount = 1,
     kn_RenditionsPerSource = 2, pl_DeepSegments = 3, pl_ShallowFlowCount = 2, pl_ShallowSegments = 4, pl_TotalSegments = 7,
     pl_TotalFlows = 3, pl_SourcesCount = 2, pl_FlowCollectionRows = 1, pl_ObjectsCount = 7\<rparr>"

definition ex_sha256 :: "string \<Rightarrow> string" where
  "ex_sha256 s = rev s @ replicate 32 (CHR 0x00)"

theorem dataset_partitioned_witness:
  "\<exists>rows share. drain (SegmentIter_Next ex_sha256 (NewGen ex_plan 42)) si_cur Segments = Some rows \<and>
     (\<Sum>v\<in>{0..<2}. mset (share v)) = mset rows \<and> int (length rows) = 7 \<and>
     drain (PartitionedSegmentIter_Next ex_sha256 (NewGen ex_plan 42)) pi_cur (PartitionedSegments (NewGen ex_plan 42) 1 2) =
       Some (share (1 :: int))"
proof -
  have 1: "Compose ex_knobs = Ok ex_plan" by code_simp
  have 2: "plan_fits ex_plan" by code_simp
  have 3: "pl_TotalFlows ex_plan + 2 \<le> MaxInt64" by code_simp
  have f: "{0..<pl_TotalFlows ex_plan} = {0, 1, 2}" by (auto simp: ex_plan_def)
  have "distinct (map (detUUID ex_sha256 42 ''flow'') [0, 1, 2])" by code_simp
  then have 4: "inj_on (detUUID ex_sha256 42 ''flow'') {0..<pl_TotalFlows ex_plan}" unfolding f by (auto simp: distinct_map)
  have "pl_TotalSegments ex_plan = 7" by (simp add: ex_plan_def)
  with dataset_partitioned [OF 1 2 _ 3 4] show ?thesis by fastforce
qed

end
