(* ===== verification/Spec2Isabelle.thy ===== *)
theory Spec2Isabelle
  imports Timeline Head_Methods Idempotency_Machine Operations Dataset "HOL-Library.Multiset"
begin

text \<open>
  A verification development of OpenTAMS, a server for the Time-addressable Media Store API, with its command line tools.

  \<^bold>\<open>The program.\<close> A flow is a timeline of media segments; each segment places an object, a stored file, on a time range.
  A request passes the middleware (\<^verbatim>\<open>internal/server\<close>, \<^verbatim>\<open>internal/httpx/middleware\<close>), is authenticated (\<^verbatim>\<open>internal/auth\<close>,
  \<^verbatim>\<open>pkg/jwtauth\<close>) and reaches a handler (\<^verbatim>\<open>internal/httpx/handlers\<close>), which decodes the body (\<^verbatim>\<open>internal/httpx/conversion\<close>)
  and calls a service (\<^verbatim>\<open>internal/service\<close>). The services call the metadata store (\<^verbatim>\<open>internal/metastore\<close>, PostgreSQL with
  the schema of \<^verbatim>\<open>migrations\<close>), the object store (\<^verbatim>\<open>internal/objectstore\<close>, S3) and the idempotency store
  (\<^verbatim>\<open>internal/idempotency\<close>). Background tasks remove old idempotency keys. \<^verbatim>\<open>cmd/tamsctl\<close> and \<^verbatim>\<open>tools\<close> are clients.

  \<^bold>\<open>How the code is modelled.\<close>
  \<^item> A Go struct is a record, an enumeration a datatype, a nil pointer \<^verbatim>\<open>None\<close>. An operation that can fail or panic returns
    \<^verbatim>\<open>Ok\<close>, \<^verbatim>\<open>Err\<close> or \<^verbatim>\<open>Panic\<close>. An error keeps its chain of causes and the parts of its message, so \<^verbatim>\<open>errors.Is\<close> and \<^verbatim>\<open>errors.As\<close>
    work as in Go.
  \<^item> An int64 is an \<open>int\<close>, and each operation that can leave the range is wrapped (\<open>i64\<close>, \<open>i32\<close>, \<open>u64\<close>).
  \<^item> The database is a record of tables, lists of rows with the constraints of the schema. A store operation maps tables
    to an outcome and tables, statement by statement. Every call of the driver may fail: \<open>env\<close> gives the error of each call
    site. A transaction that does not commit changes nothing but the sequence of ids; a failed commit may have committed.
  \<^item> Names are those of the source. A prefix tells layers apart: \<open>h_\<close> a handler, \<open>svc_\<close> a service, \<open>cli_\<close> the client.

  \<^bold>\<open>The theories, from the bottom up.\<close>
  \<^item> \<open>Prelude\<close>: integers, errors, outcomes and decimal text. \<open>Json\<close>, \<open>Base64\<close>, \<open>Durations\<close>: the parts of the Go library.
    \<open>Tables\<close>: tables with a key and their contract \<open>keyed_table\<close>. \<open>Examples\<close>: concrete tables.
  \<^item> \<open>Timestamps\<close>, \<open>Timeranges\<close>, \<open>Ns_Bounds\<close>: \<^verbatim>\<open>internal/timerange\<close>. A range denotes a set of instants; parsing, printing,
    intersection and the bounds in nanoseconds are shown exact for it.
  \<^item> \<open>App_Error\<close>, \<open>Error_Text\<close>, \<open>Problem\<close>: \<^verbatim>\<open>internal/apperror\<close> and the problem documents. \<open>Domain\<close>: \<^verbatim>\<open>internal/domain\<close>.
  \<^item> \<open>Database\<close>: the tables and transactions, with \<open>tx_relation\<close>, the rules by which a relation between the tables before
    and after carries over from statements to operations.
  \<^item> \<open>Seg_Store\<close>: \<^verbatim>\<open>metastore/segments.go\<close>. \<open>Seg_Invariant\<close>, \<open>Seg_Outcomes\<close>, \<open>Seg_Span\<close> and \<open>Seg_Listing\<close> show the invariant
    under every fault, which batches are stored, the span of a flow and what a listing returns.
  \<^item> \<open>Flow_Store\<close>, \<open>Source_Store\<close>: \<^verbatim>\<open>metastore/flows.go\<close> and \<^verbatim>\<open>sources.go\<close>. \<open>Meta_Invariant\<close> and \<open>Flow_Effects\<close> show the invariant of
    all tables and the outcomes, \<open>Cursor\<close>, \<open>Page_Cursor\<close> and \<open>Meta_Listing\<close> that following the cursors gives every row once
    (\<open>keyset_paging\<close>), \<open>Flow_Properties\<close> the properties.
  \<^item> \<open>Segment_Service\<close>: \<^verbatim>\<open>service/segment\<close>, over the interface \<open>segment_store\<close>, which the store of \<^verbatim>\<open>metastore\<close> is shown to meet.
    \<open>Storage_Service\<close>: \<^verbatim>\<open>service/storage\<close>. \<open>Object_Store\<close>: \<^verbatim>\<open>internal/objectstore\<close>. \<open>Conversion\<close>: \<^verbatim>\<open>httpx/conversion\<close>.
  \<^item> \<open>Idempotency\<close>: \<^verbatim>\<open>internal/idempotency\<close>. \<open>Idempotency_Machine\<close>: any number of clients and reapers in any interleaving.
  \<^item> \<open>Segment_Handlers\<close>, \<open>Flow_Handlers\<close>, \<open>Source_Handlers\<close>: \<^verbatim>\<open>httpx/handlers\<close>. \<open>Handler_Properties\<close>: keys, replays, responses.
    \<open>Head_Methods\<close>: HEAD against GET.
  \<^item> \<open>Access\<close>: \<^verbatim>\<open>internal/auth\<close> and \<^verbatim>\<open>pkg/jwtauth\<close>. \<open>Http_Edge\<close>: the chain around every handler. \<open>Config\<close>: \<^verbatim>\<open>internal/config\<close> and the
    choice of the token provider. \<open>Operations\<close>: health, service endpoints, schema version and the reaper.
  \<^item> \<open>System\<close>: every request and task as a step on the tables; any sequence of steps keeps the invariant of the system.
    \<open>Timeline\<close>: an abstract specification, disjoint placements of objects by flow, that every such run refines.
  \<^item> \<open>Cli\<close>: \<^verbatim>\<open>internal/tamsctl\<close> and \<^verbatim>\<open>cmd/tamsctl/paginate.go\<close>. \<open>Demo_Tools\<close>: \<^verbatim>\<open>tools/internal/opentamsclient\<close>, the fork of
    \<^verbatim>\<open>tools/opentamsedit\<close> and the playlist of \<^verbatim>\<open>tools/opentamsplay\<close>. \<open>Dataset\<close>: \<^verbatim>\<open>tools/scaletest/dataset\<close>, with the contract
    \<open>segment_iterator\<close> of its iterators.
  \<^item> This theory holds the properties of the segment store and its service.

  \<^bold>\<open>Parameters.\<close> Code outside the repository is an argument of the definitions: the conversions of google/uuid and of times
  (\<open>libs\<close>), \<^verbatim>\<open>strconv.Quote\<close> and the texts of foreign errors (\<open>texts\<close>), the hash of a body, the S3 client and the signer, the
  verification of a token, the validator of the specification, new and name-based UUIDs, SHA-256, the binding of one
  parameter by the runtime library, and the transport of a client. What a theorem needs of them is a premise.

  \<^bold>\<open>Loops.\<close> A loop over data is structural recursion; no fuel is used. Three loops may run for ever, and not ending is the
  value \<^verbatim>\<open>None\<close>: the collection of pages (\<open>collect_loop\<close>, shown to end with a cap or with advancing cursors), the listing
  of the demonstration client (\<open>list_all_loop\<close>, shown to end exactly for one page) and the iterators of \<open>Dataset\<close>, shown to
  end when the counts of the plan fit an int64.

  \<^bold>\<open>Abstractions.\<close> A request is one step on the tables, as its statements run in one transaction or commit one by one
  with no other request between; only \<open>Idempotency_Machine\<close> interleaves single statements of requests. The order of the rows
  that a statement returns is that of its ORDER BY. Log lines and counters are left out of every operation.

  \<^bold>\<open>Not modelled.\<close>
  \<^item> \<^verbatim>\<open>objectstore_legacy.go\<close>: excluded from the build by its tag.
  \<^item> Logging and metrics: no result depends on them.
  \<^item> The migration wrapper, the process (command line, signals, goroutines, listener, TLS) and the connection pool: calls
    of libraries and I/O. The schema that the migrations leave is in \<open>Database\<close>.
  \<^item> The commands and the output of \<^verbatim>\<open>tamsctl\<close>, \<^verbatim>\<open>opentamspub\<close>, \<^verbatim>\<open>opentamsassemble\<close>, \<^verbatim>\<open>examples\<close>, the handlers of \<^verbatim>\<open>opentamsplay\<close> and the
    slate of \<^verbatim>\<open>opentamsedit\<close>: command line flags, ffmpeg, files and HTTP.
  \<^item> The rest of \<^verbatim>\<open>tools/scaletest\<close>: load and measurement against a running server. The iterators over sources, flows, objects
    and collections count an index and are left out.
  \<^item> Generated code, but for the types the handlers use and the binding of the parameters of \<^verbatim>\<open>GetFlowSegments\<close>.
  \<^item> Build tools and test support.
\<close>

section \<open>Segments in the store\<close>

text \<open>C3: Whatever fails, \<^verbatim>\<open>InsertSegments\<close> keeps the tables consistent: keys are unique, stored bounds
  are those of the stored text, no two segments of a flow share an instant, every reference
  exists, and the reference count of every object is the number of segments that name it.\<close>

theorem insert_keeps_consistency:
  assumes "db_ok d" "ref_ok d" "list_all wf_segment (ib_Segments batch)"
  shows "db_ok (snd (InsertSegments env batch d)) \<and> ref_ok (snd (InsertSegments env batch d))"
proof (cases "InsertSegments env batch d")
  case (Pair r d')
  have "ref_ok d'"
    using Pair
  proof (cases rule: InsertSegments_cases)
    case kept
    then show ?thesis using assms(2) kept_seq(2) by blast
  next
    case (lost bounds e)
    then show ?thesis using insert_effect_ref_ok(1) [OF assms(1)] assms(2) by blast
  next
    case (finished bounds)
    then show ?thesis using insert_effect_ref_ok(1) [OF assms(1)] assms(2) by blast
  qed
  then show ?thesis using InsertSegments_db_ok [OF assms(1,3) Pair] Pair by simp
qed

theorem insert_keeps_consistency_witness:
  "db_ok (snd (InsertSegments ex_env ex_batch ex_db)) \<and> ref_ok (snd (InsertSegments ex_env ex_batch ex_db))"
  by (rule insert_keeps_consistency) (simp_all add: ex_db_ok ex_batch_def ex_segment_wf)


text \<open>C5: A batch in which two segments share an instant, or one shares an instant with a stored
  segment of the flow, is rejected whole with \<^verbatim>\<open>ErrSegmentOverlap\<close>, and nothing is written.\<close>

theorem insert_overlap_rejected:
  assumes "no_faults env" "db_ok d" "flow_writable (ib_FlowID batch) d"
    "list_all wf_segment (ib_Segments batch)"
    "list_all (\<lambda>sg. bounds_of_text (TimerangeRaw sg) \<noteq> None) (ib_Segments batch)"
    "meets_batch (ib_Segments batch) \<or> (\<exists>sg \<in> set (ib_Segments batch). meets_row (ib_FlowID batch) d sg)"
  shows "\<exists>e. InsertSegments env batch d = (Err e, d) \<and> errors_Is e ErrSegmentOverlap"
  using segmentBounds_accepts [OF assms(4,5)] InsertSegments_overlap [OF assms(1-3) _ assms(4,6)]
  by (auto simp: only_overlap_def)

lemma ex_clash_meets: "meets_batch [ex_segment, ex_segment]"
proof -
  have "\<not> IsEmpty ex_range" by code_simp
  then have "instants ex_range \<noteq> {}" using IsEmpty_iff Parse_Ok_wf [OF ex_range_Parse] by blast
  then show ?thesis
    unfolding meets_batch_def by (intro exI [of _ 0] exI [of _ "Suc 0"]) (simp add: ex_segment_def)
qed

lemma ex_bounded: "bounds_of_text (TimerangeRaw ex_segment) = Some (0, 10000000000)"
  by code_simp

theorem insert_overlap_rejected_witness:
  "\<exists>e. InsertSegments ex_env ex_clash ex_db = (Err e, ex_db) \<and> errors_Is e ErrSegmentOverlap"
  by (rule insert_overlap_rejected)
    (simp_all add: ex_env_no_faults ex_db_ok ex_clash_def ex_segment_wf ex_writable ex_bounded ex_clash_meets)

text \<open>C6: A batch with valid, pairwise disjoint segments that meet no stored segment, whose objects
  are not being reaped and whose object ranges lie in the stored ones, is stored, and the
  client that follows the page cursors of the flow then receives the segments stored before
  and every segment of the batch exactly as it was sent.\<close>

theorem insert_then_list:
  assumes "no_faults env" "db_ok d" "acceptable batch d"
    "lq_FlowID q = ib_FlowID batch" "lq_Timerange q = None" "lq_ObjectID q = None" "lq_Page q = []"
  shows "\<exists>d' items n.
    InsertSegments env batch d =
      (Ok \<lparr>AcceptedIndices = [0..<length (ib_Segments batch)], RejectedIndices = [], RejectReasons = []\<rparr>, d') \<and>
    fetch_pages n env q d' = Some items \<and>
    mset items = mset (map row_segment (flow_rows (ib_FlowID batch) d)) +
      mset (map (\<lambda>sg. sg\<lparr>FlowID := ib_FlowID batch, CreatedAt := now env\<rparr>) (ib_Segments batch))"
proof -
  let ?fid = "ib_FlowID batch" and ?segs = "ib_Segments batch"
  from InsertSegments_accepts [OF assms(1-3)] obtain bounds d' where
    b: "segmentBounds ?segs = Ok bounds" and
    ins: "InsertSegments env batch d =
      (Ok \<lparr>AcceptedIndices = [0..<length ?segs], RejectedIndices = [], RejectReasons = []\<rparr>, d')" and
    eff: "insert_effect env batch bounds d d'" by blast
  have wf: "list_all wf_segment ?segs" using assms(3) by (simp add: acceptable_def Let_def)
  have ok': "db_ok d'" by (rule insert_effect_db_ok [OF assms(2) eff wf b])
  have known: "flow_known (lq_FlowID q) d'"
    using insert_effect_flow [OF eff] by (auto simp: flow_known_def assms(4))
  have q: "query_ok q" using assms(5) by (simp add: query_ok_def)
  note pages = fetch_pages_all [OF assms(1) ok' q known assms(7)]
  have "mset (map row_segment (listed q d')) = image_mset row_segment (mset (flow_rows ?fid d'))"
    using assms(4-6) by (simp add: listed_def Let_def matches_def flow_rows_def)
  also have "flow_rows ?fid d' = flow_rows ?fid d @ new_rows env ?fid (seg_seq d) (zip ?segs bounds)"
    unfolding flow_rows_def insert_effect_segments [OF eff]
    by (auto simp: new_rows_def segment_row_of_def filter_id_conv)
  also have "map row_segment (new_rows env ?fid (seg_seq d) (zip ?segs bounds)) =
      map (\<lambda>sg. sg\<lparr>FlowID := ?fid, CreatedAt := now env\<rparr>) ?segs"
    using wf segmentBounds_Ok(1) [OF b]
    by (intro nth_equalityI)
      (auto simp: new_rows_def nth_enumerate_eq row_segment_def scan_segment_row_of list_all_length)
  then have "image_mset row_segment (mset (flow_rows ?fid d @ new_rows env ?fid (seg_seq d) (zip ?segs bounds))) =
      mset (map row_segment (flow_rows ?fid d)) + mset (map (\<lambda>sg. sg\<lparr>FlowID := ?fid, CreatedAt := now env\<rparr>) ?segs)"
    by (metis mset_append mset_map map_append)
  finally show ?thesis using ins pages by blast
qed

lemma ex_acceptable: "acceptable ex_batch ex_db"
proof -
  have "flow_writable ''f1'' ex_db" "storage_known ''st'' [ex_segment]" "object_room ex_db [ex_segment]"
    "object_range_fits ex_db ex_segment" "KeyFrameCount ex_segment = Some 1" "int4_ok 1" by code_simp+
  then show ?thesis
    by (simp add: acceptable_def Let_def ex_batch_def ex_segment_wf ex_bounded meets_batch_def meets_row_def
        ex_db_def empty_db_def MaxInt64_def)
qed

definition ex_query :: ListQuery where
  "ex_query = \<lparr>lq_FlowID = ''f1'', lq_Timerange = None, lq_ObjectID = None, lq_ReverseOrder = False,
     lq_VerboseStorage = False, lq_AcceptGetURLs = None, lq_AcceptStorageIDs = None, lq_Presigned = None,
     lq_IncludeObjectTimerange = False, lq_Page = [], lq_Limit = 1\<rparr>"

theorem insert_then_list_witness:
  "\<exists>d' items n.
    InsertSegments ex_env ex_batch ex_db =
      (Ok \<lparr>AcceptedIndices = [0..<length (ib_Segments ex_batch)], RejectedIndices = [], RejectReasons = []\<rparr>, d') \<and>
    fetch_pages n ex_env ex_query d' = Some items \<and>
    mset items = mset (map row_segment (flow_rows (ib_FlowID ex_batch) ex_db)) +
      mset (map (\<lambda>sg. sg\<lparr>FlowID := ib_FlowID ex_batch, CreatedAt := now ex_env\<rparr>) (ib_Segments ex_batch))"
  by (rule insert_then_list)
    (simp_all add: ex_env_no_faults ex_db_ok ex_acceptable, simp_all add: ex_query_def ex_batch_def)

text \<open>C7: Following the page cursors of a listing returns every row of the flow that shares an
  instant with the requested range and names the requested object, once, ordered by its
  lower bound (descending for the reverse order), whatever the page size.\<close>

theorem list_pages_complete:
  assumes "no_faults env" "db_ok d" "flow_known (lq_FlowID q) d" "query_ok q" "lq_Page q = []"
  shows "\<exists>n. fetch_pages n env q d = Some (map row_segment (listed q d))"
  using fetch_pages_all [OF assms(1,2,4,3,5)] by blast

theorem list_pages_complete_witness:
  "\<exists>n. fetch_pages n ex_env ex_query ex_db = Some (map row_segment (listed ex_query ex_db))"
  by (rule list_pages_complete)
    (simp_all add: ex_env_no_faults ex_db_ok, simp_all add: ex_query_def query_ok_def flow_known_def ex_db_def
      ex_flow_def rows_find_def)

text \<open>C11: A successful delete removes exactly the segments of the flow whose instants all lie in the
  range (and name the object, where one is given), reports their number, and keeps the
  tables consistent, the reference counts included.\<close>

theorem delete_exact:
  assumes "db_ok d" "ref_ok d" "wf_tr (dq_Timerange q)" "DeleteSegmentsByTimerange env q d = (Ok res, d')"
  shows "segments d' = filter (\<lambda>g. \<not> (g_flow_id g = dq_FlowID q \<and> row_instants g \<subseteq> instants (dq_Timerange q) \<and>
        (dq_ObjectID q = None \<or> dq_ObjectID q = Some (g_object_id g)))) (segments d) \<and>
    DeletedCount res = int (length (segments d)) - int (length (segments d')) \<and> db_ok d' \<and> ref_ok d'"
proof -
  have rows: "g_lower_ns g < g_upper_ns g" "row_instants g \<noteq> {}" if "g \<in> set (segments d)" for g
    using assms(1) that row_ok_bounds by (auto simp: db_ok_def list_all_iff row_instants_def)
  show ?thesis
    using assms(4)
  proof (cases rule: DeleteSegments_cases)
    case kept
    then have "instants (dq_Timerange q) = {}" "DeletedCount res = 0" using IsEmpty_iff [OF assms(3)] by auto
    moreover have "segments d' = segments d" "ref_ok d'" "db_ok d'"
      using kept_seq(2,4) [OF kept(1)] assms(2) db_ok_seq [OF assms(1) kept(2)] kept(1) by simp_all
    ultimately show ?thesis using rows(2) by (auto simp: filter_id_conv)
  next
    case (finished lo hi)
    have iff: "delete_where q lo hi g \<longleftrightarrow> g_flow_id g = dq_FlowID q \<and> row_instants g \<subseteq> instants (dq_Timerange q) \<and>
        (dq_ObjectID q = None \<or> dq_ObjectID q = Some (g_object_id g))" if "g \<in> set (segments d)" for g
      using delete_where_iff [OF assms(3) finished(1) rows(1) [OF that]] by (cases "dq_ObjectID q") auto
    have "segments d' = filter (\<lambda>g. \<not> delete_where q lo hi g) (segments d)"
      by (rule delete_effect_segments [OF finished(2)])
    moreover have "length (filter (delete_where q lo hi) (segments d)) + length (segments d') = length (segments d)"
      unfolding calculation by (rule sum_length_filter_compl)
    moreover have "filter (\<lambda>g. \<not> delete_where q lo hi g) (segments d) =
        filter (\<lambda>g. \<not> (g_flow_id g = dq_FlowID q \<and> row_instants g \<subseteq> instants (dq_Timerange q) \<and>
          (dq_ObjectID q = None \<or> dq_ObjectID q = Some (g_object_id g)))) (segments d)"
      by (rule filter_cong) (use iff in auto)
    ultimately show ?thesis
      using finished delete_effect_db_ok [OF assms(1)] delete_effect_ref_ok(1) [OF assms(1)] assms(2) by auto
  qed simp
qed

definition ex_delete :: DeleteQuery where
  "ex_delete = \<lparr>dq_FlowID = ''f1'', dq_Timerange = ex_range, dq_ObjectID = None\<rparr>"

definition ex_db2 :: db where
  "ex_db2 = ex_db1\<lparr>flows := [ex_flow\<lparr>f_segments_updated := Some 7\<rparr>],
     objects := [\<lparr>o_id = ''o1'', o_ref_count = 0, o_storage_id = Some ''st'', o_reaping = False\<rparr>],
     segments := []\<rparr>"

lemma ex_delete_run:
  "DeleteSegmentsByTimerange ex_env ex_delete ex_db1 = (Ok \<lparr>DeletedCount = 1\<rparr>, ex_db2)"
  by code_simp

lemma ex_db1_ok: "db_ok ex_db1" "ref_ok ex_db1"
  by code_simp+

theorem delete_exact_witness:
  "segments ex_db2 = filter (\<lambda>g. \<not> (g_flow_id g = dq_FlowID ex_delete \<and>
        row_instants g \<subseteq> instants (dq_Timerange ex_delete) \<and>
        (dq_ObjectID ex_delete = None \<or> dq_ObjectID ex_delete = Some (g_object_id g)))) (segments ex_db1) \<and>
    DeletedCount \<lparr>DeletedCount = 1\<rparr> = int (length (segments ex_db1)) - int (length (segments ex_db2)) \<and>
    db_ok ex_db2 \<and> ref_ok ex_db2"
  by (rule delete_exact [OF ex_db1_ok _ ex_delete_run])
    (simp add: ex_delete_def Parse_Ok_wf [OF ex_range_Parse])

text \<open>C12: After a successful insert or delete the derived \<^verbatim>\<open>timerange\<close> of the flow is absent when the
  flow has no segment, and otherwise parses to the hull of its segments: from the least
  lower bound to the greatest upper bound.\<close>

theorem flow_span_current:
  assumes "db_ok d" "list_all wf_segment (ib_Segments batch)"
  shows "(\<forall>r d'. InsertSegments env batch d = (Ok r, d') \<longrightarrow> span_current (ib_FlowID batch) d') \<and>
    (\<forall>r d'. DeleteSegmentsByTimerange env q d = (Ok r, d') \<longrightarrow> instants (dq_Timerange q) \<noteq> {} \<longrightarrow>
       wf_tr (dq_Timerange q) \<longrightarrow> span_current (dq_FlowID q) d')"
proof (intro conjI allI impI)
  fix r d'
  assume run: "InsertSegments env batch d = (Ok r, d')"
  then obtain bounds where "insert_effect env batch bounds d d'" by (cases rule: InsertSegments_cases) auto
  from insert_effect_flow [OF this] show "span_current (ib_FlowID batch) d'"
    using span_currentI InsertSegments_db_ok [OF assms run] by blast
next
  fix r d'
  assume run: "DeleteSegmentsByTimerange env q d = (Ok r, d')"
    and tr: "instants (dq_Timerange q) \<noteq> {}" "wf_tr (dq_Timerange q)"
  from run obtain lo hi where "delete_effect env q lo hi d d'"
    using IsEmpty_iff [OF tr(2)] tr(1) by (cases rule: DeleteSegments_cases) auto
  from delete_effect_flow [OF this] show "span_current (dq_FlowID q) d'"
    using span_currentI DeleteSegments_db_ok [OF assms(1) run] by blast
qed

theorem flow_span_current_witness:
  "span_current ''f1'' ex_db1"
  using flow_span_current [OF ex_db_ok(1), of ex_batch ex_env] ex_insert
  by (simp add: ex_batch_def ex_segment_wf)

text \<open>C13: Where the stored object range has bounds (it is not the empty range), \<^verbatim>\<open>rangeContains\<close> does
  not panic, and when it accepts a new object range every instant of it lies in the stored one.\<close>

theorem object_range_contained:
  assumes "wf_tr outer" "instants outer \<noteq> {}" "wf_tr inner"
  shows "\<exists>b. rangeContains outer inner = Ok b \<and> (b \<longrightarrow> instants inner \<subseteq> instants outer)"
  using rangeContains_spec wf_nonempty(1,2) [OF assms(1)] IsEmpty_iff [OF assms(1)] assms(2,3) by blast

theorem object_range_contained_witness:
  "\<exists>b. rangeContains ex_range emptyRange = Ok b \<and> (b \<longrightarrow> instants emptyRange \<subseteq> instants ex_range)"
proof (rule object_range_contained)
  show "wf_tr ex_range" by (rule Parse_Ok_wf [OF ex_range_Parse])
  have "\<not> IsEmpty ex_range" by code_simp
  then show "instants ex_range \<noteq> {}" using IsEmpty_iff Parse_Ok_wf [OF ex_range_Parse] by blast
qed simp

section \<open>The segment service\<close>

text \<open>C14: \<^verbatim>\<open>RegisterBatch\<close> splits the batch: the accepted segments are the valid ones and the failed
  ones the others, both in the order of the request, their numbers add up to the batch, and
  the outcome says which kind there is. Only valid segments reach the store.\<close>

theorem register_partition:
  assumes "registerBatch (InsertSegments env) cid req d = (Ok res, d')"
  shows "Accepted res = map stamp (filter valid_segment (rp_Segments req)) \<and>
    map fs_Segment (Failed res) = map stamp (filter (\<lambda>sg. \<not> valid_segment sg) (rp_Segments req)) \<and>
    length (Accepted res) + length (Failed res) = length (rp_Segments req) \<and>
    Outcome res = (if Failed res = [] then OutcomeAllAccepted
      else if Accepted res = [] then OutcomeAllRejected else OutcomePartial) \<and>
    (Accepted res = [] \<and> d' = d \<or> (\<exists>r. InsertSegments env (sent cid req) d = (Ok r, d')))"
proof -
  note r = pg.register_Ok [OF assms] and n = pg.register_counts [OF assms]
  have "rp_Segments req \<noteq> []" using assms by (auto simp: registerBatch_def tx_simps split: if_splits)
  then have "Accepted res \<noteq> [] \<or> Failed res \<noteq> []" using n by auto
  then show ?thesis using r n by (auto simp: outcome_of_def)
qed

definition ex_params :: RegisterParams where
  "ex_params = \<lparr>rp_FlowID = ''f1'', rp_Segments = [ex_segment, ex_segment\<lparr>ObjectID := []\<rparr>]\<rparr>"

lemma ex_register:
  "registerBatch (InsertSegments ex_env) ''st'' ex_params ex_db =
    (Ok \<lparr>Outcome = OutcomePartial, Accepted = [ex_segment],
      Failed = [\<lparr>fs_Segment = ex_segment\<lparr>ObjectID := []\<rparr>, fs_Reason = [Lit ''object_id is required''],
        fs_Type = pd_Type (problem_of SchemaValidation []), fs_Title = ''Schema Validation Failed'',
        fs_Status = 400\<rparr>]\<rparr>, ex_db1)"
  by code_simp

theorem register_partition_witness:
  "\<exists>res. registerBatch (InsertSegments ex_env) ''st'' ex_params ex_db = (Ok res, ex_db1) \<and>
    length (Accepted res) + length (Failed res) = length (rp_Segments ex_params)"
  using register_partition [OF ex_register] ex_register by blast

end
